theory Spec2Isabelle
  imports Complex_Main
begin

section \<open>Data model\<close>

text \<open>
  The sampling routines of \<^verbatim>\<open>utils.py\<close> work on NumPy arrays of double-precision
  floats. The main embedding reads every float as a \<^typ>\<open>real\<close> and every array as a list
  (a matrix as the list of its rows, a three-dimensional tensor as a list of matrices): it
  is the program in exact arithmetic. Rounding, overflow and underflow are outside this
  reading, and so are the IEEE special values: where Python would continue with \<^verbatim>\<open>inf\<close> or
  \<^verbatim>\<open>nan\<close> (a division by zero, the logarithm of zero, a non-positive number raised to the
  power \<^verbatim>\<open>-0.5\<close>, a density that underflows to zero) the definitions use the total
  operations of HOL, and the theorems that depend on such a point carry the hypothesis that
  excludes it. Three places are modelled on double-precision values instead: the density
  \<^verbatim>\<open>AGD_pdf\<close>, which has a second embedding with every operation rounded; the clamp
  \<^verbatim>\<open>min([1., ratio])\<close> and the acceptance test of the samplers; and the divisions
  \<^verbatim>\<open>1/r\<close> and \<^verbatim>\<open>temp/float(size)\<close> of \<^verbatim>\<open>integral_approx\<close>.

  Indices of components, features and observations are natural numbers. An index outside
  an array raises \<^verbatim>\<open>IndexError\<close> in Python; in the model every indexing expression
  returns a value of the sum type \<open>error + 'a\<close>, with \<open>Inl\<close> for the exception.
\<close>

datatype error = IndexError | ValueError

definition bindE :: "error + 'a \<Rightarrow> ('a \<Rightarrow> error + 'b) \<Rightarrow> error + 'b" where
  "bindE m f = (case m of Inl e \<Rightarrow> Inl e | Inr v \<Rightarrow> f v)"

definition idx :: "'a list \<Rightarrow> nat \<Rightarrow> error + 'a" where
  "idx xs i = (if i < length xs then Inr (xs ! i) else Inl IndexError)"

definition idx2 :: "'a list list \<Rightarrow> nat \<Rightarrow> nat \<Rightarrow> error + 'a" where
  "idx2 a j k = bindE (idx a j) (\<lambda>row. idx row k)"

definition idx3 :: "'a list list list \<Rightarrow> nat \<Rightarrow> nat \<Rightarrow> nat \<Rightarrow> error + 'a" where
  "idx3 a i j k = bindE (idx a i) (\<lambda>plane. idx2 plane j k)"

text \<open>
  A Python \<^verbatim>\<open>for\<close> loop over a sequence, threading the variables the body assigns as a
  state; an exception raised by the body ends the loop.
\<close>

fun for_loop :: "'a list \<Rightarrow> ('s \<Rightarrow> 'a \<Rightarrow> error + 's) \<Rightarrow> 's \<Rightarrow> error + 's" where
  "for_loop [] body s = Inr s"
| "for_loop (a # as) body s =
     (case body s a of Inl e \<Rightarrow> Inl e | Inr s' \<Rightarrow> for_loop as body s')"

section \<open>Double-precision values\<close>

text \<open>
  A double-precision value is a finite number, written as the real it denotes, a NaN or an
  infinity. The sign of a zero is not recorded.
\<close>

datatype float64 = Finite real | NaN | PosInf | NegInf

text \<open>The comparisons \<^verbatim>\<open><\<close> and \<^verbatim>\<open><=\<close> of IEEE 754: false whenever an operand is a NaN.\<close>

fun f64_less :: "float64 \<Rightarrow> float64 \<Rightarrow> bool" where
  "f64_less (Finite x) (Finite y) = (x < y)"
| "f64_less (Finite x) PosInf = True"
| "f64_less NegInf (Finite y) = True"
| "f64_less NegInf PosInf = True"
| "f64_less _ _ = False"


text \<open>
  Python's built-in \<^verbatim>\<open>min\<close> of a list: it keeps the first element and replaces it by a
  later one only when that one compares smaller, so a NaN that is not the first element is
  never returned. On an empty list it raises \<^verbatim>\<open>ValueError\<close>.
\<close>

fun python_min :: "float64 list \<Rightarrow> error + float64" where
  "python_min [] = Inl ValueError"
| "python_min (x # xs) = Inr (fold (\<lambda>y m. if f64_less y m then y else m) xs x)"

text \<open>
  The division of NumPy. NumPy does not raise on a zero divisor: it warns and stores
  \<^verbatim>\<open>nan\<close> for \<^verbatim>\<open>0/0\<close> and a signed infinity otherwise.
\<close>

definition np_true_divide :: "real \<Rightarrow> real \<Rightarrow> float64" where
  "np_true_divide x y =
     (if y \<noteq> 0 then Finite (x / y)
      else if x = 0 then NaN else if 0 < x then PosInf else NegInf)"

section \<open>The asymmetric Gaussian density\<close>

text \<open>
  \<^verbatim>\<open>AGD_pdf(x_k, mu, s_l, s_r)\<close>: the density at a single observation, in exact
  arithmetic.
\<close>

definition AGD_pdf :: "real \<Rightarrow> real \<Rightarrow> real \<Rightarrow> real \<Rightarrow> real" where
  "AGD_pdf x_k mu s_l s_r =
     (if x_k < mu
      then sqrt (2 / pi) / (s_l powr (- 0.5) + s_r powr (- 0.5))
             * exp (- 0.5 * s_l * (x_k - mu) ^ 2)
      else sqrt (2 / pi) / (s_l powr (- 0.5) + s_r powr (- 0.5))
             * exp (- 0.5 * s_r * (x_k - mu) ^ 2))"

text \<open>
  \<^verbatim>\<open>AGD_pdf_feature_selction(x, j, D, rho, mu, s_l, s_r, mu_irr, s_l_irr, s_r_irr)\<close>: the
  product over the features of the relevance-weighted mixture of the two densities. The
  accumulator is an \<^verbatim>\<open>mpmath\<close> arbitrary-precision float, read as a real.
\<close>

definition AGD_pdf_feature_selction ::
  "real list \<Rightarrow> nat \<Rightarrow> nat \<Rightarrow> real list list \<Rightarrow> real list list \<Rightarrow> real list list \<Rightarrow> real list list
     \<Rightarrow> real list list \<Rightarrow> real list list \<Rightarrow> real list list \<Rightarrow> error + real" where
  "AGD_pdf_feature_selction x j D rho mu s_l s_r mu_irr s_l_irr s_r_irr =
     for_loop [0..<D] (\<lambda>y k.
       bindE (idx2 rho j k) (\<lambda>rho_jk.
       bindE (idx x k) (\<lambda>x_k.
       bindE (idx2 mu j k) (\<lambda>mu_jk.
       bindE (idx2 s_l j k) (\<lambda>s_ljk.
       bindE (idx2 s_r j k) (\<lambda>s_rjk.
       bindE (idx2 mu_irr j k) (\<lambda>mu_irr_jk.
       bindE (idx2 s_l_irr j k) (\<lambda>s_l_irr_jk.
       bindE (idx2 s_r_irr j k) (\<lambda>s_r_irr_jk.
         Inr (y * (rho_jk * AGD_pdf x_k mu_jk s_ljk s_rjk
                   + (1 - rho_jk) * AGD_pdf x_k mu_irr_jk s_l_irr_jk s_r_irr_jk))))))))))) 1"

section \<open>Double-precision arithmetic\<close>

text \<open>
  The arithmetic of IEEE 754 binary64 with rounding to nearest, ties to even. A finite
  double is an integer multiple of the spacing of its binade; the smallest spacing, that of
  the subnormal numbers, is \<open>2^-1074\<close>, and a result whose rounded magnitude reaches
  \<open>2^1024\<close> overflows to an infinity. \<open>pow2 n\<close> is the power \<open>2^n\<close>.
\<close>

definition pow2 :: "int \<Rightarrow> real" where
  "pow2 n = 2 powr of_int n"

definition round_half_even :: "real \<Rightarrow> int" where
  "round_half_even q =
     (let f = \<lfloor>q\<rfloor> in
      if q - of_int f < 1 / 2 then f
      else if 1 / 2 < q - of_int f then f + 1
      else if even f then f else f + 1)"

definition float64_exponent :: "real \<Rightarrow> int" where
  "float64_exponent x = (if \<bar>x\<bar> < pow2 (- 1022) then - 1022 else \<lfloor>log 2 \<bar>x\<bar>\<rfloor>)"

definition float64_ulp :: "real \<Rightarrow> real" where
  "float64_ulp x = pow2 (float64_exponent x - 52)"

definition round_to_grid :: "real \<Rightarrow> real" where
  "round_to_grid x = of_int (round_half_even (x / float64_ulp x)) * float64_ulp x"












section \<open>The random source\<close>

text \<open>
  Every sampling routine draws from the process-wide generators of NumPy and SciPy. In
  the model each call to a generator is an explicit argument: a function that gives, for
  the distribution the call asks for, the sample the generator returns. A theorem
  quantified over these arguments holds for every realisation of the random draws, and its
  statement shows which distribution each draw is taken from.
\<close>

datatype distribution =
    Norm_dist real real
  | Gamma_dist real real real
  | Uniform_dist real real
  | Randint_dist int int

text \<open>
  \<open>Norm_dist loc scale\<close> is SciPy's \<^verbatim>\<open>norm(loc, scale)\<close>, the normal distribution of mean
  \<open>loc\<close> and standard deviation \<open>scale\<close>; \<open>Gamma_dist a loc scale\<close> is \<^verbatim>\<open>gamma(a, loc, scale)\<close>,
  of shape \<open>a\<close>; \<open>Uniform_dist low high\<close> is the uniform distribution that
  \<^verbatim>\<open>np.random.uniform(low, high)\<close> samples; \<open>Randint_dist low high\<close> is the uniform
  distribution on the integers \<open>low, ..., high - 1\<close> that \<^verbatim>\<open>np.random.randint(low, high)\<close>
  samples.
\<close>

type_synonym rvs = "distribution \<Rightarrow> real"

text \<open>A sample lies in the support of its distribution.\<close>

fun in_support :: "distribution \<Rightarrow> real \<Rightarrow> bool" where
  "in_support (Norm_dist loc scale) v = True"
| "in_support (Gamma_dist a loc scale) v = (loc \<le> v)"
| "in_support (Uniform_dist low high) v = (low \<le> v \<and> v \<le> high)"
| "in_support (Randint_dist low high) v = (v = of_int \<lfloor>v\<rfloor> \<and> low \<le> \<lfloor>v\<rfloor> \<and> \<lfloor>v\<rfloor> < high)"

text \<open>
  The generators as NumPy and SciPy implement them, from a standard variate \<open>v\<close> of the
  family: \<^verbatim>\<open>rvs\<close> returns \<^verbatim>\<open>v * scale + loc\<close>, \<^verbatim>\<open>uniform\<close> returns
  \<^verbatim>\<open>low + (high - low) * v\<close>, \<^verbatim>\<open>randint\<close> reduces a raw integer to the range. They serve
  as the concrete generators of the examples.
\<close>

fun rvs_of_variate :: "real \<Rightarrow> rvs" where
  "rvs_of_variate v (Norm_dist loc scale) = v * scale + loc"
| "rvs_of_variate v (Gamma_dist a loc scale) = v * scale + loc"
| "rvs_of_variate v (Uniform_dist low high) = low + (high - low) * v"
| "rvs_of_variate v (Randint_dist low high) = of_int (low + \<lfloor>v\<rfloor> mod (high - low))"

text \<open>
  SciPy's \<^verbatim>\<open>rvs\<close> raises \<^verbatim>\<open>ValueError\<close> (domain error in arguments) when a shape
  parameter is outside its range or the scale is negative. The wrappers of
  \<^verbatim>\<open>utils.py\<close> are called with their default \<^verbatim>\<open>size=1\<close> and their result is read at
  index 0, which the model folds into one real.
\<close>

definition norm_rvs :: "real \<Rightarrow> real \<Rightarrow> rvs \<Rightarrow> error + real" where
  "norm_rvs loc scale g = (if 0 \<le> scale then Inr (g (Norm_dist loc scale)) else Inl ValueError)"

definition draw_normal :: "real \<Rightarrow> real \<Rightarrow> rvs \<Rightarrow> error + real" where
  "draw_normal loc scale g = norm_rvs loc scale g"

definition draw_gamma :: "real \<Rightarrow> real \<Rightarrow> rvs \<Rightarrow> error + real" where
  "draw_gamma a theta g =
     (if 0 < a \<and> 0 \<le> theta then Inr (g (Gamma_dist a 0 theta)) else Inl ValueError)"

definition np_random_uniform :: "real \<Rightarrow> real \<Rightarrow> rvs \<Rightarrow> real" where
  "np_random_uniform low high g = g (Uniform_dist low high)"

text \<open>
  The draws of one iteration of a Metropolis-Hastings loop: the generator call of the
  proposal, the two calls of the two prior draws, and the call of the acceptance test. An
  iteration that is skipped makes only the first.
\<close>

record mh_draws =
  g_candidate :: rvs
  g_prior :: "rvs \<times> rvs"
  u01 :: rvs

section \<open>Metropolis-Hastings samplers\<close>

text \<open>
  Each of the five \<^verbatim>\<open>compare_*\<close> functions is written in two definitions, split at its local
  variable \<^verbatim>\<open>compared_log_likelihood\<close>: the loop that accumulates the log-likelihood ratio,
  and the function itself, which takes the two generator calls \<open>g\<close> of its two prior draws.
  Each of the five samplers is written in four: the first lines of the body of its
  \<^verbatim>\<open>for\<close> loop, up to its local variable \<^verbatim>\<open>alpha\<close> (they return the candidate and
  \<^verbatim>\<open>alpha\<close>, or nothing when the iteration ends at \<^verbatim>\<open>continue\<close>); the body of the loop on
  the state \<open>(x, vec)\<close>; the list \<^verbatim>\<open>vec\<close> after the 750 iterations; and the sampler, which
  returns \<^verbatim>\<open>vec[-1]\<close>. \<open>draws i\<close> holds the draws of iteration \<open>i\<close>. The ratio that a
  \<^verbatim>\<open>compare_*\<close> function returns is computed in exact arithmetic; the clamp
  \<^verbatim>\<open>min([1., ratio])\<close> and the test \<^verbatim>\<open>u < alpha\<close> are those of Python on doubles.
\<close>

subsection \<open>\<^verbatim>\<open>mu_jk\<close>\<close>

definition compare_mu_jk_log_likelihood ::
  "real \<Rightarrow> real \<Rightarrow> real \<Rightarrow> real \<Rightarrow> real list list list \<Rightarrow> nat \<Rightarrow> nat \<Rightarrow> real list list
     \<Rightarrow> error + real" where
  "compare_mu_jk_log_likelihood mu_jk previous_mu_jk s_ljk s_rjk z j k X =
     for_loop (enumerate 0 X) (\<lambda>compared_log_likelihood (i, x_i).
       bindE (idx3 z i j k) (\<lambda>z_ijk.
       bindE (idx x_i k) (\<lambda>x_ik.
         Inr (compared_log_likelihood
              + z_ijk * (ln (AGD_pdf x_ik mu_jk s_ljk s_rjk)
                         - ln (AGD_pdf x_ik previous_mu_jk s_ljk s_rjk)))))) 0"

definition compare_mu_jk ::
  "real \<Rightarrow> real \<Rightarrow> real \<Rightarrow> real \<Rightarrow> real list \<Rightarrow> real list \<Rightarrow> real list list list \<Rightarrow> nat \<Rightarrow> nat
     \<Rightarrow> real list list \<Rightarrow> rvs \<times> rvs \<Rightarrow> error + real" where
  "compare_mu_jk mu_jk previous_mu_jk s_ljk s_rjk r lam z j k X g =
     bindE (compare_mu_jk_log_likelihood mu_jk previous_mu_jk s_ljk s_rjk z j k X)
       (\<lambda>compared_log_likelihood.
     let likelihood_ratio = exp compared_log_likelihood in
     bindE (idx lam k) (\<lambda>lam_k.
     bindE (idx r k) (\<lambda>r_k.
     bindE (draw_normal lam_k (1 / r_k) (fst g)) (\<lambda>d1.
     bindE (draw_normal lam_k (1 / r_k) (snd g)) (\<lambda>d2.
     let prior = d1 / d2 in
     Inr (likelihood_ratio * prior))))))"

definition MH_mu_jk_alpha ::
  "real \<Rightarrow> real \<Rightarrow> real list \<Rightarrow> real list \<Rightarrow> real list list list \<Rightarrow> nat \<Rightarrow> nat \<Rightarrow> real list list
     \<Rightarrow> mh_draws \<Rightarrow> real \<Rightarrow> error + real \<times> float64" where
  "MH_mu_jk_alpha s_ljk s_rjk r lam z j k X d x =
     bindE (norm_rvs x 0.75 (g_candidate d)) (\<lambda>candidate.
     bindE (compare_mu_jk candidate x s_ljk s_rjk r lam z j k X (g_prior d)) (\<lambda>ratio.
     bindE (python_min [Finite 1, Finite ratio]) (\<lambda>alpha.
     Inr (candidate, alpha))))"

definition MH_mu_jk_iteration ::
  "real \<Rightarrow> real \<Rightarrow> real list \<Rightarrow> real list \<Rightarrow> real list list list \<Rightarrow> nat \<Rightarrow> nat \<Rightarrow> real list list
     \<Rightarrow> (nat \<Rightarrow> mh_draws) \<Rightarrow> real \<times> real list \<Rightarrow> nat \<Rightarrow> error + real \<times> real list" where
  "MH_mu_jk_iteration s_ljk s_rjk r lam z j k X draws = (\<lambda>(x, vec) i.
     bindE (MH_mu_jk_alpha s_ljk s_rjk r lam z j k X (draws i) x) (\<lambda>(candidate, alpha).
     let u = np_random_uniform 0 1 (u01 (draws i))
     in if f64_less (Finite u) alpha then Inr (candidate, vec @ [candidate]) else Inr (x, vec)))"

text \<open>The list \<^verbatim>\<open>vec\<close> at the end of the loop, and the sampler, which returns \<^verbatim>\<open>vec[-1]\<close>.\<close>

definition vec_last :: "real list \<Rightarrow> error + real" where
  "vec_last vec = (if vec = [] then Inl IndexError else Inr (last vec))"

definition MH_Sampling_posterior_mu_jk_vec ::
  "real \<Rightarrow> real \<Rightarrow> real \<Rightarrow> real list \<Rightarrow> real list \<Rightarrow> real list list list \<Rightarrow> nat \<Rightarrow> nat
     \<Rightarrow> real list list \<Rightarrow> (nat \<Rightarrow> mh_draws) \<Rightarrow> error + real list" where
  "MH_Sampling_posterior_mu_jk_vec mu_jk s_ljk s_rjk r lam z j k X draws =
     (let n = 750; x = mu_jk; vec = [] @ [x] in
      bindE (for_loop [0..<n] (MH_mu_jk_iteration s_ljk s_rjk r lam z j k X draws) (x, vec))
        (\<lambda>(x, vec). Inr vec))"

definition MH_Sampling_posterior_mu_jk ::
  "real \<Rightarrow> real \<Rightarrow> real \<Rightarrow> real list \<Rightarrow> real list \<Rightarrow> real list list list \<Rightarrow> nat \<Rightarrow> nat
     \<Rightarrow> real list list \<Rightarrow> (nat \<Rightarrow> mh_draws) \<Rightarrow> error + real" where
  "MH_Sampling_posterior_mu_jk mu_jk s_ljk s_rjk r lam z j k X draws =
     bindE (MH_Sampling_posterior_mu_jk_vec mu_jk s_ljk s_rjk r lam z j k X draws) vec_last"

subsection \<open>\<^verbatim>\<open>s_ljk\<close>\<close>

definition compare_s_ljk_log_likelihood ::
  "real \<Rightarrow> real \<Rightarrow> real \<Rightarrow> real \<Rightarrow> real list list list \<Rightarrow> nat \<Rightarrow> nat \<Rightarrow> real list list
     \<Rightarrow> error + real" where
  "compare_s_ljk_log_likelihood s_ljk previous_s_ljk mu_jk s_rjk z j k X =
     for_loop (enumerate 0 X) (\<lambda>compared_log_likelihood (i, x_i).
       bindE (idx3 z i j k) (\<lambda>z_ijk.
       bindE (idx x_i k) (\<lambda>x_ik.
         Inr (compared_log_likelihood
              + z_ijk * (ln (AGD_pdf x_ik mu_jk s_ljk s_rjk)
                         - ln (AGD_pdf x_ik mu_jk previous_s_ljk s_rjk)))))) 0"

definition compare_s_ljk ::
  "real \<Rightarrow> real \<Rightarrow> real \<Rightarrow> real \<Rightarrow> real list \<Rightarrow> real list \<Rightarrow> real list list list \<Rightarrow> nat \<Rightarrow> nat
     \<Rightarrow> real list list \<Rightarrow> rvs \<times> rvs \<Rightarrow> error + real" where
  "compare_s_ljk s_ljk previous_s_ljk mu_jk s_rjk beta w z j k X g =
     bindE (compare_s_ljk_log_likelihood s_ljk previous_s_ljk mu_jk s_rjk z j k X)
       (\<lambda>compared_log_likelihood.
     let likelihood_ratio = exp compared_log_likelihood in
     bindE (idx beta k) (\<lambda>beta_k.
     bindE (idx w k) (\<lambda>w_k.
     bindE (draw_gamma (beta_k / 2) (2 / (beta_k * w_k)) (fst g)) (\<lambda>d1.
     bindE (draw_gamma (beta_k / 2) (2 / (beta_k * w_k)) (snd g)) (\<lambda>d2.
     let prior = d1 / d2 in
     Inr (likelihood_ratio * prior))))))"

definition MH_sljk_alpha ::
  "real \<Rightarrow> real \<Rightarrow> real list \<Rightarrow> real list \<Rightarrow> real list list list \<Rightarrow> nat \<Rightarrow> nat \<Rightarrow> real list list
     \<Rightarrow> mh_draws \<Rightarrow> real \<Rightarrow> error + real \<times> float64" where
  "MH_sljk_alpha mu_jk s_rjk beta w z j k X d x =
     bindE (norm_rvs x 0.75 (g_candidate d)) (\<lambda>candidate.
     let candidate = (if candidate \<le> 0 then \<bar>candidate\<bar> else candidate) in
     bindE (compare_s_ljk candidate x mu_jk s_rjk beta w z j k X (g_prior d)) (\<lambda>ratio.
     bindE (python_min [Finite 1, Finite ratio]) (\<lambda>alpha.
     Inr (candidate, alpha))))"

definition MH_sljk_iteration ::
  "real \<Rightarrow> real \<Rightarrow> real list \<Rightarrow> real list \<Rightarrow> real list list list \<Rightarrow> nat \<Rightarrow> nat \<Rightarrow> real list list
     \<Rightarrow> (nat \<Rightarrow> mh_draws) \<Rightarrow> real \<times> real list \<Rightarrow> nat \<Rightarrow> error + real \<times> real list" where
  "MH_sljk_iteration mu_jk s_rjk beta w z j k X draws = (\<lambda>(x, vec) i.
     bindE (MH_sljk_alpha mu_jk s_rjk beta w z j k X (draws i) x) (\<lambda>(candidate, alpha).
     let u = np_random_uniform 0 1 (u01 (draws i))
     in if f64_less (Finite u) alpha then Inr (candidate, vec @ [candidate]) else Inr (x, vec)))"

definition MH_Sampling_posterior_sljk_vec ::
  "real \<Rightarrow> real \<Rightarrow> real \<Rightarrow> real list \<Rightarrow> real list \<Rightarrow> real list list list \<Rightarrow> nat \<Rightarrow> nat
     \<Rightarrow> real list list \<Rightarrow> (nat \<Rightarrow> mh_draws) \<Rightarrow> error + real list" where
  "MH_Sampling_posterior_sljk_vec mu_jk s_ljk s_rjk beta w z j k X draws =
     (let n = 750; x = s_ljk; vec = [] @ [x] in
      bindE (for_loop [0..<n] (MH_sljk_iteration mu_jk s_rjk beta w z j k X draws) (x, vec))
        (\<lambda>(x, vec). Inr vec))"

definition MH_Sampling_posterior_sljk ::
  "real \<Rightarrow> real \<Rightarrow> real \<Rightarrow> real list \<Rightarrow> real list \<Rightarrow> real list list list \<Rightarrow> nat \<Rightarrow> nat
     \<Rightarrow> real list list \<Rightarrow> (nat \<Rightarrow> mh_draws) \<Rightarrow> error + real" where
  "MH_Sampling_posterior_sljk mu_jk s_ljk s_rjk beta w z j k X draws =
     bindE (MH_Sampling_posterior_sljk_vec mu_jk s_ljk s_rjk beta w z j k X draws) vec_last"

subsection \<open>\<^verbatim>\<open>s_rjk\<close>\<close>

definition compare_s_rjk_log_likelihood ::
  "real \<Rightarrow> real \<Rightarrow> real \<Rightarrow> real \<Rightarrow> real list list list \<Rightarrow> nat \<Rightarrow> nat \<Rightarrow> real list list
     \<Rightarrow> error + real" where
  "compare_s_rjk_log_likelihood s_rjk previous_s_rjk mu_jk s_ljk z j k X =
     for_loop (enumerate 0 X) (\<lambda>compared_log_likelihood (i, x_i).
       bindE (idx3 z i j k) (\<lambda>z_ijk.
       bindE (idx x_i k) (\<lambda>x_ik.
         Inr (compared_log_likelihood
              + z_ijk * (ln (AGD_pdf x_ik mu_jk s_ljk s_rjk)
                         - ln (AGD_pdf x_ik mu_jk s_ljk previous_s_rjk)))))) 0"

definition compare_s_rjk ::
  "real \<Rightarrow> real \<Rightarrow> real \<Rightarrow> real \<Rightarrow> real list \<Rightarrow> real list \<Rightarrow> real list list list \<Rightarrow> nat \<Rightarrow> nat
     \<Rightarrow> real list list \<Rightarrow> rvs \<times> rvs \<Rightarrow> error + real" where
  "compare_s_rjk s_rjk previous_s_rjk mu_jk s_ljk beta w z j k X g =
     bindE (compare_s_rjk_log_likelihood s_rjk previous_s_rjk mu_jk s_ljk z j k X)
       (\<lambda>compared_log_likelihood.
     let likelihood_ratio = exp compared_log_likelihood in
     bindE (idx beta k) (\<lambda>beta_k.
     bindE (idx w k) (\<lambda>w_k.
     bindE (draw_gamma (beta_k / 2) (2 / (beta_k * w_k)) (fst g)) (\<lambda>d1.
     bindE (draw_gamma (beta_k / 2) (2 / (beta_k * w_k)) (snd g)) (\<lambda>d2.
     let prior = d1 / d2 in
     Inr (likelihood_ratio * prior))))))"

definition MH_srjk_alpha ::
  "real \<Rightarrow> real \<Rightarrow> real list \<Rightarrow> real list \<Rightarrow> real list list list \<Rightarrow> nat \<Rightarrow> nat \<Rightarrow> real list list
     \<Rightarrow> mh_draws \<Rightarrow> real \<Rightarrow> error + (real \<times> float64) option" where
  "MH_srjk_alpha mu_jk s_ljk beta w z j k X d x =
     bindE (norm_rvs x 0.75 (g_candidate d)) (\<lambda>candidate.
     if candidate \<le> 0 then Inr None
     else
     bindE (compare_s_rjk candidate x mu_jk s_ljk beta w z j k X (g_prior d)) (\<lambda>ratio.
     bindE (python_min [Finite 1, Finite ratio]) (\<lambda>alpha.
     Inr (Some (candidate, alpha)))))"

definition MH_srjk_iteration ::
  "real \<Rightarrow> real \<Rightarrow> real list \<Rightarrow> real list \<Rightarrow> real list list list \<Rightarrow> nat \<Rightarrow> nat \<Rightarrow> real list list
     \<Rightarrow> (nat \<Rightarrow> mh_draws) \<Rightarrow> real \<times> real list \<Rightarrow> nat \<Rightarrow> error + real \<times> real list" where
  "MH_srjk_iteration mu_jk s_ljk beta w z j k X draws = (\<lambda>(x, vec) i.
     bindE (MH_srjk_alpha mu_jk s_ljk beta w z j k X (draws i) x) (\<lambda>proposal.
     case proposal of
       None \<Rightarrow> Inr (x, vec)
     | Some (candidate, alpha) \<Rightarrow>
         let u = np_random_uniform 0 1 (u01 (draws i))
         in if f64_less (Finite u) alpha then Inr (candidate, vec @ [candidate])
            else Inr (x, vec)))"

definition MH_Sampling_posterior_srjk_vec ::
  "real \<Rightarrow> real \<Rightarrow> real \<Rightarrow> real list \<Rightarrow> real list \<Rightarrow> real list list list \<Rightarrow> nat \<Rightarrow> nat
     \<Rightarrow> real list list \<Rightarrow> (nat \<Rightarrow> mh_draws) \<Rightarrow> error + real list" where
  "MH_Sampling_posterior_srjk_vec mu_jk s_ljk s_rjk beta w z j k X draws =
     (let n = 750; x = s_rjk; vec = [] @ [x] in
      bindE (for_loop [0..<n] (MH_srjk_iteration mu_jk s_ljk beta w z j k X draws) (x, vec))
        (\<lambda>(x, vec). Inr vec))"

definition MH_Sampling_posterior_srjk ::
  "real \<Rightarrow> real \<Rightarrow> real \<Rightarrow> real list \<Rightarrow> real list \<Rightarrow> real list list list \<Rightarrow> nat \<Rightarrow> nat
     \<Rightarrow> real list list \<Rightarrow> (nat \<Rightarrow> mh_draws) \<Rightarrow> error + real" where
  "MH_Sampling_posterior_srjk mu_jk s_ljk s_rjk beta w z j k X draws =
     bindE (MH_Sampling_posterior_srjk_vec mu_jk s_ljk s_rjk beta w z j k X draws) vec_last"

subsection \<open>\<^verbatim>\<open>delta_a\<close> and \<^verbatim>\<open>delta_b\<close>\<close>

text \<open>
  \<^verbatim>\<open>scipy.special.gammaln\<close>, the logarithm of the absolute value of the Gamma function,
  is a parameter \<open>gammaln\<close> of the model.
\<close>

definition compare_delta_a_log_likelihood ::
  "(real \<Rightarrow> real) \<Rightarrow> real \<Rightarrow> real \<Rightarrow> real \<Rightarrow> real list list \<Rightarrow> nat \<Rightarrow> nat \<Rightarrow> error + real" where
  "compare_delta_a_log_likelihood gammaln delta_a previous_delta_a delta_b rho k M =
     (let compared_log_likelihood =
            real M * (gammaln (delta_a + delta_b) - gammaln delta_a
                      - gammaln (previous_delta_a + delta_b) + gammaln previous_delta_a)
      in for_loop [0..<M] (\<lambda>compared_log_likelihood j.
           bindE (idx2 rho j k) (\<lambda>rho_jk.
             Inr (compared_log_likelihood + (delta_a - previous_delta_a) * ln rho_jk)))
           compared_log_likelihood)"

definition compare_delta_a ::
  "(real \<Rightarrow> real) \<Rightarrow> real \<Rightarrow> real \<Rightarrow> real \<Rightarrow> real list list \<Rightarrow> nat \<Rightarrow> nat \<Rightarrow> rvs \<times> rvs
     \<Rightarrow> error + real" where
  "compare_delta_a gammaln delta_a previous_delta_a delta_b rho k M g =
     bindE (compare_delta_a_log_likelihood gammaln delta_a previous_delta_a delta_b rho k M)
       (\<lambda>compared_log_likelihood.
     let likelihood_ratio = exp compared_log_likelihood in
     bindE (draw_gamma 2 0.5 (fst g)) (\<lambda>d1.
     bindE (draw_gamma 2 0.5 (snd g)) (\<lambda>d2.
     let prior = d1 / d2 in
     Inr (likelihood_ratio * prior))))"

definition MH_delta_a_alpha ::
  "(real \<Rightarrow> real) \<Rightarrow> real \<Rightarrow> real list list \<Rightarrow> nat \<Rightarrow> nat
     \<Rightarrow> mh_draws \<Rightarrow> real \<Rightarrow> error + (real \<times> float64) option" where
  "MH_delta_a_alpha gammaln delta_b rho k M d x =
     bindE (norm_rvs x 0.75 (g_candidate d)) (\<lambda>candidate.
     if candidate \<le> 0 then Inr None
     else
     bindE (compare_delta_a gammaln candidate x delta_b rho k M (g_prior d)) (\<lambda>ratio.
     bindE (python_min [Finite 1, Finite ratio]) (\<lambda>alpha.
     Inr (Some (candidate, alpha)))))"

definition MH_delta_a_iteration ::
  "(real \<Rightarrow> real) \<Rightarrow> real \<Rightarrow> real list list \<Rightarrow> nat \<Rightarrow> nat
     \<Rightarrow> (nat \<Rightarrow> mh_draws) \<Rightarrow> real \<times> real list \<Rightarrow> nat \<Rightarrow> error + real \<times> real list" where
  "MH_delta_a_iteration gammaln delta_b rho k M draws = (\<lambda>(x, vec) i.
     bindE (MH_delta_a_alpha gammaln delta_b rho k M (draws i) x) (\<lambda>proposal.
     case proposal of
       None \<Rightarrow> Inr (x, vec)
     | Some (candidate, alpha) \<Rightarrow>
         let u = np_random_uniform 0 1 (u01 (draws i))
         in if f64_less (Finite u) alpha then Inr (candidate, vec @ [candidate])
            else Inr (x, vec)))"

definition MH_Sampling_posterior_delta_a_vec ::
  "(real \<Rightarrow> real) \<Rightarrow> real \<Rightarrow> real \<Rightarrow> real list list \<Rightarrow> nat \<Rightarrow> nat \<Rightarrow> (nat \<Rightarrow> mh_draws)
     \<Rightarrow> error + real list" where
  "MH_Sampling_posterior_delta_a_vec gammaln delta_a delta_b rho k M draws =
     (let n = 750; x = delta_a; vec = [] @ [x] in
      bindE (for_loop [0..<n] (MH_delta_a_iteration gammaln delta_b rho k M draws) (x, vec))
        (\<lambda>(x, vec). Inr vec))"

definition MH_Sampling_posterior_delta_a ::
  "(real \<Rightarrow> real) \<Rightarrow> real \<Rightarrow> real \<Rightarrow> real list list \<Rightarrow> nat \<Rightarrow> nat \<Rightarrow> (nat \<Rightarrow> mh_draws)
     \<Rightarrow> error + real" where
  "MH_Sampling_posterior_delta_a gammaln delta_a delta_b rho k M draws =
     bindE (MH_Sampling_posterior_delta_a_vec gammaln delta_a delta_b rho k M draws) vec_last"

definition compare_delta_b_log_likelihood ::
  "(real \<Rightarrow> real) \<Rightarrow> real \<Rightarrow> real \<Rightarrow> real \<Rightarrow> real list list \<Rightarrow> nat \<Rightarrow> nat \<Rightarrow> error + real" where
  "compare_delta_b_log_likelihood gammaln delta_b previous_delta_b delta_a rho k M =
     (let compared_log_likelihood =
            real M * (gammaln (delta_a + delta_b) - gammaln delta_b
                      - gammaln (delta_a + previous_delta_b) + gammaln previous_delta_b)
      in for_loop [0..<M] (\<lambda>compared_log_likelihood j.
           bindE (idx2 rho j k) (\<lambda>rho_jk.
             Inr (compared_log_likelihood + (delta_b - previous_delta_b) * ln (1 - rho_jk))))
           compared_log_likelihood)"

definition compare_delta_b ::
  "(real \<Rightarrow> real) \<Rightarrow> real \<Rightarrow> real \<Rightarrow> real \<Rightarrow> real list list \<Rightarrow> nat \<Rightarrow> nat \<Rightarrow> rvs \<times> rvs
     \<Rightarrow> error + real" where
  "compare_delta_b gammaln delta_b previous_delta_b delta_a rho k M g =
     bindE (compare_delta_b_log_likelihood gammaln delta_b previous_delta_b delta_a rho k M)
       (\<lambda>compared_log_likelihood.
     let likelihood_ratio = exp compared_log_likelihood in
     bindE (draw_gamma 2 0.5 (fst g)) (\<lambda>d1.
     bindE (draw_gamma 2 0.5 (snd g)) (\<lambda>d2.
     let prior = d1 / d2 in
     Inr (likelihood_ratio * prior))))"

definition MH_delta_b_alpha ::
  "(real \<Rightarrow> real) \<Rightarrow> real \<Rightarrow> real list list \<Rightarrow> nat \<Rightarrow> nat
     \<Rightarrow> mh_draws \<Rightarrow> real \<Rightarrow> error + (real \<times> float64) option" where
  "MH_delta_b_alpha gammaln delta_a rho k M d x =
     bindE (norm_rvs x 0.75 (g_candidate d)) (\<lambda>candidate.
     if candidate \<le> 0 then Inr None
     else
     bindE (compare_delta_b gammaln candidate x delta_a rho k M (g_prior d)) (\<lambda>ratio.
     bindE (python_min [Finite 1, Finite ratio]) (\<lambda>alpha.
     Inr (Some (candidate, alpha)))))"

definition MH_delta_b_iteration ::
  "(real \<Rightarrow> real) \<Rightarrow> real \<Rightarrow> real list list \<Rightarrow> nat \<Rightarrow> nat
     \<Rightarrow> (nat \<Rightarrow> mh_draws) \<Rightarrow> real \<times> real list \<Rightarrow> nat \<Rightarrow> error + real \<times> real list" where
  "MH_delta_b_iteration gammaln delta_a rho k M draws = (\<lambda>(x, vec) i.
     bindE (MH_delta_b_alpha gammaln delta_a rho k M (draws i) x) (\<lambda>proposal.
     case proposal of
       None \<Rightarrow> Inr (x, vec)
     | Some (candidate, alpha) \<Rightarrow>
         let u = np_random_uniform 0 1 (u01 (draws i))
         in if f64_less (Finite u) alpha then Inr (candidate, vec @ [candidate])
            else Inr (x, vec)))"

definition MH_Sampling_posterior_delta_b_vec ::
  "(real \<Rightarrow> real) \<Rightarrow> real \<Rightarrow> real \<Rightarrow> real list list \<Rightarrow> nat \<Rightarrow> nat \<Rightarrow> (nat \<Rightarrow> mh_draws)
     \<Rightarrow> error + real list" where
  "MH_Sampling_posterior_delta_b_vec gammaln delta_a delta_b rho k M draws =
     (let n = 750; x = delta_b; vec = [] @ [x] in
      bindE (for_loop [0..<n] (MH_delta_b_iteration gammaln delta_a rho k M draws) (x, vec))
        (\<lambda>(x, vec). Inr vec))"

definition MH_Sampling_posterior_delta_b ::
  "(real \<Rightarrow> real) \<Rightarrow> real \<Rightarrow> real \<Rightarrow> real list list \<Rightarrow> nat \<Rightarrow> nat \<Rightarrow> (nat \<Rightarrow> mh_draws)
     \<Rightarrow> error + real" where
  "MH_Sampling_posterior_delta_b gammaln delta_a delta_b rho k M draws =
     bindE (MH_Sampling_posterior_delta_b_vec gammaln delta_a delta_b rho k M draws) vec_last"

section \<open>The Monte Carlo integral approximation\<close>

text \<open>
  \<^verbatim>\<open>Asymmetric_Gassian_Distribution_pdf\<close>: the two-branch mixture density at every entry of
  a column of observations. The array \<^verbatim>\<open>y_k\<close> starts at zero and entry \<open>i\<close> is increased
  twice, once by the relevant and once by the irrelevant branch.
\<close>

definition Asymmetric_Gassian_Distribution_pdf ::
  "real list \<Rightarrow> real \<Rightarrow> real \<Rightarrow> real \<Rightarrow> real \<Rightarrow> real \<Rightarrow> real \<Rightarrow> real \<Rightarrow> real list" where
  "Asymmetric_Gassian_Distribution_pdf x_k mu_jk s_ljk s_rjk mu_jk_irr s_ljk_irr s_rjk_irr rho =
     fold (\<lambda>(i, xik) y_k.
       let y_k =
             (if xik < mu_jk
              then y_k[i := y_k ! i + rho * sqrt (2 / pi) / (s_ljk powr (- 0.5) + s_rjk powr (- 0.5))
                                        * exp (- 0.5 * s_ljk * (xik - mu_jk) ^ 2)]
              else y_k[i := y_k ! i + rho * sqrt (2 / pi) / (s_ljk powr (- 0.5) + s_rjk powr (- 0.5))
                                        * exp (- 0.5 * s_rjk * (xik - mu_jk) ^ 2)])
       in (if xik < mu_jk_irr
           then y_k[i := y_k ! i + (1 - rho) * sqrt (2 / pi)
                                     / (s_ljk_irr powr (- 0.5) + s_rjk_irr powr (- 0.5))
                                     * exp (- 0.5 * s_ljk_irr * (xik - mu_jk_irr) ^ 2)]
           else y_k[i := y_k ! i + (1 - rho) * sqrt (2 / pi)
                                     / (s_ljk_irr powr (- 0.5) + s_rjk_irr powr (- 0.5))
                                     * exp (- 0.5 * s_rjk_irr * (xik - mu_jk_irr) ^ 2)]))
       (enumerate 0 x_k) (replicate (length x_k) 0)"

text \<open>
  A two-dimensional NumPy array whose \<^verbatim>\<open>shape\<close> the code reads: the shape and the rows.
  It is well formed when the rows agree with the shape.
\<close>

record array2d =
  shape :: "nat \<times> nat"
  rows :: "real list list"

definition wf_array2d :: "array2d \<Rightarrow> bool" where
  "wf_array2d a \<longleftrightarrow>
     length (rows a) = fst (shape a) \<and> list_all (\<lambda>row. length row = snd (shape a)) (rows a)"

text \<open>The slice \<^verbatim>\<open>a[:, k]\<close>, read for \<open>k\<close> below the number of columns.\<close>

definition column :: "array2d \<Rightarrow> nat \<Rightarrow> real list" where
  "column a k = map (\<lambda>row. row ! k) (rows a)"

text \<open>
  \<^verbatim>\<open>draw_MVNormal\<close> returns \<^verbatim>\<open>multivariate_normal.rvs(mean, cov, size=1)\<close>, here with a
  vector \<^verbatim>\<open>mean\<close> and a vector \<^verbatim>\<open>cov\<close>, which SciPy reads as the diagonal of the covariance
  matrix. SciPy raises \<^verbatim>\<open>ValueError\<close> when \<^verbatim>\<open>mean\<close> is empty, when the two lengths differ,
  and when an entry of \<^verbatim>\<open>cov\<close> is negative, infinite or a NaN. The generator draws an array
  of shape \<open>(1, n)\<close>, with \<open>n\<close> the length of \<^verbatim>\<open>mean\<close>, and SciPy then removes every axis of
  length one from it: the result is a vector of \<open>n\<close> entries when \<open>n \<noteq> 1\<close> and a scalar when
  \<open>n = 1\<close>. Indexing a NumPy scalar raises \<^verbatim>\<open>IndexError\<close>. The generator call is a
  parameter \<open>g\<close> of the model: \<open>g mean cov k\<close> is coordinate \<open>k\<close> of the row it draws for these
  parameters.
\<close>

datatype squeezed = Scalar real | Vector "real list"

definition squeeze_output :: "real list \<Rightarrow> squeezed" where
  "squeeze_output row = (if length row = 1 then Scalar (row ! 0) else Vector row)"

fun variance_ok :: "float64 \<Rightarrow> bool" where
  "variance_ok (Finite v) = (0 \<le> v)"
| "variance_ok _ = False"

definition draw_MVNormal ::
  "real list \<Rightarrow> float64 list \<Rightarrow> (real list \<Rightarrow> float64 list \<Rightarrow> nat \<Rightarrow> real) \<Rightarrow> error + squeezed" where
  "draw_MVNormal mean cov g =
     (if mean = [] \<or> length cov \<noteq> length mean \<or> \<not> list_all variance_ok cov
      then Inl ValueError
      else Inr (squeeze_output (map (g mean cov) [0..<length mean])))"

definition idx_squeezed :: "squeezed \<Rightarrow> nat \<Rightarrow> error + real" where
  "idx_squeezed a k = (case a of Scalar v \<Rightarrow> Inl IndexError | Vector xs \<Rightarrow> idx xs k)"

text \<open>
  \<^verbatim>\<open>draw_Beta_dist\<close> returns what SciPy's \<^verbatim>\<open>beta.rvs\<close> returns for the two arrays of shape
  parameters, a vector of Beta draws; the generator call is a parameter \<open>g\<close> of the model.
\<close>

definition draw_Beta_dist ::
  "real list \<Rightarrow> real list \<Rightarrow> (real list \<Rightarrow> real list \<Rightarrow> real list) \<Rightarrow> real list" where
  "draw_Beta_dist delta_a delta_b g = g delta_a delta_b"

text \<open>
  The draws of one iteration of the sampling loop of \<^verbatim>\<open>integral_approx\<close>, in the order
  of the seven assignments: the generator calls of the two multivariate normal draws, for
  each of the four lists of Gamma draws the generator call of feature \<open>k\<close>, and the
  generator call of the Beta vector.
\<close>

record prior_draws =
  mv_mu :: "real list \<Rightarrow> float64 list \<Rightarrow> nat \<Rightarrow> real"
  g_s_l :: "nat \<Rightarrow> rvs"
  g_s_r :: "nat \<Rightarrow> rvs"
  mv_mu_irr :: "real list \<Rightarrow> float64 list \<Rightarrow> nat \<Rightarrow> real"
  g_s_l_irr :: "nat \<Rightarrow> rvs"
  g_s_r_irr :: "nat \<Rightarrow> rvs"
  beta_rho :: "real list \<Rightarrow> real list \<Rightarrow> real list"

text \<open>
  The list comprehension
  \<^verbatim>\<open>[np.squeeze(draw_gamma(beta[k] / 2, 2 / (beta[k] * w[k]))) for k in range(D)]\<close>.
\<close>

definition draw_gamma_list :: "real list \<Rightarrow> real list \<Rightarrow> nat \<Rightarrow> (nat \<Rightarrow> rvs) \<Rightarrow> error + real list" where
  "draw_gamma_list beta w D g =
     for_loop [0..<D] (\<lambda>acc k.
       bindE (idx beta k) (\<lambda>beta_k.
       bindE (idx w k) (\<lambda>w_k.
       bindE (draw_gamma (beta_k / 2) (2 / (beta_k * w_k)) (g k)) (\<lambda>v.
         Inr (acc @ [v]))))) []"

text \<open>
  One iteration of the sampling loop. The covariance argument \<^verbatim>\<open>1/r\<close> is a division of
  NumPy, entry by entry.
\<close>

definition integral_approx_iteration ::
  "array2d \<Rightarrow> real list \<Rightarrow> real list \<Rightarrow> real list \<Rightarrow> real list \<Rightarrow> real list \<Rightarrow> real list
     \<Rightarrow> real list \<Rightarrow> real list \<Rightarrow> nat \<Rightarrow> prior_draws \<Rightarrow> real list \<Rightarrow> error + real list" where
  "integral_approx_iteration X lam r beta_l beta_r w_l w_r delta_a delta_b D d temp =
     (bindE (draw_MVNormal lam (map (\<lambda>r_k. np_true_divide 1 r_k) r) (mv_mu d)) (\<lambda>mu.
      bindE (draw_gamma_list beta_l w_l D (g_s_l d)) (\<lambda>s_l.
      bindE (draw_gamma_list beta_r w_r D (g_s_r d)) (\<lambda>s_r.
      bindE (draw_MVNormal lam (map (\<lambda>r_k. np_true_divide 1 r_k) r) (mv_mu_irr d)) (\<lambda>mu_irr.
      bindE (draw_gamma_list beta_l w_l D (g_s_l_irr d)) (\<lambda>s_l_irr.
      bindE (draw_gamma_list beta_r w_r D (g_s_r_irr d)) (\<lambda>s_r_irr.
      let rho = draw_Beta_dist delta_a delta_b (beta_rho d);
          ini = replicate (length (rows X)) 1
      in
      bindE (for_loop [0..<D] (\<lambda>ini k.
               bindE (idx_squeezed mu k) (\<lambda>mu_k.
               bindE (idx s_l k) (\<lambda>s_l_k.
               bindE (idx s_r k) (\<lambda>s_r_k.
               bindE (idx_squeezed mu_irr k) (\<lambda>mu_irr_k.
               bindE (idx s_l_irr k) (\<lambda>s_l_irr_k.
               bindE (idx s_r_irr k) (\<lambda>s_r_irr_k.
               bindE (idx rho k) (\<lambda>rho_k.
               let temp_para =
                     Asymmetric_Gassian_Distribution_pdf (column X k) mu_k s_l_k s_r_k
                       mu_irr_k s_l_irr_k s_r_irr_k rho_k
               in Inr (map2 (*) ini temp_para))))))))) ini) (\<lambda>ini.
      Inr (map2 (+) temp ini)))))))))"

function integral_approx_while ::
  "array2d \<Rightarrow> real list \<Rightarrow> real list \<Rightarrow> real list \<Rightarrow> real list \<Rightarrow> real list \<Rightarrow> real list
     \<Rightarrow> real list \<Rightarrow> real list \<Rightarrow> int \<Rightarrow> (nat \<Rightarrow> prior_draws) \<Rightarrow> nat \<Rightarrow> int \<Rightarrow> real list
     \<Rightarrow> error + real list" where
  "integral_approx_while X lam r beta_l beta_r w_l w_r delta_a delta_b size' draws D i temp =
     (if i < size'
      then (case integral_approx_iteration X lam r beta_l beta_r w_l w_r delta_a delta_b D
                   (draws (nat i)) temp of
              Inl e \<Rightarrow> Inl e
            | Inr temp' \<Rightarrow>
                integral_approx_while X lam r beta_l beta_r w_l w_r delta_a delta_b size' draws D
                  (i + 1) temp')
      else Inr temp)"
  by pat_completeness auto
termination
  by (relation "measure (\<lambda>(X, lam, r, beta_l, beta_r, w_l, w_r, delta_a, delta_b, size', draws, D, i, temp).
        nat (size' - i))") auto

definition integral_approx ::
  "array2d \<Rightarrow> real list \<Rightarrow> real list \<Rightarrow> real list \<Rightarrow> real list \<Rightarrow> real list \<Rightarrow> real list
     \<Rightarrow> real list \<Rightarrow> real list \<Rightarrow> int \<Rightarrow> (nat \<Rightarrow> prior_draws) \<Rightarrow> error + float64 list" where
  "integral_approx X lam r beta_l beta_r w_l w_r delta_a delta_b size' draws =
     (let (N, D) = shape X;
          temp = replicate (length (rows X)) 0;
          i = 0
      in bindE (integral_approx_while X lam r beta_l beta_r w_l w_r delta_a delta_b size' draws D
                  i temp) (\<lambda>temp.
         Inr (map (\<lambda>t. np_true_divide t (real_of_int size')) temp)))"

section \<open>Latent indicator samplers\<close>

definition np_cumsum :: "real list \<Rightarrow> real list" where
  "np_cumsum xs = map (\<lambda>n. sum_list (take (Suc n) xs)) [0..<length xs]"

text \<open>\<^verbatim>\<open>c[-1]\<close>, which raises \<^verbatim>\<open>IndexError\<close> on an empty array.\<close>

definition last_item :: "real list \<Rightarrow> error + real" where
  "last_item c = (if c = [] then Inl IndexError else Inr (last c))"

text \<open>
  \<^verbatim>\<open>np.random.randint(low, high)\<close> returns an integer of \<open>[low, high)\<close> and raises
  \<^verbatim>\<open>ValueError\<close> when that range is empty. The integer is stored in an array of floats.
\<close>

definition np_random_randint :: "int \<Rightarrow> int \<Rightarrow> rvs \<Rightarrow> error + real" where
  "np_random_randint low high g =
     (if low < high then Inr (g (Randint_dist low high)) else Inl ValueError)"

text \<open>The two generator calls for one column: the uniform draw \<^verbatim>\<open>R\<close> and the fallback index.\<close>

record indicator_draws =
  u_R :: rvs
  raw_index :: rvs

definition draw_indicator :: "array2d \<Rightarrow> (nat \<Rightarrow> indicator_draws) \<Rightarrow> error + real list" where
  "draw_indicator pvec draws =
     (let res = replicate (snd (shape pvec)) 0 in
      for_loop [0..<snd (shape pvec)] (\<lambda>res j.
        let c = np_cumsum (column pvec j) in
        bindE (last_item c) (\<lambda>c_last.
        let R = np_random_uniform 0 c_last (u_R (draws j));
            r = map (\<lambda>v. v - R > 0) c;
            y = map fst (filter snd (enumerate 0 r))
        in (case y of
              i # _ \<Rightarrow> Inr (res[j := real i])
            | [] \<Rightarrow>
                bindE (np_random_randint 0 (int (fst (shape pvec))) (raw_index (draws j))) (\<lambda>m.
                Inr (res[j := m]))))) res)"

text \<open>
  \<^verbatim>\<open>draw_posterior_z\<close>. The first pair of loops assigns to \<^verbatim>\<open>Z_ij_posteriors[i]\<close>, the
  whole row \<open>i\<close> of the \<open>N \<times> M\<close> array, which NumPy fills with the scalar on the right.
\<close>

definition draw_posterior_z ::
  "real list list \<Rightarrow> real list \<Rightarrow> real list list \<Rightarrow> real list list \<Rightarrow> real list list
     \<Rightarrow> real list list \<Rightarrow> real list list \<Rightarrow> real list list \<Rightarrow> real list list
     \<Rightarrow> nat \<Rightarrow> nat \<Rightarrow> nat \<Rightarrow> error + real list list list" where
  "draw_posterior_z X pi' rho mu s_l s_r mu_irr s_l_irr s_r_irr N M D =
     (let Z_ij_posteriors = replicate N (replicate M 0);
          posterior_z = replicate N (replicate M (replicate D 0))
      in
      bindE (for_loop [0..<N] (\<lambda>Z_ij_posteriors i.
               for_loop [0..<M] (\<lambda>Z_ij_posteriors j.
                 bindE (idx pi' j) (\<lambda>pi_j.
                 bindE (idx X i) (\<lambda>X_i.
                 bindE (AGD_pdf_feature_selction X_i j D rho mu s_l s_r mu_irr s_l_irr s_r_irr)
                   (\<lambda>y.
                 Inr (Z_ij_posteriors[i := replicate M (pi_j * y)])))))
                 Z_ij_posteriors) Z_ij_posteriors) (\<lambda>Z_ij_posteriors.
      for_loop [0..<N] (\<lambda>posterior_z i.
        for_loop [0..<M] (\<lambda>posterior_z j.
          for_loop [0..<D] (\<lambda>posterior_z k.
            bindE (idx2 rho j k) (\<lambda>rho_jk.
            bindE (idx2 X i k) (\<lambda>X_ik.
            bindE (idx2 mu j k) (\<lambda>mu_jk.
            bindE (idx2 s_l j k) (\<lambda>s_ljk.
            bindE (idx2 s_r j k) (\<lambda>s_rjk.
            bindE (idx2 Z_ij_posteriors i j) (\<lambda>Z_ij.
            Inr (posterior_z[i := (posterior_z ! i)[j := (posterior_z ! i ! j)
                   [k := rho_jk * AGD_pdf X_ik mu_jk s_ljk s_rjk * Z_ij]]]))))))))
            posterior_z) posterior_z) posterior_z))"

section \<open>The Metropolis-Hastings protocol of the specification\<close>

text \<open>
  The specification describes the five samplers as one state machine with a policy for a
  candidate that is not positive: the mean is unconstrained, the left precision reflects such
  a candidate, the right precision and the two shape parameters skip the iteration.
\<close>

datatype policy = Unconstrained | ReflectNonPositive | SkipNonPositive

fun apply_policy :: "policy \<Rightarrow> real \<Rightarrow> real option" where
  "apply_policy Unconstrained candidate = Some candidate"
| "apply_policy ReflectNonPositive candidate =
     Some (if candidate \<le> 0 then \<bar>candidate\<bar> else candidate)"
| "apply_policy SkipNonPositive candidate = (if candidate \<le> 0 then None else Some candidate)"

text \<open>
  The decision of one iteration at the current value \<open>x\<close>: propose
  \<open>candidate ~ Normal (x, 0.75)\<close>, apply the policy, compute
  \<open>alpha = min 1 (likelihood_ratio * prior_ratio)\<close>, draw \<open>u ~ Uniform (0, 1)\<close>, and accept the
  candidate when \<open>u < alpha\<close>. \<open>Some candidate\<close> is an acceptance; \<open>None\<close> is a skipped
  iteration or a rejected proposal.
\<close>

definition MH_decision ::
  "policy \<Rightarrow> (real \<Rightarrow> real \<Rightarrow> rvs \<times> rvs \<Rightarrow> error + real) \<Rightarrow> mh_draws \<Rightarrow> real
     \<Rightarrow> error + real option" where
  "MH_decision pol compare d x =
     bindE (norm_rvs x 0.75 (g_candidate d)) (\<lambda>proposal.
     case apply_policy pol proposal of
       None \<Rightarrow> Inr None
     | Some candidate \<Rightarrow>
         bindE (compare candidate x (g_prior d)) (\<lambda>ratio.
         let alpha = min 1 ratio;
             u = np_random_uniform 0 1 (u01 d)
         in Inr (if u < alpha then Some candidate else None)))"

text \<open>On an acceptance the current value becomes the candidate, which is appended to the trace.\<close>

definition MH_step ::
  "policy \<Rightarrow> (real \<Rightarrow> real \<Rightarrow> rvs \<times> rvs \<Rightarrow> error + real) \<Rightarrow> mh_draws \<Rightarrow> real \<times> real list
     \<Rightarrow> error + real \<times> real list" where
  "MH_step pol compare d = (\<lambda>(x, vec).
     bindE (MH_decision pol compare d x) (\<lambda>decision.
     case decision of
       Some candidate \<Rightarrow> Inr (candidate, vec @ [candidate])
     | None \<Rightarrow> Inr (x, vec)))"

text \<open>The accepted candidates among a list of decisions, in order.\<close>

fun accepted :: "real option list \<Rightarrow> real list" where
  "accepted [] = []"
| "accepted (None # ds) = accepted ds"
| "accepted (Some c # ds) = c # accepted ds"

text \<open>
  \<open>ds\<close> is the list of the decisions of a run of \<open>n\<close> iterations from the starting value
  \<open>x0\<close>: iteration \<open>i\<close> decides at the last value accepted before it, which is \<open>x0\<close> when
  there is none.
\<close>

definition MH_decisions ::
  "policy \<Rightarrow> (real \<Rightarrow> real \<Rightarrow> rvs \<times> rvs \<Rightarrow> error + real) \<Rightarrow> real \<Rightarrow> (nat \<Rightarrow> mh_draws)
     \<Rightarrow> nat \<Rightarrow> real option list \<Rightarrow> bool" where
  "MH_decisions pol compare x0 draws n ds \<longleftrightarrow>
     length ds = n
     \<and> list_all (\<lambda>i. MH_decision pol compare (draws i) (last (x0 # accepted (take i ds)))
                       = Inr (ds ! i)) [0..<n]"

section \<open>The Monte Carlo sample of the specification\<close>

text \<open>
  The prior of a precision: the Gamma distribution of shape \<open>beta[k] / 2\<close> and scale
  \<open>2 / (beta[k] * w[k])\<close>.
\<close>

definition precision_prior :: "real list \<Rightarrow> real list \<Rightarrow> nat \<Rightarrow> distribution" where
  "precision_prior beta w k = Gamma_dist (beta ! k / 2) 0 (2 / (beta ! k * w ! k))"

text \<open>
  One Monte Carlo sample at an observation \<open>x\<close>: the product over the \<open>D\<close> features of the
  two-branch mixture density \<open>rho_k * AGD (x_k; relevant draw) + (1 - rho_k) * AGD (x_k;
  irrelevant draw)\<close>, at the parameters drawn in one iteration: the means from the
  multivariate normal of mean \<open>lam\<close> and variances \<open>1 / r\<close>, the precisions from their priors,
  the weights \<open>rho\<close> from the Beta draw.
\<close>

definition prior_sample_density ::
  "real list \<Rightarrow> real list \<Rightarrow> real list \<Rightarrow> real list \<Rightarrow> real list \<Rightarrow> real list \<Rightarrow> real list \<Rightarrow> real list
     \<Rightarrow> prior_draws \<Rightarrow> nat \<Rightarrow> real list \<Rightarrow> real" where
  "prior_sample_density lam r beta_l beta_r w_l w_r delta_a delta_b d D x =
     prod_list (map (\<lambda>k.
       beta_rho d delta_a delta_b ! k
         * AGD_pdf (x ! k) (mv_mu d lam (map (\<lambda>r_k. Finite (1 / r_k)) r) k)
             (g_s_l d k (precision_prior beta_l w_l k))
             (g_s_r d k (precision_prior beta_r w_r k))
       + (1 - beta_rho d delta_a delta_b ! k)
         * AGD_pdf (x ! k) (mv_mu_irr d lam (map (\<lambda>r_k. Finite (1 / r_k)) r) k)
             (g_s_l_irr d k (precision_prior beta_l w_l k))
             (g_s_r_irr d k (precision_prior beta_r w_r k))) [0..<D])"

section \<open>The indicator draw of the specification\<close>

text \<open>
  The entry of \<open>draw_indicator\<close> for column \<open>j\<close> in the words of the specification: with
  \<open>c\<close> the cumulative sum of the column and \<open>R\<close> a draw from \<open>Uniform (0, c[last])\<close>, the first
  row index at which \<open>c - R > 0\<close>; when there is none, a draw from the uniform distribution
  on \<open>{0, ..., M - 1}\<close>, with \<open>M\<close> the number of rows.
\<close>

definition indicator_entry :: "array2d \<Rightarrow> indicator_draws \<Rightarrow> nat \<Rightarrow> real" where
  "indicator_entry pvec d j =
     (let c = np_cumsum (column pvec j);
          R = u_R d (Uniform_dist 0 (last c))
      in case List.find (\<lambda>i. c ! i - R > 0) [0..<length c] of
           Some i \<Rightarrow> real i
         | None \<Rightarrow> raw_index d (Randint_dist 0 (int (fst (shape pvec)))))"

text \<open>
  Two notions for stating what \<^verbatim>\<open>draw_posterior_z\<close> computes: a two-dimensional array
  that has the entries \<open>[j, k]\<close> for \<open>j < M\<close> and \<open>k < D\<close>, and the product over the features
  that \<^verbatim>\<open>AGD_pdf_feature_selction\<close> accumulates.
\<close>

definition in_range2 :: "'a list list \<Rightarrow> nat \<Rightarrow> nat \<Rightarrow> bool" where
  "in_range2 a M D \<longleftrightarrow> M \<le> length a \<and> (\<forall>j<M. D \<le> length (a ! j))"

definition mixture_product ::
  "real list \<Rightarrow> nat \<Rightarrow> nat \<Rightarrow> real list list \<Rightarrow> real list list \<Rightarrow> real list list \<Rightarrow> real list list
     \<Rightarrow> real list list \<Rightarrow> real list list \<Rightarrow> real list list \<Rightarrow> real" where
  "mixture_product x j D rho mu s_l s_r mu_irr s_l_irr s_r_irr =
     (\<Prod>k<D. rho ! j ! k * AGD_pdf (x ! k) (mu ! j ! k) (s_l ! j ! k) (s_r ! j ! k)
             + (1 - rho ! j ! k)
               * AGD_pdf (x ! k) (mu_irr ! j ! k) (s_l_irr ! j ! k) (s_r_irr ! j ! k))"

section \<open>Properties of the density\<close>

lemma AGD_norm_pos:
  assumes "0 < s_l" "0 < s_r"
  shows "0 < sqrt (2 / pi) / (s_l powr (- 0.5) + s_r powr (- 0.5))"
proof -
  have "0 < s_l powr (- 0.5)" "0 < s_r powr (- 0.5)"
    using assms by simp_all
  then have "0 < s_l powr (- 0.5) + s_r powr (- 0.5)"
    by linarith
  moreover have "0 < sqrt (2 / pi)"
    by simp
  ultimately show ?thesis
    by (rule divide_pos_pos [rotated])
qed

lemma AGD_pdf_pos:
  assumes "0 < s_l" "0 < s_r"
  shows "0 < AGD_pdf x mu s_l s_r"
proof -
  have "0 < sqrt (2 / pi) / (s_l powr (- 0.5) + s_r powr (- 0.5)) * exp t" for t :: real
    using AGD_norm_pos [OF assms] by (intro mult_pos_pos) simp_all
  then show ?thesis
    unfolding AGD_pdf_def by (simp only: if_split) blast
qed


section \<open>Properties of double-precision rounding\<close>

lemma round_half_even_error: "\<bar>of_int (round_half_even q) - q\<bar> \<le> 1 / 2"
  unfolding round_half_even_def Let_def by (auto simp: abs_le_iff; linarith)



lemma round_half_even_ge_one: "1 \<le> q \<Longrightarrow> 1 \<le> round_half_even q"
proof -
  assume q: "1 \<le> q"
  have "q - 1 / 2 \<le> of_int (round_half_even q)"
    using round_half_even_error [of q] by linarith
  then have "0 < real_of_int (round_half_even q)"
    using q by linarith
  then show ?thesis
    by linarith
qed



lemma pow2_pos [simp]: "0 < pow2 n"
  by (simp add: pow2_def)

lemma pow2_nonneg [simp]: "0 \<le> pow2 n"
  by (simp add: pow2_def)

lemma pow2_add: "pow2 (a + b) = pow2 a * pow2 b"
  by (simp add: pow2_def powr_add)


lemma pow2_mono: "a \<le> b \<Longrightarrow> pow2 a \<le> pow2 b"
  by (simp add: pow2_def)

lemma pow2_strict_mono: "a < b \<Longrightarrow> pow2 a < pow2 b"
  by (simp add: pow2_def)

lemma pow2_0: "pow2 0 = 1"
  by (simp add: pow2_def)




lemma pow2_le_iff_log: "0 < x \<Longrightarrow> pow2 n \<le> x \<longleftrightarrow> of_int n \<le> log 2 x"
  by (simp add: pow2_def le_log_iff)

lemma float64_ulp_pos: "0 < float64_ulp x"
  by (simp add: float64_ulp_def)

lemma float64_ulp_subnormal: "\<bar>x\<bar> < pow2 (- 1022) \<Longrightarrow> float64_ulp x = pow2 (- 1074)"
  by (simp add: float64_ulp_def float64_exponent_def)

lemma float64_ulp_normal:
  assumes "pow2 (- 1022) \<le> \<bar>x\<bar>"
  shows "float64_ulp x \<le> \<bar>x\<bar> * pow2 (- 52)"
proof -
  have pos: "0 < \<bar>x\<bar>"
    using assms pow2_pos [of "- 1022"] by linarith
  have "of_int \<lfloor>log 2 \<bar>x\<bar>\<rfloor> \<le> log 2 \<bar>x\<bar>"
    by simp
  then have "pow2 \<lfloor>log 2 \<bar>x\<bar>\<rfloor> \<le> \<bar>x\<bar>"
    using pos by (simp add: pow2_le_iff_log)
  then have "pow2 \<lfloor>log 2 \<bar>x\<bar>\<rfloor> * pow2 (- 52) \<le> \<bar>x\<bar> * pow2 (- 52)"
    by (intro mult_right_mono) simp_all
  moreover have "float64_ulp x = pow2 (\<lfloor>log 2 \<bar>x\<bar>\<rfloor> + (- 52))"
    using assms by (simp add: float64_ulp_def float64_exponent_def)
  ultimately show ?thesis
    by (simp only: pow2_add)
qed

lemma float64_ulp_le_abs:
  assumes "pow2 (- 1074) \<le> \<bar>x\<bar>"
  shows "float64_ulp x \<le> \<bar>x\<bar>"
proof (cases "\<bar>x\<bar> < pow2 (- 1022)")
  case True
  then show ?thesis
    using assms by (simp add: float64_ulp_subnormal)
next
  case False
  then have n: "pow2 (- 1022) \<le> \<bar>x\<bar>" by simp
  have "pow2 (- 52) \<le> pow2 0"
    by (rule pow2_mono) simp
  then have "\<bar>x\<bar> * pow2 (- 52) \<le> \<bar>x\<bar> * 1"
    unfolding pow2_0 by (intro mult_left_mono) simp_all
  then show ?thesis
    using float64_ulp_normal [OF n] by simp
qed







lemma round_to_grid_positive:
  assumes "pow2 (- 1074) \<le> x"
  shows "0 < round_to_grid x"
proof -
  define u where "u = float64_ulp x"
  have u: "0 < u"
    unfolding u_def by (rule float64_ulp_pos)
  have x: "0 < x"
    using assms pow2_pos [of "- 1074"] by linarith
  then have "pow2 (- 1074) \<le> \<bar>x\<bar>"
    using assms by simp
  then have "u \<le> \<bar>x\<bar>"
    unfolding u_def by (rule float64_ulp_le_abs)
  then have "1 \<le> x / u"
    using u x by (simp add: field_simps)
  then have "1 \<le> round_half_even (x / u)"
    by (rule round_half_even_ge_one)
  then have "1 * u \<le> real_of_int (round_half_even (x / u)) * u"
    using u by (intro mult_right_mono) simp_all
  then show ?thesis
    using u by (simp add: round_to_grid_def u_def)
qed































section \<open>Properties of the error monad and of loops\<close>

lemma bindE_Inr [simp]: "bindE (Inr v) f = f v"
  by (simp add: bindE_def)

lemma bindE_Inl [simp]: "bindE (Inl e) f = Inl e"
  by (simp add: bindE_def)

lemma bindE_eq_Inr: "bindE m f = Inr v \<longleftrightarrow> (\<exists>a. m = Inr a \<and> f a = Inr v)"
  by (cases m) simp_all

lemma idx_in_range: "i < length xs \<Longrightarrow> idx xs i = Inr (xs ! i)"
  by (simp add: idx_def)

lemma idx_eq_Inr: "idx xs i = Inr v \<longleftrightarrow> i < length xs \<and> v = xs ! i"
  by (auto simp: idx_def)

lemma idx2_in_range: "j < length a \<Longrightarrow> k < length (a ! j) \<Longrightarrow> idx2 a j k = Inr (a ! j ! k)"
  by (simp add: idx2_def idx_in_range)

lemma idx2_eq_Inr: "idx2 a j k = Inr v \<longleftrightarrow> j < length a \<and> k < length (a ! j) \<and> v = a ! j ! k"
  by (auto simp: idx2_def bindE_eq_Inr idx_eq_Inr)

lemma idx3_in_range:
  "i < length a \<Longrightarrow> j < length (a ! i) \<Longrightarrow> k < length (a ! i ! j) \<Longrightarrow> idx3 a i j k = Inr (a ! i ! j ! k)"
  by (simp add: idx3_def idx_in_range idx2_in_range)

lemma for_loop_append:
  "for_loop (xs @ ys) body s = bindE (for_loop xs body s) (for_loop ys body)"
  by (induction xs arbitrary: s) (simp_all split: sum.splits)

lemma for_loop_snoc:
  "for_loop (xs @ [a]) body s = bindE (for_loop xs body s) (\<lambda>s'. body s' a)"
proof -
  have "for_loop [a] body = (\<lambda>s'. body s' a)"
    by (rule ext) (simp split: sum.splits)
  then show ?thesis
    by (simp add: for_loop_append)
qed

lemma for_loop_add:
  fixes h :: "'a \<Rightarrow> real"
  assumes "\<And>s a. a \<in> set as \<Longrightarrow> body s a = Inr (s + h a)"
  shows "for_loop as body s = Inr (s + sum_list (map h as))"
  using assms by (induction as arbitrary: s) (simp_all add: add.assoc)

lemma for_loop_mult:
  fixes h :: "'a \<Rightarrow> real"
  assumes "\<And>s a. a \<in> set as \<Longrightarrow> body s a = Inr (s * h a)"
  shows "for_loop as body s = Inr (s * prod_list (map h as))"
  using assms by (induction as arbitrary: s) (simp_all add: mult.assoc)

lemma sum_list_upt_lessThan: "sum_list (map h [0..<n]) = (\<Sum>j<n. h j)" for h :: "nat \<Rightarrow> real"
  by (simp add: interv_sum_list_conv_sum_set_nat atLeast0LessThan)

lemma prod_list_upt_lessThan: "prod_list (map h [0..<n]) = (\<Prod>j<n. h j)" for h :: "nat \<Rightarrow> real"
  by (induction n) simp_all

lemma for_loop_fill_prefix:
  assumes "\<And>res j. j < N \<Longrightarrow> body res j = Inr (res[j := f j])" and "length res0 = N" and "n \<le> N"
  shows "for_loop [0..<n] body res0 = Inr (map f [0..<n] @ drop n res0)"
  using assms(3)
proof (induction n)
  case 0
  show ?case by simp
next
  case (Suc n)
  then have n: "n < N" by simp
  have "(map f [0..<n] @ drop n res0)[n := f n] = map f [0..<n] @ f n # drop (Suc n) res0"
    using n assms(2) by (simp add: list_update_append Cons_nth_drop_Suc [symmetric])
  then show ?case
    using Suc.IH n assms(1) [OF n] by (simp add: for_loop_snoc)
qed

lemma for_loop_fill:
  assumes "\<And>res j. j < N \<Longrightarrow> body res j = Inr (res[j := f j])" and "length res0 = N"
  shows "for_loop [0..<N] body res0 = Inr (map f [0..<N])"
  using for_loop_fill_prefix [OF assms order_refl] assms(2) by simp

lemma for_loop_fill_at:
  assumes body: "\<And>l k. Q l \<Longrightarrow> length l = n \<Longrightarrow> k < n \<Longrightarrow> body (put l) k = Inr (put (l[k := f k]))"
    and keep: "\<And>l k. Q l \<Longrightarrow> length l = n \<Longrightarrow> k < n \<Longrightarrow> Q (l[k := f k])"
    and start: "Q l0" "length l0 = n"
  shows "for_loop [0..<n] body (put l0) = Inr (put (map f [0..<n]))"
proof -
  have "m \<le> n \<Longrightarrow> Q (map f [0..<m] @ drop m l0)
          \<and> for_loop [0..<m] body (put l0) = Inr (put (map f [0..<m] @ drop m l0))" for m
  proof (induction m)
    case 0
    show ?case using start by simp
  next
    case (Suc m)
    then have m: "m < n" by simp
    let ?l = "map f [0..<m] @ drop m l0"
    have IH: "Q ?l" "for_loop [0..<m] body (put l0) = Inr (put ?l)"
      using Suc by simp_all
    have len: "length ?l = n"
      using m start(2) by simp
    have upd: "?l[m := f m] = map f [0..<Suc m] @ drop (Suc m) l0"
      using m start(2) by (simp add: list_update_append Cons_nth_drop_Suc [symmetric])
    show ?case
      using keep [OF IH(1) len m] body [OF IH(1) len m] IH(2)
      unfolding upd by (simp add: for_loop_snoc)
  qed
  from this [of n] show ?thesis
    using start(2) by simp
qed

lemma for_loop_overwrite:
  assumes "\<And>Z j. j < M \<Longrightarrow> body Z j = Inr (Z[i := g j])"
  shows "for_loop [0..<M] body Z = Inr (if M = 0 then Z else Z[i := g (M - 1)])"
  using assms
proof (induction M)
  case 0
  show ?case by simp
next
  case (Suc M)
  have "for_loop [0..<M] body Z = Inr (if M = 0 then Z else Z[i := g (M - 1)])"
    using Suc.prems by (intro Suc.IH) simp
  then show ?case
    using Suc.prems [of M] by (simp add: for_loop_snoc)
qed

section \<open>The likelihood ratio of the Beta hyperparameters\<close>

lemma compare_delta_a_log_likelihood_eq:
  assumes "M \<le> length rho" and "\<forall>j<M. k < length (rho ! j)"
  shows "compare_delta_a_log_likelihood gammaln a a_prev b rho k M =
     Inr (real M * (gammaln (a + b) - gammaln a - gammaln (a_prev + b) + gammaln a_prev)
          + (\<Sum>j<M. (a - a_prev) * ln (rho ! j ! k)))"
proof -
  have "for_loop [0..<M] (\<lambda>c j. bindE (idx2 rho j k) (\<lambda>rho_jk. Inr (c + (a - a_prev) * ln rho_jk))) s
        = Inr (s + sum_list (map (\<lambda>j. (a - a_prev) * ln (rho ! j ! k)) [0..<M]))" for s
    using assms by (intro for_loop_add) (simp add: idx2_in_range)
  then show ?thesis
    by (simp add: compare_delta_a_log_likelihood_def sum_list_upt_lessThan)
qed

lemma compare_delta_b_log_likelihood_eq:
  assumes "M \<le> length rho" and "\<forall>j<M. k < length (rho ! j)"
  shows "compare_delta_b_log_likelihood gammaln b b_prev a rho k M =
     Inr (real M * (gammaln (a + b) - gammaln b - gammaln (a + b_prev) + gammaln b_prev)
          + (\<Sum>j<M. (b - b_prev) * ln (1 - rho ! j ! k)))"
proof -
  have "for_loop [0..<M] (\<lambda>c j. bindE (idx2 rho j k) (\<lambda>rho_jk. Inr (c + (b - b_prev) * ln (1 - rho_jk)))) s
        = Inr (s + sum_list (map (\<lambda>j. (b - b_prev) * ln (1 - rho ! j ! k)) [0..<M]))" for s
    using assms by (intro for_loop_add) (simp add: idx2_in_range)
  then show ?thesis
    by (simp add: compare_delta_b_log_likelihood_def sum_list_upt_lessThan)
qed

lemma draw_gamma_2_half: "draw_gamma 2 0.5 g = Inr (g (Gamma_dist 2 0 0.5))"
  by (simp add: draw_gamma_def)

text \<open>
  Claim C5. For all shape parameters, previous values, \<open>rho\<close>, \<open>k\<close> and \<open>M\<close> (with \<open>rho\<close>
  holding the entries \<open>rho[j,k]\<close> for \<open>j < M\<close>), the log-likelihood ratio computed by
  \<open>compare_delta_a\<close> is \<open>M * (lgamma (a + b) - lgamma a - lgamma (a_prev + b) + lgamma a_prev)\<close>
  plus the sum over the components \<open>j\<close> of \<open>(a - a_prev) * log (rho[j,k])\<close>, and the function
  returns its exponential times the prior ratio, the quotient of two draws from
  \<open>Gamma (2, 0.5)\<close>; \<open>compare_delta_b\<close> computes the symmetric expression, with the two shape
  parameters swapped and \<open>log (1 - rho[j,k])\<close>.
\<close>

theorem compare_delta_likelihood_ratio:
  assumes "M \<le> length rho" and "\<forall>j<M. k < length (rho ! j)"
  shows "compare_delta_a_log_likelihood gammaln delta_a previous_delta_a delta_b rho k M =
           Inr (real M * (gammaln (delta_a + delta_b) - gammaln delta_a
                          - gammaln (previous_delta_a + delta_b) + gammaln previous_delta_a)
                + (\<Sum>j<M. (delta_a - previous_delta_a) * ln (rho ! j ! k)))
         \<and> compare_delta_a gammaln delta_a previous_delta_a delta_b rho k M g =
           Inr (exp (real M * (gammaln (delta_a + delta_b) - gammaln delta_a
                               - gammaln (previous_delta_a + delta_b) + gammaln previous_delta_a)
                     + (\<Sum>j<M. (delta_a - previous_delta_a) * ln (rho ! j ! k)))
                * (fst g (Gamma_dist 2 0 0.5) / snd g (Gamma_dist 2 0 0.5)))
         \<and> compare_delta_b_log_likelihood gammaln delta_b previous_delta_b delta_a rho k M =
           Inr (real M * (gammaln (delta_a + delta_b) - gammaln delta_b
                          - gammaln (delta_a + previous_delta_b) + gammaln previous_delta_b)
                + (\<Sum>j<M. (delta_b - previous_delta_b) * ln (1 - rho ! j ! k)))
         \<and> compare_delta_b gammaln delta_b previous_delta_b delta_a rho k M g =
           Inr (exp (real M * (gammaln (delta_a + delta_b) - gammaln delta_b
                               - gammaln (delta_a + previous_delta_b) + gammaln previous_delta_b)
                     + (\<Sum>j<M. (delta_b - previous_delta_b) * ln (1 - rho ! j ! k)))
                * (fst g (Gamma_dist 2 0 0.5) / snd g (Gamma_dist 2 0 0.5)))"
  unfolding compare_delta_a_def compare_delta_b_def
    compare_delta_a_log_likelihood_eq [OF assms] compare_delta_b_log_likelihood_eq [OF assms]
  by (simp only: bindE_Inr Let_def draw_gamma_2_half simp_thms)

theorem compare_delta_likelihood_ratio_witness:
  "(2::nat) \<le> length [[1/2], [1/4::real]]
   \<and> 0 < length ([[1/2], [1/4::real]] ! 0) \<and> 0 < length ([[1/2], [1/4::real]] ! 1)
   \<and> compare_delta_a_log_likelihood (\<lambda>x. if x = 3 then ln 2 else if x = 4 then ln 6 else 0)
         2 1 1 [[1/2], [1/4]] 0 2
       = Inr (2 * (ln 2 - 0 - 0 + 0) + ((2 - 1) * ln (1/2) + (2 - 1) * ln (1/4)))
   \<and> compare_delta_a (\<lambda>x. if x = 3 then ln 2 else if x = 4 then ln 6 else 0)
         2 1 1 [[1/2], [1/4]] 0 2 (rvs_of_variate 1, rvs_of_variate 2)
       = Inr (exp (2 * (ln 2 - 0 - 0 + 0) + ((2 - 1) * ln (1/2) + (2 - 1) * ln (1/4))) * (1 / 2))
   \<and> compare_delta_b_log_likelihood (\<lambda>x. if x = 3 then ln 2 else if x = 4 then ln 6 else 0)
         1 2 2 [[1/2], [1/4]] 0 2
       = Inr (2 * (ln 2 - 0 - ln 6 + 0) + ((1 - 2) * ln (1 - 1/2) + (1 - 2) * ln (1 - 1/4)))
   \<and> compare_delta_b (\<lambda>x. if x = 3 then ln 2 else if x = 4 then ln 6 else 0)
         1 2 2 [[1/2], [1/4]] 0 2 (rvs_of_variate 1, rvs_of_variate 2)
       = Inr (exp (2 * (ln 2 - 0 - ln 6 + 0) + ((1 - 2) * ln (1 - 1/2) + (1 - 2) * ln (1 - 1/4)))
              * (1 / 2))"
proof -
  have h1: "(2::nat) \<le> length [[1/2], [1/4::real]]" by simp
  have h2: "\<forall>j<2::nat. 0 < length ([[1/2], [1/4::real]] ! j)"
    by (simp add: less_Suc_eq numeral_2_eq_2)
  have s: "(\<Sum>j<2::nat. f j) = f 0 + f 1" for f :: "nat \<Rightarrow> real"
    by (simp add: numeral_2_eq_2)
  show ?thesis
    using compare_delta_likelihood_ratio [OF h1 h2,
      where gammaln = "\<lambda>x. if x = 3 then ln 2 else if x = 4 then ln 6 else 0"
        and delta_a = 2 and previous_delta_a = 1 and delta_b = 1 and previous_delta_b = 2
        and g = "(rvs_of_variate 1, rvs_of_variate 2)"]
    by (simp add: s)
qed

section \<open>The acceptance ratio\<close>

lemma for_loop_invariant:
  assumes "for_loop as body s = Inr t" and "P s"
    and "\<And>s a s'. a \<in> set as \<Longrightarrow> P s \<Longrightarrow> body s a = Inr s' \<Longrightarrow> P s'"
  shows "P t"
  using assms
proof (induction as arbitrary: s)
  case Nil
  then show ?case by simp
next
  case (Cons a as)
  from Cons.prems(1) obtain s' where step: "body s a = Inr s'" and rest: "for_loop as body s' = Inr t"
    by (auto split: sum.splits)
  have "P s'"
    using Cons.prems(3) [of a s s'] Cons.prems(2) step by simp
  then show ?case
    by (rule Cons.IH [OF rest]) (use Cons.prems(3) in auto)
qed

lemma draw_normal_eq_Inr:
  "draw_normal loc scale g = Inr d \<longleftrightarrow> 0 \<le> scale \<and> d = g (Norm_dist loc scale)"
  by (auto simp: draw_normal_def norm_rvs_def)

lemma draw_gamma_eq_Inr:
  "draw_gamma a theta g = Inr d \<longleftrightarrow> 0 < a \<and> 0 \<le> theta \<and> d = g (Gamma_dist a 0 theta)"
  by (auto simp: draw_gamma_def)

lemma compare_mu_jk_eq_Inr:
  "compare_mu_jk c p s_l s_r r lam z j k X g = Inr v \<longleftrightarrow>
     (\<exists>cll. compare_mu_jk_log_likelihood c p s_l s_r z j k X = Inr cll
        \<and> k < length lam \<and> k < length r \<and> 0 \<le> 1 / r ! k
        \<and> v = exp cll * (fst g (Norm_dist (lam ! k) (1 / r ! k))
                          / snd g (Norm_dist (lam ! k) (1 / r ! k))))"
  unfolding compare_mu_jk_def Let_def bindE_eq_Inr idx_eq_Inr draw_normal_eq_Inr
  by auto

lemma compare_s_ljk_eq_Inr:
  "compare_s_ljk c p mu s_r beta w z j k X g = Inr v \<longleftrightarrow>
     (\<exists>cll. compare_s_ljk_log_likelihood c p mu s_r z j k X = Inr cll
        \<and> k < length beta \<and> k < length w \<and> 0 < beta ! k / 2 \<and> 0 \<le> 2 / (beta ! k * w ! k)
        \<and> v = exp cll * (fst g (Gamma_dist (beta ! k / 2) 0 (2 / (beta ! k * w ! k)))
                          / snd g (Gamma_dist (beta ! k / 2) 0 (2 / (beta ! k * w ! k)))))"
  unfolding compare_s_ljk_def Let_def bindE_eq_Inr idx_eq_Inr draw_gamma_eq_Inr
  by auto

lemma compare_s_rjk_eq_Inr:
  "compare_s_rjk c p mu s_l beta w z j k X g = Inr v \<longleftrightarrow>
     (\<exists>cll. compare_s_rjk_log_likelihood c p mu s_l z j k X = Inr cll
        \<and> k < length beta \<and> k < length w \<and> 0 < beta ! k / 2 \<and> 0 \<le> 2 / (beta ! k * w ! k)
        \<and> v = exp cll * (fst g (Gamma_dist (beta ! k / 2) 0 (2 / (beta ! k * w ! k)))
                          / snd g (Gamma_dist (beta ! k / 2) 0 (2 / (beta ! k * w ! k)))))"
  unfolding compare_s_rjk_def Let_def bindE_eq_Inr idx_eq_Inr draw_gamma_eq_Inr
  by auto

lemma compare_delta_a_eq_Inr:
  "compare_delta_a gammaln c p delta_b rho k M g = Inr v \<longleftrightarrow>
     (\<exists>cll. compare_delta_a_log_likelihood gammaln c p delta_b rho k M = Inr cll
        \<and> v = exp cll * (fst g (Gamma_dist 2 0 0.5) / snd g (Gamma_dist 2 0 0.5)))"
  unfolding compare_delta_a_def Let_def draw_gamma_2_half
  by (cases "compare_delta_a_log_likelihood gammaln c p delta_b rho k M") auto

lemma compare_delta_b_eq_Inr:
  "compare_delta_b gammaln c p delta_a rho k M g = Inr v \<longleftrightarrow>
     (\<exists>cll. compare_delta_b_log_likelihood gammaln c p delta_a rho k M = Inr cll
        \<and> v = exp cll * (fst g (Gamma_dist 2 0 0.5) / snd g (Gamma_dist 2 0 0.5)))"
  unfolding compare_delta_b_def Let_def draw_gamma_2_half
  by (cases "compare_delta_b_log_likelihood gammaln c p delta_a rho k M") auto

text \<open>With the candidate equal to the current value the log-likelihood ratio is zero.\<close>

lemma compare_mu_jk_log_likelihood_same:
  assumes "compare_mu_jk_log_likelihood x x s_l s_r z j k X = Inr cll"
  shows "cll = 0"
  using assms unfolding compare_mu_jk_log_likelihood_def
  by (rule for_loop_invariant) (auto simp: bindE_eq_Inr)

lemma compare_s_ljk_log_likelihood_same:
  assumes "compare_s_ljk_log_likelihood x x mu s_r z j k X = Inr cll"
  shows "cll = 0"
  using assms unfolding compare_s_ljk_log_likelihood_def
  by (rule for_loop_invariant) (auto simp: bindE_eq_Inr)

lemma compare_s_rjk_log_likelihood_same:
  assumes "compare_s_rjk_log_likelihood x x mu s_l z j k X = Inr cll"
  shows "cll = 0"
  using assms unfolding compare_s_rjk_log_likelihood_def
  by (rule for_loop_invariant) (auto simp: bindE_eq_Inr)

lemma compare_delta_a_log_likelihood_same:
  assumes "compare_delta_a_log_likelihood gammaln x x delta_b rho k M = Inr cll"
  shows "cll = 0"
  using assms unfolding compare_delta_a_log_likelihood_def Let_def
  by (rule for_loop_invariant) (auto simp: bindE_eq_Inr)

lemma compare_delta_b_log_likelihood_same:
  assumes "compare_delta_b_log_likelihood gammaln x x delta_a rho k M = Inr cll"
  shows "cll = 0"
  using assms unfolding compare_delta_b_log_likelihood_def Let_def
  by (rule for_loop_invariant) (auto simp: bindE_eq_Inr)

text \<open>Hyperparameters without a zero entry: the scales \<open>1 / r[k]\<close> and \<open>2 / (beta[k] * w[k])\<close>.\<close>

lemma normal_scale_ok:
  fixes r :: "real list"
  assumes "0 \<notin> set r" and "k < length r"
  shows "0 \<le> 1 / r ! k \<longleftrightarrow> 0 < r ! k"
proof -
  have "r ! k \<noteq> 0"
    using assms nth_mem by metis
  then show ?thesis
    by (simp add: less_le)
qed

lemma gamma_parameters_ok:
  fixes w :: "real list" and beta_k :: real
  assumes "0 \<notin> set w" and "k < length w"
  shows "0 < beta_k / 2 \<and> 0 \<le> 2 / (beta_k * w ! k) \<longleftrightarrow> 0 < beta_k \<and> 0 < w ! k"
proof -
  have "w ! k \<noteq> 0"
    using assms nth_mem by metis
  then show ?thesis
    by (auto simp: zero_le_divide_iff zero_le_mult_iff less_le)
qed

text \<open>
  Claim C6. In each of the five samplers the factor that multiplies the likelihood ratio is
  the quotient of two draws, each a call of its own to the generator (\<open>fst g\<close> and \<open>snd g\<close>),
  and both calls ask for the same distribution, the prior with the hyperparameters of the
  call: \<open>Normal (lam[k], 1 / r[k])\<close> for \<open>mu_jk\<close>, \<open>Gamma (beta[k] / 2, 2 / (beta[k] * w[k]))\<close>
  for \<open>s_ljk\<close> and \<open>s_rjk\<close>, \<open>Gamma (2, 0.5)\<close> for \<open>delta_a\<close> and \<open>delta_b\<close>. Neither the
  candidate nor the current value occurs in the factor: it is not a ratio of prior densities
  at these two values. In particular, when the candidate equals the current value the
  function returns the quotient of the two draws. The hyperparameters \<open>r\<close> and \<open>w\<close> have no
  zero entry.
\<close>

theorem prior_ratio_is_quotient_of_two_draws:
  assumes "0 \<notin> set r" and "0 \<notin> set w"
  shows
  "(compare_mu_jk c p s_ljk s_rjk r lam z j k X g = Inr v1 \<longleftrightarrow>
      (\<exists>cll. compare_mu_jk_log_likelihood c p s_ljk s_rjk z j k X = Inr cll
         \<and> k < length lam \<and> k < length r \<and> 0 < r ! k
         \<and> v1 = exp cll * (fst g (Norm_dist (lam ! k) (1 / r ! k))
                            / snd g (Norm_dist (lam ! k) (1 / r ! k)))))
   \<and> (compare_mu_jk x x s_ljk s_rjk r lam z j k X g = Inr v1 \<longrightarrow>
        v1 = fst g (Norm_dist (lam ! k) (1 / r ! k)) / snd g (Norm_dist (lam ! k) (1 / r ! k)))
   \<and> (compare_s_ljk c p mu_jk s_rjk beta w z j k X g = Inr v2 \<longleftrightarrow>
      (\<exists>cll. compare_s_ljk_log_likelihood c p mu_jk s_rjk z j k X = Inr cll
         \<and> k < length beta \<and> k < length w \<and> 0 < beta ! k \<and> 0 < w ! k
         \<and> v2 = exp cll * (fst g (Gamma_dist (beta ! k / 2) 0 (2 / (beta ! k * w ! k)))
                            / snd g (Gamma_dist (beta ! k / 2) 0 (2 / (beta ! k * w ! k))))))
   \<and> (compare_s_ljk x x mu_jk s_rjk beta w z j k X g = Inr v2 \<longrightarrow>
        v2 = fst g (Gamma_dist (beta ! k / 2) 0 (2 / (beta ! k * w ! k)))
               / snd g (Gamma_dist (beta ! k / 2) 0 (2 / (beta ! k * w ! k))))
   \<and> (compare_s_rjk c p mu_jk s_ljk beta w z j k X g = Inr v3 \<longleftrightarrow>
      (\<exists>cll. compare_s_rjk_log_likelihood c p mu_jk s_ljk z j k X = Inr cll
         \<and> k < length beta \<and> k < length w \<and> 0 < beta ! k \<and> 0 < w ! k
         \<and> v3 = exp cll * (fst g (Gamma_dist (beta ! k / 2) 0 (2 / (beta ! k * w ! k)))
                            / snd g (Gamma_dist (beta ! k / 2) 0 (2 / (beta ! k * w ! k))))))
   \<and> (compare_s_rjk x x mu_jk s_ljk beta w z j k X g = Inr v3 \<longrightarrow>
        v3 = fst g (Gamma_dist (beta ! k / 2) 0 (2 / (beta ! k * w ! k)))
               / snd g (Gamma_dist (beta ! k / 2) 0 (2 / (beta ! k * w ! k))))
   \<and> (compare_delta_a gammaln c p delta_b rho k M g = Inr v4 \<longleftrightarrow>
      (\<exists>cll. compare_delta_a_log_likelihood gammaln c p delta_b rho k M = Inr cll
         \<and> v4 = exp cll * (fst g (Gamma_dist 2 0 0.5) / snd g (Gamma_dist 2 0 0.5))))
   \<and> (compare_delta_a gammaln x x delta_b rho k M g = Inr v4 \<longrightarrow>
        v4 = fst g (Gamma_dist 2 0 0.5) / snd g (Gamma_dist 2 0 0.5))
   \<and> (compare_delta_b gammaln c p delta_a rho k M g = Inr v5 \<longleftrightarrow>
      (\<exists>cll. compare_delta_b_log_likelihood gammaln c p delta_a rho k M = Inr cll
         \<and> v5 = exp cll * (fst g (Gamma_dist 2 0 0.5) / snd g (Gamma_dist 2 0 0.5))))
   \<and> (compare_delta_b gammaln x x delta_a rho k M g = Inr v5 \<longrightarrow>
        v5 = fst g (Gamma_dist 2 0 0.5) / snd g (Gamma_dist 2 0 0.5))"
proof (intro conjI impI)
  show "compare_mu_jk c p s_ljk s_rjk r lam z j k X g = Inr v1 \<longleftrightarrow>
      (\<exists>cll. compare_mu_jk_log_likelihood c p s_ljk s_rjk z j k X = Inr cll
         \<and> k < length lam \<and> k < length r \<and> 0 < r ! k
         \<and> v1 = exp cll * (fst g (Norm_dist (lam ! k) (1 / r ! k))
                            / snd g (Norm_dist (lam ! k) (1 / r ! k))))"
    unfolding compare_mu_jk_eq_Inr using normal_scale_ok [OF assms(1)] by blast
  show "compare_s_ljk c p mu_jk s_rjk beta w z j k X g = Inr v2 \<longleftrightarrow>
      (\<exists>cll. compare_s_ljk_log_likelihood c p mu_jk s_rjk z j k X = Inr cll
         \<and> k < length beta \<and> k < length w \<and> 0 < beta ! k \<and> 0 < w ! k
         \<and> v2 = exp cll * (fst g (Gamma_dist (beta ! k / 2) 0 (2 / (beta ! k * w ! k)))
                            / snd g (Gamma_dist (beta ! k / 2) 0 (2 / (beta ! k * w ! k)))))"
    unfolding compare_s_ljk_eq_Inr using gamma_parameters_ok [OF assms(2)] by blast
  show "compare_s_rjk c p mu_jk s_ljk beta w z j k X g = Inr v3 \<longleftrightarrow>
      (\<exists>cll. compare_s_rjk_log_likelihood c p mu_jk s_ljk z j k X = Inr cll
         \<and> k < length beta \<and> k < length w \<and> 0 < beta ! k \<and> 0 < w ! k
         \<and> v3 = exp cll * (fst g (Gamma_dist (beta ! k / 2) 0 (2 / (beta ! k * w ! k)))
                            / snd g (Gamma_dist (beta ! k / 2) 0 (2 / (beta ! k * w ! k)))))"
    unfolding compare_s_rjk_eq_Inr using gamma_parameters_ok [OF assms(2)] by blast
  show "compare_delta_a gammaln c p delta_b rho k M g = Inr v4 \<longleftrightarrow>
      (\<exists>cll. compare_delta_a_log_likelihood gammaln c p delta_b rho k M = Inr cll
         \<and> v4 = exp cll * (fst g (Gamma_dist 2 0 0.5) / snd g (Gamma_dist 2 0 0.5)))"
    by (rule compare_delta_a_eq_Inr)
  show "compare_delta_b gammaln c p delta_a rho k M g = Inr v5 \<longleftrightarrow>
      (\<exists>cll. compare_delta_b_log_likelihood gammaln c p delta_a rho k M = Inr cll
         \<and> v5 = exp cll * (fst g (Gamma_dist 2 0 0.5) / snd g (Gamma_dist 2 0 0.5)))"
    by (rule compare_delta_b_eq_Inr)
next
  assume "compare_mu_jk x x s_ljk s_rjk r lam z j k X g = Inr v1"
  then show "v1 = fst g (Norm_dist (lam ! k) (1 / r ! k)) / snd g (Norm_dist (lam ! k) (1 / r ! k))"
    unfolding compare_mu_jk_eq_Inr using compare_mu_jk_log_likelihood_same by fastforce
next
  assume "compare_s_ljk x x mu_jk s_rjk beta w z j k X g = Inr v2"
  then show "v2 = fst g (Gamma_dist (beta ! k / 2) 0 (2 / (beta ! k * w ! k)))
               / snd g (Gamma_dist (beta ! k / 2) 0 (2 / (beta ! k * w ! k)))"
    unfolding compare_s_ljk_eq_Inr using compare_s_ljk_log_likelihood_same by fastforce
next
  assume "compare_s_rjk x x mu_jk s_ljk beta w z j k X g = Inr v3"
  then show "v3 = fst g (Gamma_dist (beta ! k / 2) 0 (2 / (beta ! k * w ! k)))
               / snd g (Gamma_dist (beta ! k / 2) 0 (2 / (beta ! k * w ! k)))"
    unfolding compare_s_rjk_eq_Inr using compare_s_rjk_log_likelihood_same by fastforce
next
  assume "compare_delta_a gammaln x x delta_b rho k M g = Inr v4"
  then show "v4 = fst g (Gamma_dist 2 0 0.5) / snd g (Gamma_dist 2 0 0.5)"
    unfolding compare_delta_a_eq_Inr using compare_delta_a_log_likelihood_same by fastforce
next
  assume "compare_delta_b gammaln x x delta_a rho k M g = Inr v5"
  then show "v5 = fst g (Gamma_dist 2 0 0.5) / snd g (Gamma_dist 2 0 0.5)"
    unfolding compare_delta_b_eq_Inr using compare_delta_b_log_likelihood_same by fastforce
qed

lemma upt_0_2: "[0..<2] = [0, Suc 0]"
  by (simp add: numeral_2_eq_2)

lemma log_likelihood_same_values:
  "compare_mu_jk_log_likelihood 1 1 1 1 [[[1]]] 0 0 [[0]] = Inr 0"
  "compare_s_ljk_log_likelihood 1 1 0 1 [[[1]]] 0 0 [[0]] = Inr 0"
  "compare_s_rjk_log_likelihood 1 1 0 1 [[[1]]] 0 0 [[0]] = Inr 0"
  "compare_delta_a_log_likelihood (\<lambda>t. 0) 1 1 1 [[1 / 2], [1 / 4]] 0 2 = Inr 0"
  "compare_delta_b_log_likelihood (\<lambda>t. 0) 1 1 1 [[1 / 2], [1 / 4]] 0 2 = Inr 0"
  by (simp_all add: compare_mu_jk_log_likelihood_def compare_s_ljk_log_likelihood_def
      compare_s_rjk_log_likelihood_def compare_delta_a_log_likelihood_def
      compare_delta_b_log_likelihood_def upt_0_2 idx3_def idx2_def idx_def)

theorem prior_ratio_is_quotient_of_two_draws_witness:
  "0 \<notin> set [2::real] \<and> 0 \<notin> set [1::real]
   \<and> compare_mu_jk 1 1 1 1 [2] [3] [[[1]]] 0 0 [[0]] (rvs_of_variate 1, rvs_of_variate 2)
       = Inr (rvs_of_variate 1 (Norm_dist 3 (1 / 2)) / rvs_of_variate 2 (Norm_dist 3 (1 / 2)))
   \<and> compare_s_ljk 1 1 0 1 [1] [1] [[[1]]] 0 0 [[0]] (rvs_of_variate 1, rvs_of_variate 2)
       = Inr (rvs_of_variate 1 (Gamma_dist (1 / 2) 0 2) / rvs_of_variate 2 (Gamma_dist (1 / 2) 0 2))
   \<and> compare_s_rjk 1 1 0 1 [1] [1] [[[1]]] 0 0 [[0]] (rvs_of_variate 1, rvs_of_variate 2)
       = Inr (rvs_of_variate 1 (Gamma_dist (1 / 2) 0 2) / rvs_of_variate 2 (Gamma_dist (1 / 2) 0 2))
   \<and> compare_delta_a (\<lambda>t. 0) 1 1 1 [[1 / 2], [1 / 4]] 0 2 (rvs_of_variate 1, rvs_of_variate 2)
       = Inr (rvs_of_variate 1 (Gamma_dist 2 0 0.5) / rvs_of_variate 2 (Gamma_dist 2 0 0.5))
   \<and> compare_delta_b (\<lambda>t. 0) 1 1 1 [[1 / 2], [1 / 4]] 0 2 (rvs_of_variate 1, rvs_of_variate 2)
       = Inr (rvs_of_variate 1 (Gamma_dist 2 0 0.5) / rvs_of_variate 2 (Gamma_dist 2 0 0.5))"
proof -
  have r: "0 \<notin> set [2::real]" and b: "0 \<notin> set [1::real]"
    by simp_all
  show ?thesis
    using prior_ratio_is_quotient_of_two_draws [OF r b, where c = 1 and p = 1 and x = 1
        and beta = "[1]"
        and s_ljk = 1 and s_rjk = 1 and lam = "[3]" and z = "[[[1]]]" and j = 0
        and k = 0 and X = "[[0]]" and g = "(rvs_of_variate 1, rvs_of_variate 2)" and mu_jk = 0
        and gammaln = "\<lambda>t. 0" and delta_a = 1 and delta_b = 1 and rho = "[[1 / 2], [1 / 4]]" and M = 2
        and ?v1.0 = "rvs_of_variate 1 (Norm_dist 3 (1 / 2)) / rvs_of_variate 2 (Norm_dist 3 (1 / 2))"
        and ?v2.0 = "rvs_of_variate 1 (Gamma_dist (1 / 2) 0 2) / rvs_of_variate 2 (Gamma_dist (1 / 2) 0 2)"
        and ?v3.0 = "rvs_of_variate 1 (Gamma_dist (1 / 2) 0 2) / rvs_of_variate 2 (Gamma_dist (1 / 2) 0 2)"
        and ?v4.0 = "rvs_of_variate 1 (Gamma_dist 2 0 0.5) / rvs_of_variate 2 (Gamma_dist 2 0 0.5)"
        and ?v5.0 = "rvs_of_variate 1 (Gamma_dist 2 0 0.5) / rvs_of_variate 2 (Gamma_dist 2 0 0.5)"]
    by (simp add: log_likelihood_same_values)
qed

subsection \<open>The acceptance probability\<close>

lemma python_min_clamp: "python_min [Finite 1, Finite ratio] = Inr (Finite (min 1 ratio))"
  by (simp add: min_def)


lemma norm_rvs_proposal: "norm_rvs x 0.75 g = Inr (g (Norm_dist x 0.75))"
  by (simp add: norm_rvs_def)


















section \<open>The Metropolis-Hastings loop\<close>

lemma accepted_append: "accepted (ds @ es) = accepted ds @ accepted es"
  by (induction ds rule: accepted.induct) simp_all

lemma accepted_replicate_None: "accepted (replicate n None) = []"
  by (induction n) simp_all

lemma MH_step_eq_Inr:
  "MH_step pol cmp d (x, vec) = Inr (x', vec') \<longleftrightarrow>
     (\<exists>dec. MH_decision pol cmp d x = Inr dec
        \<and> (x', vec') = (case dec of Some c \<Rightarrow> (c, vec @ [c]) | None \<Rightarrow> (x, vec)))"
  by (auto simp: MH_step_def bindE_eq_Inr split: option.splits)

lemma MH_decisions_0: "MH_decisions pol cmp x0 draws 0 ds \<longleftrightarrow> ds = []"
  by (simp add: MH_decisions_def)

lemma MH_decisions_iff:
  "MH_decisions pol cmp x0 draws n ds \<longleftrightarrow>
     length ds = n
     \<and> (\<forall>i<n. MH_decision pol cmp (draws i) (last (x0 # accepted (take i ds))) = Inr (ds ! i))"
  unfolding MH_decisions_def list_all_iff set_upt by (auto simp del: last.simps)

lemma MH_decisions_Suc:
  "MH_decisions pol cmp x0 draws (Suc n) ds \<longleftrightarrow>
     (\<exists>ds' dec. ds = ds' @ [dec] \<and> MH_decisions pol cmp x0 draws n ds'
        \<and> MH_decision pol cmp (draws n) (last (x0 # accepted ds')) = Inr dec)"
proof
  assume a: "MH_decisions pol cmp x0 draws (Suc n) ds"
  then have len: "length ds = Suc n"
    by (simp add: MH_decisions_def)
  then obtain ds' dec where ds: "ds = ds' @ [dec]" and len': "length ds' = n"
    by (cases ds rule: rev_cases) auto
  have all: "\<forall>i<Suc n. MH_decision pol cmp (draws i) (last (x0 # accepted (take i ds))) = Inr (ds ! i)"
    using a unfolding MH_decisions_iff by blast
  have "MH_decisions pol cmp x0 draws n ds'"
    unfolding MH_decisions_def list_all_iff
  proof (intro conjI ballI)
    fix i assume "i \<in> set [0..<n]"
    then have i: "i < n" by simp
    with all have "MH_decision pol cmp (draws i) (last (x0 # accepted (take i ds))) = Inr (ds ! i)"
      by simp
    then show "MH_decision pol cmp (draws i) (last (x0 # accepted (take i ds'))) = Inr (ds' ! i)"
      using i len' by (simp add: ds nth_append del: last.simps)
  qed (rule len')
  moreover have "MH_decision pol cmp (draws n) (last (x0 # accepted ds')) = Inr dec"
    using all [rule_format, of n] len' by (auto simp: ds nth_append simp del: last.simps)
  ultimately show "\<exists>ds' dec. ds = ds' @ [dec] \<and> MH_decisions pol cmp x0 draws n ds'
        \<and> MH_decision pol cmp (draws n) (last (x0 # accepted ds')) = Inr dec"
    using ds by blast
next
  assume "\<exists>ds' dec. ds = ds' @ [dec] \<and> MH_decisions pol cmp x0 draws n ds'
        \<and> MH_decision pol cmp (draws n) (last (x0 # accepted ds')) = Inr dec"
  then obtain ds' dec where ds: "ds = ds' @ [dec]"
    and run: "MH_decisions pol cmp x0 draws n ds'"
    and dec: "MH_decision pol cmp (draws n) (last (x0 # accepted ds')) = Inr dec"
    by blast
  from run have len': "length ds' = n"
    and all: "\<forall>i<n. MH_decision pol cmp (draws i) (last (x0 # accepted (take i ds'))) = Inr (ds' ! i)"
    by (simp_all add: MH_decisions_def list_all_iff del: last.simps)
  show "MH_decisions pol cmp x0 draws (Suc n) ds"
    unfolding MH_decisions_def list_all_iff
  proof (intro conjI ballI)
    show "length ds = Suc n"
      using len' by (simp add: ds)
    fix i assume "i \<in> set [0..<Suc n]"
    then consider "i < n" | "i = n"
      by fastforce
    then show "MH_decision pol cmp (draws i) (last (x0 # accepted (take i ds))) = Inr (ds ! i)"
    proof cases
      case 1
      then show ?thesis
        using all len' by (simp add: ds nth_append del: last.simps)
    next
      case 2
      then show ?thesis
        using dec len' by (auto simp: ds nth_append simp del: last.simps)
    qed
  qed
qed

lemma MH_loop_char:
  "for_loop [0..<n] (\<lambda>s i. MH_step pol cmp (draws i) s) (x0, [x0]) = Inr (x, vec) \<longleftrightarrow>
     (\<exists>ds. MH_decisions pol cmp x0 draws n ds \<and> vec = x0 # accepted ds \<and> x = last vec)"
proof (induction n arbitrary: x vec)
  case 0
  show ?case
    by (auto simp: MH_decisions_0)
next
  case (Suc n)
  have "for_loop [0..<Suc n] (\<lambda>s i. MH_step pol cmp (draws i) s) (x0, [x0]) = Inr (x, vec) \<longleftrightarrow>
        (\<exists>x1 vec1. for_loop [0..<n] (\<lambda>s i. MH_step pol cmp (draws i) s) (x0, [x0]) = Inr (x1, vec1)
           \<and> MH_step pol cmp (draws n) (x1, vec1) = Inr (x, vec))"
    by (simp add: for_loop_snoc bindE_eq_Inr)
  also have "\<dots> \<longleftrightarrow>
        (\<exists>ds' dec. MH_decisions pol cmp x0 draws n ds'
           \<and> MH_decision pol cmp (draws n) (last (x0 # accepted ds')) = Inr dec
           \<and> (x, vec) = (case dec of Some c \<Rightarrow> (c, (x0 # accepted ds') @ [c])
                                    | None \<Rightarrow> (last (x0 # accepted ds'), x0 # accepted ds')))"
    unfolding Suc.IH MH_step_eq_Inr by blast
  also have "\<dots> \<longleftrightarrow>
        (\<exists>ds. MH_decisions pol cmp x0 draws (Suc n) ds \<and> vec = x0 # accepted ds \<and> x = last vec)"
  proof -
    have upd: "(x, vec) = (case dec of Some c \<Rightarrow> (c, (x0 # accepted ds') @ [c])
                                     | None \<Rightarrow> (last (x0 # accepted ds'), x0 # accepted ds'))
               \<longleftrightarrow> vec = x0 # accepted (ds' @ [dec]) \<and> x = last vec" for ds' dec
      by (cases dec) (auto simp: accepted_append)
    show ?thesis
      unfolding MH_decisions_Suc upd by blast
  qed
  finally show ?case .
qed

lemma MH_mu_jk_iteration_eq:
  "MH_mu_jk_iteration s_ljk s_rjk r lam z j k X draws =
     (\<lambda>s i. MH_step Unconstrained (\<lambda>c x. compare_mu_jk c x s_ljk s_rjk r lam z j k X) (draws i) s)"
  by (intro ext)
    (auto simp: MH_mu_jk_iteration_def MH_mu_jk_alpha_def MH_step_def MH_decision_def
      norm_rvs_proposal python_min_clamp Let_def bindE_def split: sum.splits)

lemma MH_sljk_iteration_eq:
  "MH_sljk_iteration mu_jk s_rjk beta w z j k X draws =
     (\<lambda>s i. MH_step ReflectNonPositive (\<lambda>c x. compare_s_ljk c x mu_jk s_rjk beta w z j k X)
        (draws i) s)"
  by (intro ext)
    (auto simp: MH_sljk_iteration_def MH_sljk_alpha_def MH_step_def MH_decision_def
      norm_rvs_proposal python_min_clamp Let_def bindE_def split: sum.splits)

lemma MH_srjk_iteration_eq:
  "MH_srjk_iteration mu_jk s_ljk beta w z j k X draws =
     (\<lambda>s i. MH_step SkipNonPositive (\<lambda>c x. compare_s_rjk c x mu_jk s_ljk beta w z j k X)
        (draws i) s)"
  by (intro ext)
    (auto simp: MH_srjk_iteration_def MH_srjk_alpha_def MH_step_def MH_decision_def
      norm_rvs_proposal python_min_clamp Let_def bindE_def split: sum.splits)

lemma MH_delta_a_iteration_eq:
  "MH_delta_a_iteration gammaln delta_b rho k M draws =
     (\<lambda>s i. MH_step SkipNonPositive (\<lambda>c x. compare_delta_a gammaln c x delta_b rho k M)
        (draws i) s)"
  by (intro ext)
    (auto simp: MH_delta_a_iteration_def MH_delta_a_alpha_def MH_step_def MH_decision_def
      norm_rvs_proposal python_min_clamp Let_def bindE_def split: sum.splits)

lemma MH_delta_b_iteration_eq:
  "MH_delta_b_iteration gammaln delta_a rho k M draws =
     (\<lambda>s i. MH_step SkipNonPositive (\<lambda>c x. compare_delta_b gammaln c x delta_a rho k M)
        (draws i) s)"
  by (intro ext)
    (auto simp: MH_delta_b_iteration_def MH_delta_b_alpha_def MH_step_def MH_decision_def
      norm_rvs_proposal python_min_clamp Let_def bindE_def split: sum.splits)

lemma MH_vec_char:
  "bindE (for_loop [0..<n] (\<lambda>s i. MH_step pol cmp (draws i) s) (x0, [] @ [x0])) (\<lambda>(x, vec). Inr vec)
     = Inr vec \<longleftrightarrow>
   (\<exists>ds. MH_decisions pol cmp x0 draws n ds \<and> vec = x0 # accepted ds)"
  unfolding bindE_eq_Inr append_Nil by (auto simp: MH_loop_char simp del: last.simps)

lemma MH_result_char:
  "bindE (bindE (for_loop [0..<n] (\<lambda>s i. MH_step pol cmp (draws i) s) (x0, [] @ [x0]))
            (\<lambda>(x, vec). Inr vec)) vec_last = Inr res \<longleftrightarrow>
   (\<exists>ds. MH_decisions pol cmp x0 draws n ds \<and> res = last (x0 # accepted ds))"
proof -
  have "bindE (bindE (for_loop [0..<n] (\<lambda>s i. MH_step pol cmp (draws i) s) (x0, [] @ [x0]))
            (\<lambda>(x, vec). Inr vec)) vec_last = Inr res \<longleftrightarrow>
        (\<exists>vec. (\<exists>ds. MH_decisions pol cmp x0 draws n ds \<and> vec = x0 # accepted ds)
           \<and> vec_last vec = Inr res)"
    unfolding bindE_eq_Inr [of _ vec_last] MH_vec_char ..
  also have "\<dots> \<longleftrightarrow> (\<exists>ds. MH_decisions pol cmp x0 draws n ds \<and> res = last (x0 # accepted ds))"
    by (auto simp: vec_last_def simp del: last.simps)
  finally show ?thesis .
qed

lemmas MH_sampler_defs =
  MH_Sampling_posterior_mu_jk_def MH_Sampling_posterior_mu_jk_vec_def
  MH_Sampling_posterior_sljk_def MH_Sampling_posterior_sljk_vec_def
  MH_Sampling_posterior_srjk_def MH_Sampling_posterior_srjk_vec_def
  MH_Sampling_posterior_delta_a_def MH_Sampling_posterior_delta_a_vec_def
  MH_Sampling_posterior_delta_b_def MH_Sampling_posterior_delta_b_vec_def

lemmas MH_iteration_eqs =
  MH_mu_jk_iteration_eq MH_sljk_iteration_eq MH_srjk_iteration_eq
  MH_delta_a_iteration_eq MH_delta_b_iteration_eq

lemma MH_mu_jk_char:
  "MH_Sampling_posterior_mu_jk_vec mu_jk s_ljk s_rjk r lam z j k X draws = Inr vec \<longleftrightarrow>
     (\<exists>ds. MH_decisions Unconstrained (\<lambda>c x. compare_mu_jk c x s_ljk s_rjk r lam z j k X)
              mu_jk draws 750 ds \<and> vec = mu_jk # accepted ds)"
  "MH_Sampling_posterior_mu_jk mu_jk s_ljk s_rjk r lam z j k X draws = Inr res \<longleftrightarrow>
     (\<exists>ds. MH_decisions Unconstrained (\<lambda>c x. compare_mu_jk c x s_ljk s_rjk r lam z j k X)
              mu_jk draws 750 ds \<and> res = last (mu_jk # accepted ds))"
  unfolding MH_sampler_defs Let_def MH_iteration_eqs by (rule MH_vec_char MH_result_char)+

lemma MH_sljk_char:
  "MH_Sampling_posterior_sljk_vec mu_jk s_ljk s_rjk beta w z j k X draws = Inr vec \<longleftrightarrow>
     (\<exists>ds. MH_decisions ReflectNonPositive (\<lambda>c x. compare_s_ljk c x mu_jk s_rjk beta w z j k X)
              s_ljk draws 750 ds \<and> vec = s_ljk # accepted ds)"
  "MH_Sampling_posterior_sljk mu_jk s_ljk s_rjk beta w z j k X draws = Inr res \<longleftrightarrow>
     (\<exists>ds. MH_decisions ReflectNonPositive (\<lambda>c x. compare_s_ljk c x mu_jk s_rjk beta w z j k X)
              s_ljk draws 750 ds \<and> res = last (s_ljk # accepted ds))"
  unfolding MH_sampler_defs Let_def MH_iteration_eqs by (rule MH_vec_char MH_result_char)+

lemma MH_srjk_char:
  "MH_Sampling_posterior_srjk_vec mu_jk s_ljk s_rjk beta w z j k X draws = Inr vec \<longleftrightarrow>
     (\<exists>ds. MH_decisions SkipNonPositive (\<lambda>c x. compare_s_rjk c x mu_jk s_ljk beta w z j k X)
              s_rjk draws 750 ds \<and> vec = s_rjk # accepted ds)"
  "MH_Sampling_posterior_srjk mu_jk s_ljk s_rjk beta w z j k X draws = Inr res \<longleftrightarrow>
     (\<exists>ds. MH_decisions SkipNonPositive (\<lambda>c x. compare_s_rjk c x mu_jk s_ljk beta w z j k X)
              s_rjk draws 750 ds \<and> res = last (s_rjk # accepted ds))"
  unfolding MH_sampler_defs Let_def MH_iteration_eqs by (rule MH_vec_char MH_result_char)+

lemma MH_delta_a_char:
  "MH_Sampling_posterior_delta_a_vec gammaln delta_a delta_b rho k M draws = Inr vec \<longleftrightarrow>
     (\<exists>ds. MH_decisions SkipNonPositive (\<lambda>c x. compare_delta_a gammaln c x delta_b rho k M)
              delta_a draws 750 ds \<and> vec = delta_a # accepted ds)"
  "MH_Sampling_posterior_delta_a gammaln delta_a delta_b rho k M draws = Inr res \<longleftrightarrow>
     (\<exists>ds. MH_decisions SkipNonPositive (\<lambda>c x. compare_delta_a gammaln c x delta_b rho k M)
              delta_a draws 750 ds \<and> res = last (delta_a # accepted ds))"
  unfolding MH_sampler_defs Let_def MH_iteration_eqs by (rule MH_vec_char MH_result_char)+

lemma MH_delta_b_char:
  "MH_Sampling_posterior_delta_b_vec gammaln delta_a delta_b rho k M draws = Inr vec \<longleftrightarrow>
     (\<exists>ds. MH_decisions SkipNonPositive (\<lambda>c x. compare_delta_b gammaln c x delta_a rho k M)
              delta_b draws 750 ds \<and> vec = delta_b # accepted ds)"
  "MH_Sampling_posterior_delta_b gammaln delta_a delta_b rho k M draws = Inr res \<longleftrightarrow>
     (\<exists>ds. MH_decisions SkipNonPositive (\<lambda>c x. compare_delta_b gammaln c x delta_a rho k M)
              delta_b draws 750 ds \<and> res = last (delta_b # accepted ds))"
  unfolding MH_sampler_defs Let_def MH_iteration_eqs by (rule MH_vec_char MH_result_char)+

lemma length_accepted: "length (accepted ds) \<le> length ds"
  by (induction ds rule: accepted.induct) simp_all

lemma set_accepted: "set (accepted ds) = {c. Some c \<in> set ds}"
  by (induction ds rule: accepted.induct) auto

text \<open>
  Claim C4. Each of the five samplers runs exactly 750 iterations, one decision each, every
  decision taken at the last value accepted before it. The trace \<open>vec\<close> is the starting
  value followed by the accepted candidates in order, so it grows only on an acceptance; the
  sampler returns the last element of the trace, which is the starting value when no
  proposal is accepted and otherwise the last accepted candidate. The loop is a recursion
  over the 750 indices, so the sampler always returns.
\<close>

theorem MH_samplers_follow_protocol:
  "(MH_Sampling_posterior_mu_jk_vec mu_jk s_ljk s_rjk r lam z j k X draws = Inr vec \<longleftrightarrow>
     (\<exists>ds. MH_decisions Unconstrained (\<lambda>c x. compare_mu_jk c x s_ljk s_rjk r lam z j k X)
              mu_jk draws 750 ds \<and> vec = mu_jk # accepted ds))
   \<and> (MH_Sampling_posterior_mu_jk mu_jk s_ljk s_rjk r lam z j k X draws = Inr res \<longleftrightarrow>
     (\<exists>ds. MH_decisions Unconstrained (\<lambda>c x. compare_mu_jk c x s_ljk s_rjk r lam z j k X)
              mu_jk draws 750 ds \<and> res = last (mu_jk # accepted ds)))
   \<and> (MH_Sampling_posterior_sljk_vec mu_jk s_ljk s_rjk beta w z j k X draws = Inr vec \<longleftrightarrow>
     (\<exists>ds. MH_decisions ReflectNonPositive (\<lambda>c x. compare_s_ljk c x mu_jk s_rjk beta w z j k X)
              s_ljk draws 750 ds \<and> vec = s_ljk # accepted ds))
   \<and> (MH_Sampling_posterior_sljk mu_jk s_ljk s_rjk beta w z j k X draws = Inr res \<longleftrightarrow>
     (\<exists>ds. MH_decisions ReflectNonPositive (\<lambda>c x. compare_s_ljk c x mu_jk s_rjk beta w z j k X)
              s_ljk draws 750 ds \<and> res = last (s_ljk # accepted ds)))
   \<and> (MH_Sampling_posterior_srjk_vec mu_jk s_ljk s_rjk beta w z j k X draws = Inr vec \<longleftrightarrow>
     (\<exists>ds. MH_decisions SkipNonPositive (\<lambda>c x. compare_s_rjk c x mu_jk s_ljk beta w z j k X)
              s_rjk draws 750 ds \<and> vec = s_rjk # accepted ds))
   \<and> (MH_Sampling_posterior_srjk mu_jk s_ljk s_rjk beta w z j k X draws = Inr res \<longleftrightarrow>
     (\<exists>ds. MH_decisions SkipNonPositive (\<lambda>c x. compare_s_rjk c x mu_jk s_ljk beta w z j k X)
              s_rjk draws 750 ds \<and> res = last (s_rjk # accepted ds)))
   \<and> (MH_Sampling_posterior_delta_a_vec gammaln delta_a delta_b rho k M draws = Inr vec \<longleftrightarrow>
     (\<exists>ds. MH_decisions SkipNonPositive (\<lambda>c x. compare_delta_a gammaln c x delta_b rho k M)
              delta_a draws 750 ds \<and> vec = delta_a # accepted ds))
   \<and> (MH_Sampling_posterior_delta_a gammaln delta_a delta_b rho k M draws = Inr res \<longleftrightarrow>
     (\<exists>ds. MH_decisions SkipNonPositive (\<lambda>c x. compare_delta_a gammaln c x delta_b rho k M)
              delta_a draws 750 ds \<and> res = last (delta_a # accepted ds)))
   \<and> (MH_Sampling_posterior_delta_b_vec gammaln delta_a delta_b rho k M draws = Inr vec \<longleftrightarrow>
     (\<exists>ds. MH_decisions SkipNonPositive (\<lambda>c x. compare_delta_b gammaln c x delta_a rho k M)
              delta_b draws 750 ds \<and> vec = delta_b # accepted ds))
   \<and> (MH_Sampling_posterior_delta_b gammaln delta_a delta_b rho k M draws = Inr res \<longleftrightarrow>
     (\<exists>ds. MH_decisions SkipNonPositive (\<lambda>c x. compare_delta_b gammaln c x delta_a rho k M)
              delta_b draws 750 ds \<and> res = last (delta_b # accepted ds)))
   \<and> (MH_decisions pol compare x0 draws 750 ds \<longrightarrow>
        length ds = 750
        \<and> length (x0 # accepted ds) \<le> 751
        \<and> (accepted ds = [] \<longrightarrow> last (x0 # accepted ds) = x0)
        \<and> (\<forall>c \<in> set (accepted ds). \<exists>i<750. ds ! i = Some c))"
proof -
  have general: "length ds = 750
        \<and> length (x0 # accepted ds) \<le> 751
        \<and> (accepted ds = [] \<longrightarrow> last (x0 # accepted ds) = x0)
        \<and> (\<forall>c \<in> set (accepted ds). \<exists>i<750. ds ! i = Some c)"
    if run: "MH_decisions pol compare x0 draws 750 ds"
  proof -
    have len: "length ds = 750"
      using run by (simp only: MH_decisions_iff)
    have "length (accepted ds) \<le> 750"
      using length_accepted [of ds] len by simp
    moreover have "\<exists>i<750. ds ! i = Some c" if "c \<in> set (accepted ds)" for c
      using that len by (simp add: set_accepted in_set_conv_nth)
    ultimately show ?thesis
      using len by simp
  qed
  then have part: "MH_decisions pol compare x0 draws 750 ds \<longrightarrow>
        length ds = 750
        \<and> length (x0 # accepted ds) \<le> 751
        \<and> (accepted ds = [] \<longrightarrow> last (x0 # accepted ds) = x0)
        \<and> (\<forall>c \<in> set (accepted ds). \<exists>i<750. ds ! i = Some c)"
    by (rule impI)
  show ?thesis
    by (intro conjI MH_mu_jk_char MH_sljk_char MH_srjk_char MH_delta_a_char MH_delta_b_char part)
qed

text \<open>Runs in which no proposal before the last one is accepted.\<close>

lemma MH_decisions_all_None:
  assumes "\<forall>i<n. MH_decision pol cmp (draws i) x0 = Inr None"
  shows "MH_decisions pol cmp x0 draws n (replicate n None)"
  using assms by (simp add: MH_decisions_iff accepted_replicate_None)

lemma MH_decisions_last_Some:
  assumes "\<forall>i<n. MH_decision pol cmp (draws i) x0 = Inr None"
    and "MH_decision pol cmp (draws n) x0 = Inr (Some c)"
  shows "MH_decisions pol cmp x0 draws (Suc n) (replicate n None @ [Some c])"
  unfolding MH_decisions_Suc
  using assms MH_decisions_all_None [of n pol cmp draws x0]
  by (simp add: accepted_replicate_None)

lemma MH_decision_Some:
  assumes "apply_policy pol (g_candidate d (Norm_dist x 0.75)) = Some c"
    and "cmp c x (g_prior d) = Inr ratio"
    and "np_random_uniform 0 1 (u01 d) < min 1 ratio"
  shows "MH_decision pol cmp d x = Inr (Some c)"
  using assms unfolding MH_decision_def norm_rvs_proposal bindE_Inr by simp

lemma MH_decision_None:
  assumes "apply_policy pol (g_candidate d (Norm_dist x 0.75)) = Some c"
    and "cmp c x (g_prior d) = Inr ratio"
    and "\<not> np_random_uniform 0 1 (u01 d) < min 1 ratio"
  shows "MH_decision pol cmp d x = Inr None"
  using assms unfolding MH_decision_def norm_rvs_proposal bindE_Inr by simp

lemma log_likelihood_single:
  "compare_mu_jk_log_likelihood c p s_l s_r [[[zv]]] 0 0 [[xv]] =
     Inr (0 + zv * (ln (AGD_pdf xv c s_l s_r) - ln (AGD_pdf xv p s_l s_r)))"
  "compare_s_ljk_log_likelihood c p mu s_r [[[zv]]] 0 0 [[xv]] =
     Inr (0 + zv * (ln (AGD_pdf xv mu c s_r) - ln (AGD_pdf xv mu p s_r)))"
  by (simp_all add: compare_mu_jk_log_likelihood_def compare_s_ljk_log_likelihood_def
      idx3_def idx2_def idx_def)

lemma min_one_exp_pos: "0 < min 1 (exp t * 1)" for t :: real
  by (simp add: min_def)

lemma MH_run_last_Some:
  assumes "m = Suc n"
    and "\<forall>i<n. MH_decision pol cmp (draws i) x0 = Inr None"
    and "MH_decision pol cmp (draws n) x0 = Inr (Some c)"
  shows "\<exists>ds. MH_decisions pol cmp x0 draws m ds \<and> accepted ds = [c]"
  unfolding assms(1) using MH_decisions_last_Some [OF assms(2,3)]
  by (intro exI [of _ "replicate n None @ [Some c]"])
    (simp add: accepted_append accepted_replicate_None)

theorem MH_samplers_follow_protocol_witness:
  "MH_Sampling_posterior_mu_jk_vec 0 1 1 [1] [0] [[[1]]] 0 0 [[0]]
     (\<lambda>i. if i = 749 then \<lparr>g_candidate = rvs_of_variate 1,
                  g_prior = (rvs_of_variate 1, rvs_of_variate 1), u01 = rvs_of_variate 0\<rparr>
          else \<lparr>g_candidate = rvs_of_variate 0,
                  g_prior = (rvs_of_variate 1, rvs_of_variate 4), u01 = rvs_of_variate (1 / 2)\<rparr>) = Inr [0, 3 / 4]
   \<and> MH_Sampling_posterior_mu_jk 0 1 1 [1] [0] [[[1]]] 0 0 [[0]]
     (\<lambda>i. if i = 749 then \<lparr>g_candidate = rvs_of_variate 1,
                  g_prior = (rvs_of_variate 1, rvs_of_variate 1), u01 = rvs_of_variate 0\<rparr>
          else \<lparr>g_candidate = rvs_of_variate 0,
                  g_prior = (rvs_of_variate 1, rvs_of_variate 4), u01 = rvs_of_variate (1 / 2)\<rparr>) = Inr (3 / 4)"
proof -
  define draws :: "nat \<Rightarrow> mh_draws" where
    "draws = (\<lambda>i. if i = 749 then \<lparr>g_candidate = rvs_of_variate 1,
                  g_prior = (rvs_of_variate 1, rvs_of_variate 1), u01 = rvs_of_variate 0\<rparr>
                  else \<lparr>g_candidate = rvs_of_variate 0,
                  g_prior = (rvs_of_variate 1, rvs_of_variate 4), u01 = rvs_of_variate (1 / 2)\<rparr>)"
  define cmp where "cmp = (\<lambda>c x. compare_mu_jk c x 1 1 [1] [0] [[[1]]] 0 0 [[0]])"
  have rej: "MH_decision Unconstrained cmp (draws i) 0 = Inr None" if "i < 749" for i
  proof (rule MH_decision_None)
    show "apply_policy Unconstrained (g_candidate (draws i) (Norm_dist 0 0.75)) = Some 0"
      using that by (simp add: draws_def)
    show "cmp 0 0 (g_prior (draws i)) = Inr (1 / 4)"
      using that by (simp add: cmp_def draws_def compare_mu_jk_eq_Inr log_likelihood_single)
    show "\<not> np_random_uniform 0 1 (u01 (draws i)) < min 1 (1 / 4)"
      using that by (simp add: draws_def np_random_uniform_def)
  qed
  have all_rej: "\<forall>i<749. MH_decision Unconstrained cmp (draws i) 0 = Inr None"
    using rej by blast
  have acc: "MH_decision Unconstrained cmp (draws 749) 0 = Inr (Some (3 / 4))"
  proof (rule MH_decision_Some)
    show "apply_policy Unconstrained (g_candidate (draws 749) (Norm_dist 0 0.75)) = Some (3 / 4)"
      by (simp add: draws_def)
    show "cmp (3 / 4) 0 (g_prior (draws 749)) =
            Inr (exp (0 + 1 * (ln (AGD_pdf 0 (3 / 4) 1 1) - ln (AGD_pdf 0 0 1 1))) * 1)"
      by (simp add: cmp_def draws_def compare_mu_jk_eq_Inr log_likelihood_single)
    show "np_random_uniform 0 1 (u01 (draws 749))
            < min 1 (exp (0 + 1 * (ln (AGD_pdf 0 (3 / 4) 1 1) - ln (AGD_pdf 0 0 1 1))) * 1)"
      using min_one_exp_pos by (simp add: draws_def np_random_uniform_def)
  qed
  have n: "(750::nat) = Suc 749"
    by simp
  obtain ds where run: "MH_decisions Unconstrained cmp 0 draws 750 ds"
    and ds: "accepted ds = [3 / 4]"
    using MH_run_last_Some [OF n all_rej acc] by blast
  have v: "\<exists>ds. MH_decisions Unconstrained cmp 0 draws 750 ds \<and> [0, 3 / 4] = 0 # accepted ds"
    using run ds by (intro exI [of _ ds]) simp
  have r: "\<exists>ds. MH_decisions Unconstrained cmp 0 draws 750 ds \<and> 3 / 4 = last (0 # accepted ds)"
    using run ds by (intro exI [of _ ds]) simp
  note inst = MH_samplers_follow_protocol [where mu_jk = 0 and s_ljk = 1 and s_rjk = 1 and r = "[1]"
        and lam = "[0]" and z = "[[[1]]]" and j = 0 and k = 0 and X = "[[0]]" and draws = draws
        and vec = "[0, 3 / 4]" and res = "3 / 4"]
  have "MH_Sampling_posterior_mu_jk_vec 0 1 1 [1] [0] [[[1]]] 0 0 [[0]] draws = Inr [0, 3 / 4]"
    using inst [THEN conjunct1] v unfolding cmp_def by (rule iffD2)
  moreover have "MH_Sampling_posterior_mu_jk 0 1 1 [1] [0] [[[1]]] 0 0 [[0]] draws = Inr (3 / 4)"
    using inst [THEN conjunct2, THEN conjunct1] r unfolding cmp_def by (rule iffD2)
  ultimately show ?thesis
    unfolding draws_def by (rule conjI)
qed
section \<open>The invalid-candidate policies\<close>

lemma log_likelihood_empty:
  "compare_s_ljk_log_likelihood c p mu s_r [] 0 0 [] = Inr 0"
  by (simp add: compare_s_ljk_log_likelihood_def)

text \<open>What the policies guarantee for an accepted candidate.\<close>

lemma MH_decision_Skip_positive:
  assumes "MH_decision SkipNonPositive cmp d x = Inr (Some c)"
  shows "0 < c"
  using assms unfolding MH_decision_def norm_rvs_proposal bindE_Inr
  by (auto simp: bindE_eq_Inr Let_def split: if_splits)

lemma MH_decision_Reflect_nonneg:
  assumes "MH_decision ReflectNonPositive cmp d x = Inr (Some c)"
  shows "0 \<le> c"
  using assms unfolding MH_decision_def norm_rvs_proposal bindE_Inr
  by (auto simp: bindE_eq_Inr Let_def split: if_splits)

lemma MH_decisions_accepted:
  assumes "MH_decisions pol cmp x0 draws n ds" and "c \<in> set (accepted ds)"
  shows "\<exists>i<n. \<exists>x. MH_decision pol cmp (draws i) x = Inr (Some c)"
proof -
  from assms(2) obtain i where "i < length ds" and "ds ! i = Some c"
    by (auto simp: set_accepted in_set_conv_nth)
  then show ?thesis
    using assms(1) unfolding MH_decisions_iff by metis
qed

lemma last_Cons_positive:
  fixes x0 :: real
  assumes "0 < x0" and "\<forall>c \<in> set cs. 0 < c"
  shows "0 < last (x0 # cs)"
  using assms by (cases cs rule: rev_cases) auto

lemma last_Cons_nonneg:
  fixes x0 :: real
  assumes "0 < x0" and "\<forall>c \<in> set cs. 0 \<le> c"
  shows "0 \<le> last (x0 # cs)"
  using assms by (cases cs rule: rev_cases) auto

lemma MH_Skip_result_positive:
  assumes "MH_decisions SkipNonPositive cmp x0 draws n ds" and "0 < x0"
  shows "0 < last (x0 # accepted ds)"
  using assms(2) MH_decisions_accepted [OF assms(1)] MH_decision_Skip_positive
  by (intro last_Cons_positive) blast+

lemma MH_Reflect_result_nonneg:
  assumes "MH_decisions ReflectNonPositive cmp x0 draws n ds" and "0 < x0"
  shows "0 \<le> last (x0 # accepted ds)"
  using assms(2) MH_decisions_accepted [OF assms(1)] MH_decision_Reflect_nonneg
  by (intro last_Cons_nonneg) blast+

text \<open>
  From a strictly positive starting value, the three samplers that skip a non-positive
  candidate return a strictly positive value, and the sampler of \<open>s_ljk\<close>, which reflects it,
  returns a non-negative one.
\<close>

lemma MH_skipping_samplers_positive:
  "0 < s_rjk \<Longrightarrow> MH_Sampling_posterior_srjk mu_jk s_ljk s_rjk beta w z j k X draws = Inr res
     \<Longrightarrow> 0 < res"
  "0 < delta_a \<Longrightarrow> MH_Sampling_posterior_delta_a gammaln delta_a delta_b rho k M draws = Inr res
     \<Longrightarrow> 0 < res"
  "0 < delta_b \<Longrightarrow> MH_Sampling_posterior_delta_b gammaln delta_a delta_b rho k M draws = Inr res
     \<Longrightarrow> 0 < res"
  unfolding MH_srjk_char MH_delta_a_char MH_delta_b_char
  using MH_Skip_result_positive by blast+

lemma MH_sljk_nonneg:
  "0 < s_ljk \<Longrightarrow> MH_Sampling_posterior_sljk mu_jk s_ljk s_rjk beta w z j k X draws = Inr res
     \<Longrightarrow> 0 \<le> res"
  unfolding MH_sljk_char using MH_Reflect_result_nonneg by blast

lemma MH_sljk_zero_run:
  fixes draws :: "nat \<Rightarrow> mh_draws"
  assumes draws: "draws = (\<lambda>i. if i = 749 then \<lparr>g_candidate = rvs_of_variate (- 1),
                  g_prior = (rvs_of_variate 1, rvs_of_variate 1), u01 = rvs_of_variate (1 / 2)\<rparr>
                               else \<lparr>g_candidate = rvs_of_variate 0,
                  g_prior = (rvs_of_variate 1, rvs_of_variate 4), u01 = rvs_of_variate (1 / 2)\<rparr>)"
    and same: "cmp (3 / 4) (3 / 4) (rvs_of_variate 1, rvs_of_variate 4) = Inr (1 / 4)"
    and zero: "cmp 0 (3 / 4) (rvs_of_variate 1, rvs_of_variate 1) = Inr 1"
  shows "\<exists>ds. MH_decisions ReflectNonPositive cmp (3 / 4) draws 750 ds
               \<and> 0 = last (3 / 4 # accepted ds)"
proof -
  have rej: "MH_decision ReflectNonPositive cmp (draws i) (3 / 4) = Inr None" if "i < 749" for i
  proof (rule MH_decision_None)
    show "apply_policy ReflectNonPositive (g_candidate (draws i) (Norm_dist (3 / 4) 0.75)) = Some (3 / 4)"
      using that by (simp add: draws)
    show "cmp (3 / 4) (3 / 4) (g_prior (draws i)) = Inr (1 / 4)"
      using that by (simp add: draws same)
    show "\<not> np_random_uniform 0 1 (u01 (draws i)) < min 1 (1 / 4)"
      using that by (simp add: draws np_random_uniform_def)
  qed
  have acc: "MH_decision ReflectNonPositive cmp (draws 749) (3 / 4) = Inr (Some 0)"
  proof (rule MH_decision_Some)
    show "apply_policy ReflectNonPositive (g_candidate (draws 749) (Norm_dist (3 / 4) 0.75)) = Some 0"
      by (simp add: draws)
    show "cmp 0 (3 / 4) (g_prior (draws 749)) = Inr 1"
      by (simp add: draws zero)
    show "np_random_uniform 0 1 (u01 (draws 749)) < min 1 1"
      by (simp add: draws np_random_uniform_def)
  qed
  have n: "(750::nat) = Suc 749"
    by simp
  have all_rej: "\<forall>i<749. MH_decision ReflectNonPositive cmp (draws i) (3 / 4) = Inr None"
    using rej by blast
  obtain ds where "MH_decisions ReflectNonPositive cmp (3 / 4) draws 750 ds"
    and "accepted ds = [0]"
    using MH_run_last_Some [OF n all_rej acc] by blast
  then show ?thesis
    by (intro exI [of _ ds]) simp
qed

text \<open>
  Claim C3 fails for \<open>s_ljk\<close>: the absolute value of a candidate that is exactly \<open>0\<close> is
  \<open>0\<close>. From the strictly positive starting value \<open>0.75\<close>, with the proposal variate \<open>-1\<close>
  in the last iteration (the candidate is \<open>-1 * 0.75 + 0.75 = 0\<close>), the sampler accepts the
  candidate \<open>0\<close> and returns it: once with one observation whose indicator \<open>z\<close> is \<open>0\<close>, once
  with no observation at all.
\<close>

theorem MH_Sampling_posterior_sljk_returns_zero:
  "MH_Sampling_posterior_sljk 0 (3 / 4) 1 [1] [1] [[[0]]] 0 0 [[0]]
     (\<lambda>i. if i = 749 then \<lparr>g_candidate = rvs_of_variate (- 1),
                  g_prior = (rvs_of_variate 1, rvs_of_variate 1), u01 = rvs_of_variate (1 / 2)\<rparr>
          else \<lparr>g_candidate = rvs_of_variate 0,
                  g_prior = (rvs_of_variate 1, rvs_of_variate 4), u01 = rvs_of_variate (1 / 2)\<rparr>) = Inr 0
   \<and> MH_Sampling_posterior_sljk 0 (3 / 4) 1 [1] [1] [] 0 0 []
     (\<lambda>i. if i = 749 then \<lparr>g_candidate = rvs_of_variate (- 1),
                  g_prior = (rvs_of_variate 1, rvs_of_variate 1), u01 = rvs_of_variate (1 / 2)\<rparr>
          else \<lparr>g_candidate = rvs_of_variate 0,
                  g_prior = (rvs_of_variate 1, rvs_of_variate 4), u01 = rvs_of_variate (1 / 2)\<rparr>) = Inr 0"
proof (rule conjI)
  show "MH_Sampling_posterior_sljk 0 (3 / 4) 1 [1] [1] [[[0]]] 0 0 [[0]]
     (\<lambda>i. if i = 749 then \<lparr>g_candidate = rvs_of_variate (- 1),
                  g_prior = (rvs_of_variate 1, rvs_of_variate 1), u01 = rvs_of_variate (1 / 2)\<rparr>
          else \<lparr>g_candidate = rvs_of_variate 0,
                  g_prior = (rvs_of_variate 1, rvs_of_variate 4), u01 = rvs_of_variate (1 / 2)\<rparr>) = Inr 0"
    unfolding MH_sljk_char
    by (rule MH_sljk_zero_run [OF refl])
      (simp_all add: compare_s_ljk_eq_Inr log_likelihood_single)
  show "MH_Sampling_posterior_sljk 0 (3 / 4) 1 [1] [1] [] 0 0 []
     (\<lambda>i. if i = 749 then \<lparr>g_candidate = rvs_of_variate (- 1),
                  g_prior = (rvs_of_variate 1, rvs_of_variate 1), u01 = rvs_of_variate (1 / 2)\<rparr>
          else \<lparr>g_candidate = rvs_of_variate 0,
                  g_prior = (rvs_of_variate 1, rvs_of_variate 4), u01 = rvs_of_variate (1 / 2)\<rparr>) = Inr 0"
    unfolding MH_sljk_char
    by (rule MH_sljk_zero_run [OF refl])
      (simp_all add: compare_s_ljk_eq_Inr log_likelihood_empty)
qed
section \<open>The integral approximation\<close>

lemma integral_approx_while_done:
  "\<not> i < size' \<Longrightarrow>
   integral_approx_while X lam r beta_l beta_r w_l w_r delta_a delta_b size' draws D i temp = Inr temp"
  by (subst integral_approx_while.simps) simp

lemma integral_approx_while_step:
  "i < size' \<Longrightarrow>
   integral_approx_while X lam r beta_l beta_r w_l w_r delta_a delta_b size' draws D i temp =
     bindE (integral_approx_iteration X lam r beta_l beta_r w_l w_r delta_a delta_b D (draws (nat i)) temp)
       (integral_approx_while X lam r beta_l beta_r w_l w_r delta_a delta_b size' draws D (i + 1))"
  by (subst integral_approx_while.simps) (simp add: bindE_def)

lemma integral_approx_unfold:
  "integral_approx X lam r beta_l beta_r w_l w_r delta_a delta_b size' draws =
     bindE (integral_approx_while X lam r beta_l beta_r w_l w_r delta_a delta_b size' draws
              (snd (shape X)) 0 (replicate (length (rows X)) 0))
       (\<lambda>temp. Inr (map (\<lambda>t. np_true_divide t (real_of_int size')) temp))"
  by (simp add: integral_approx_def case_prod_beta)

text \<open>
  Claim C10. With \<open>size = 0\<close> the sampling loop of \<open>integral_approx\<close> does not run (the
  loop returns the accumulator it is given and no draw is read), and the function returns
  the all-zeros accumulator divided entry by entry by zero: one \<open>0/0\<close>, a NaN, for each
  observation. No error is raised and no estimate is returned.
\<close>

theorem integral_approx_size_zero:
  "integral_approx_while X lam r beta_l beta_r w_l w_r delta_a delta_b 0 draws D 0 temp = Inr temp
   \<and> integral_approx X lam r beta_l beta_r w_l w_r delta_a delta_b 0 draws =
       Inr (map (\<lambda>t. np_true_divide t (real_of_int 0)) (replicate (length (rows X)) 0))
   \<and> map (\<lambda>t. np_true_divide t (real_of_int 0)) (replicate (length (rows X)) 0) =
       replicate (length (rows X)) NaN"
  by (simp add: integral_approx_unfold integral_approx_while_done np_true_divide_def)

theorem integral_approx_size_zero_witness:
  "integral_approx \<lparr>shape = (2, 1), rows = [[0], [1]]\<rparr> [0] [1] [1] [1] [1] [1] [1] [1] 0
     (\<lambda>i. \<lparr>mv_mu = (\<lambda>mean cov k. 0), g_s_l = (\<lambda>k. rvs_of_variate 1),
            g_s_r = (\<lambda>k. rvs_of_variate 1), mv_mu_irr = (\<lambda>mean cov k. 0),
            g_s_l_irr = (\<lambda>k. rvs_of_variate 1), g_s_r_irr = (\<lambda>k. rvs_of_variate 1),
            beta_rho = (\<lambda>a b. [])\<rparr>) = Inr [NaN, NaN]"
  using integral_approx_size_zero [of "\<lparr>shape = (2, 1), rows = [[0], [1]]\<rparr>" "[0]" "[1]" "[1]"
      "[1]" "[1]" "[1]" "[1]" "[1]"
      "(\<lambda>i. \<lparr>mv_mu = (\<lambda>mean cov k. 0), g_s_l = (\<lambda>k. rvs_of_variate 1),
            g_s_r = (\<lambda>k. rvs_of_variate 1), mv_mu_irr = (\<lambda>mean cov k. 0),
            g_s_l_irr = (\<lambda>k. rvs_of_variate 1), g_s_r_irr = (\<lambda>k. rvs_of_variate 1),
            beta_rho = (\<lambda>a b. [])\<rparr>)"]
  by (simp add: numeral_2_eq_2)
section \<open>The responsibility tensor\<close>

lemma upt_0_1: "[0..<1] = [0]"
  by simp

lemma AGD_pdf_unit_nonzero: "AGD_pdf 0 0 1 1 \<noteq> 0"
  using AGD_pdf_pos [of 1 1 0 0] by simp

lemma feature_selction_example:
  "AGD_pdf_feature_selction [0] 0 1 [[1], [1]] [[0], [0]] [[1], [1]] [[1], [1]] [[0], [0]]
     [[1], [1]] [[1], [1]] = Inr (AGD_pdf 0 0 1 1)"
  "AGD_pdf_feature_selction [0] 1 1 [[1], [1]] [[0], [0]] [[1], [1]] [[1], [1]] [[0], [0]]
     [[1], [1]] [[1], [1]] = Inr (AGD_pdf 0 0 1 1)"
  by (simp_all add: AGD_pdf_feature_selction_def idx2_def idx_def)

lemmas feature_selction_example_Suc = feature_selction_example [unfolded One_nat_def]

lemma in_range2D:
  "in_range2 a M D \<Longrightarrow> j < M \<Longrightarrow> k < D \<Longrightarrow> idx2 a j k = Inr (a ! j ! k)"
  by (auto simp add: in_range2_def intro!: idx2_in_range)

lemma AGD_pdf_feature_selction_eq:
  assumes "in_range2 rho M D" "in_range2 mu M D" "in_range2 s_l M D" "in_range2 s_r M D"
    "in_range2 mu_irr M D" "in_range2 s_l_irr M D" "in_range2 s_r_irr M D"
    and "D \<le> length x" and "j < M"
  shows "AGD_pdf_feature_selction x j D rho mu s_l s_r mu_irr s_l_irr s_r_irr =
           Inr (mixture_product x j D rho mu s_l s_r mu_irr s_l_irr s_r_irr)"
proof -
  have "AGD_pdf_feature_selction x j D rho mu s_l s_r mu_irr s_l_irr s_r_irr =
      Inr (1 * prod_list (map (\<lambda>k. rho ! j ! k * AGD_pdf (x ! k) (mu ! j ! k) (s_l ! j ! k) (s_r ! j ! k)
             + (1 - rho ! j ! k)
               * AGD_pdf (x ! k) (mu_irr ! j ! k) (s_l_irr ! j ! k) (s_r_irr ! j ! k)) [0..<D]))"
    unfolding AGD_pdf_feature_selction_def
    using assms by (intro for_loop_mult) (simp add: in_range2D idx_in_range)
  then show ?thesis
    by (simp add: mixture_product_def prod_list_upt_lessThan)
qed

lemma for_loop_fill_k:
  assumes "\<And>pz k. k < D \<Longrightarrow> body pz k = Inr (pz[i := (pz ! i)[j := (pz ! i ! j)[k := f k]]])"
    and "i < length pz" and "j < length (pz ! i)" and "length (pz ! i ! j) = D"
  shows "for_loop [0..<D] body pz = Inr (pz[i := (pz ! i)[j := map f [0..<D]]])"
proof -
  have "for_loop [0..<D] body ((\<lambda>l. pz[i := (pz ! i)[j := l]]) (pz ! i ! j)) =
          Inr ((\<lambda>l. pz[i := (pz ! i)[j := l]]) (map f [0..<D]))"
    using assms
    by (intro for_loop_fill_at [where Q = "\<lambda>l. True" and put = "\<lambda>l. pz[i := (pz ! i)[j := l]]"
          and f = f and ?l0.0 = "pz ! i ! j" and n = D]) simp_all
  then show ?thesis
    by simp
qed

lemma for_loop_fill_j:
  assumes "\<And>pz j. j < M \<Longrightarrow> i < length pz \<Longrightarrow> length (pz ! i) = M \<Longrightarrow> length (pz ! i ! j) = D
             \<Longrightarrow> body pz j = Inr (pz[i := (pz ! i)[j := F j]])"
    and "\<And>j. j < M \<Longrightarrow> length (F j) = D"
    and "i < length pz" and "length (pz ! i) = M" and "\<forall>j<M. length (pz ! i ! j) = D"
  shows "for_loop [0..<M] body pz = Inr (pz[i := map F [0..<M]])"
proof -
  have "for_loop [0..<M] body ((\<lambda>l. pz[i := l]) (pz ! i)) = Inr ((\<lambda>l. pz[i := l]) (map F [0..<M]))"
  proof (rule for_loop_fill_at [where Q = "\<lambda>l. \<forall>j<M. length (l ! j) = D"
        and put = "\<lambda>l. pz[i := l]" and f = F and ?l0.0 = "pz ! i" and n = M])
    fix l :: "'a list list" and k
    assume l: "\<forall>j<M. length (l ! j) = D" "length l = M" and k: "k < M"
    show "body (pz[i := l]) k = Inr (pz[i := l[k := F k]])"
      using assms(1) [of k "pz[i := l]"] l k assms(3) by simp
  next
    fix l :: "'a list list" and k
    assume l: "\<forall>j<M. length (l ! j) = D" "length l = M" and k: "k < M"
    show "\<forall>j<M. length (l[k := F k] ! j) = D"
      using l k assms(2) by (simp add: nth_list_update)
  qed (use assms in simp_all)
  then show ?thesis
    by simp
qed

lemma for_loop_fill_i:
  assumes "\<And>pz i. i < N \<Longrightarrow> length pz = N \<Longrightarrow> length (pz ! i) = M \<Longrightarrow> \<forall>j<M. length (pz ! i ! j) = D
             \<Longrightarrow> body pz i = Inr (pz[i := G i])"
    and "\<And>i. i < N \<Longrightarrow> length (G i) = M \<and> (\<forall>j<M. length (G i ! j) = D)"
    and "length pz = N" and "\<forall>i<N. length (pz ! i) = M \<and> (\<forall>j<M. length (pz ! i ! j) = D)"
  shows "for_loop [0..<N] body pz = Inr (map G [0..<N])"
proof -
  have "for_loop [0..<N] body ((\<lambda>l. l) pz) = Inr ((\<lambda>l. l) (map G [0..<N]))"
  proof (rule for_loop_fill_at
      [where Q = "\<lambda>l. \<forall>i<N. length (l ! i) = M \<and> (\<forall>j<M. length (l ! i ! j) = D)"
        and put = "\<lambda>l. l" and f = G and ?l0.0 = pz and n = N])
    fix l :: "'a list list list" and k
    assume l: "\<forall>i<N. length (l ! i) = M \<and> (\<forall>j<M. length (l ! i ! j) = D)" "length l = N"
      and k: "k < N"
    show "body l k = Inr (l[k := G k])"
      using assms(1) [of k l] l k by simp
  next
    fix l :: "'a list list list" and k
    assume l: "\<forall>i<N. length (l ! i) = M \<and> (\<forall>j<M. length (l ! i ! j) = D)" "length l = N"
      and k: "k < N"
    show "\<forall>i<N. length (l[k := G k] ! i) = M \<and> (\<forall>j<M. length (l[k := G k] ! i ! j) = D)"
      using l k assms(2) by (simp add: nth_list_update)
  qed (use assms in simp_all)
  then show ?thesis
    by simp
qed

text \<open>
  What the function computes when every index is in range and there is at least one
  component: the cluster-weight factor of every entry \<open>[i, j, k]\<close> is the one of the last
  component, \<open>M - 1\<close>, whatever \<open>j\<close> is.
\<close>

lemma draw_posterior_z_eq:
  assumes rho: "in_range2 rho M D" and mu: "in_range2 mu M D" and s_l: "in_range2 s_l M D"
    and s_r: "in_range2 s_r M D" and mu_irr: "in_range2 mu_irr M D"
    and s_l_irr: "in_range2 s_l_irr M D" and s_r_irr: "in_range2 s_r_irr M D"
    and X: "in_range2 X N D" and pi': "M \<le> length pi'" and M: "0 < M"
  shows "draw_posterior_z X pi' rho mu s_l s_r mu_irr s_l_irr s_r_irr N M D =
     Inr (map (\<lambda>i. map (\<lambda>j. map (\<lambda>k.
            rho ! j ! k * AGD_pdf (X ! i ! k) (mu ! j ! k) (s_l ! j ! k) (s_r ! j ! k)
            * (pi' ! (M - 1)
               * mixture_product (X ! i) (M - 1) D rho mu s_l s_r mu_irr s_l_irr s_r_irr))
          [0..<D]) [0..<M]) [0..<N])"
proof -
  define W where
    "W i = pi' ! (M - 1) * mixture_product (X ! i) (M - 1) D rho mu s_l s_r mu_irr s_l_irr s_r_irr"
    for i
  define Z where "Z = map (\<lambda>i. replicate M (W i)) [0..<N]"
  have X_row: "idx X i = Inr (X ! i)" "D \<le> length (X ! i)" if "i < N" for i
    using X that by (simp_all add: in_range2_def idx_in_range)
  have X_entry: "idx2 X i k = Inr (X ! i ! k)" if "i < N" "k < D" for i k
    using X that by (rule in_range2D)
  have phase1:
    "for_loop [0..<N] (\<lambda>Z_ij_posteriors i.
       for_loop [0..<M] (\<lambda>Z_ij_posteriors j.
         bindE (idx pi' j) (\<lambda>pi_j.
         bindE (idx X i) (\<lambda>X_i.
         bindE (AGD_pdf_feature_selction X_i j D rho mu s_l s_r mu_irr s_l_irr s_r_irr)
           (\<lambda>y.
         Inr (Z_ij_posteriors[i := replicate M (pi_j * y)])))))
         Z_ij_posteriors) (replicate N (replicate M 0)) = Inr Z"
    unfolding Z_def
  proof (rule for_loop_fill)
    fix res :: "real list list" and i
    assume i: "i < N"
    have "for_loop [0..<M] (\<lambda>Z_ij_posteriors j.
         bindE (idx pi' j) (\<lambda>pi_j.
         bindE (idx X i) (\<lambda>X_i.
         bindE (AGD_pdf_feature_selction X_i j D rho mu s_l s_r mu_irr s_l_irr s_r_irr)
           (\<lambda>y.
         Inr (Z_ij_posteriors[i := replicate M (pi_j * y)]))))) res =
       Inr (if M = 0 then res else res[i := (\<lambda>j. replicate M (pi' ! j
              * mixture_product (X ! i) j D rho mu s_l s_r mu_irr s_l_irr s_r_irr)) (M - 1)])"
      using pi' X_row [OF i]
        AGD_pdf_feature_selction_eq [OF rho mu s_l s_r mu_irr s_l_irr s_r_irr X_row(2) [OF i]]
      by (intro for_loop_overwrite) (simp add: idx_in_range)
    then show "for_loop [0..<M] (\<lambda>Z_ij_posteriors j.
         bindE (idx pi' j) (\<lambda>pi_j.
         bindE (idx X i) (\<lambda>X_i.
         bindE (AGD_pdf_feature_selction X_i j D rho mu s_l s_r mu_irr s_l_irr s_r_irr)
           (\<lambda>y.
         Inr (Z_ij_posteriors[i := replicate M (pi_j * y)]))))) res =
       Inr (res[i := replicate M (W i)])"
      using M by (simp add: W_def)
  qed simp
  have Z_entry: "idx2 Z i j = Inr (W i)" if "i < N" "j < M" for i j
    using that by (simp add: Z_def idx2_in_range)
  have phase2:
    "for_loop [0..<N] (\<lambda>posterior_z i.
        for_loop [0..<M] (\<lambda>posterior_z j.
          for_loop [0..<D] (\<lambda>posterior_z k.
            bindE (idx2 rho j k) (\<lambda>rho_jk.
            bindE (idx2 X i k) (\<lambda>X_ik.
            bindE (idx2 mu j k) (\<lambda>mu_jk.
            bindE (idx2 s_l j k) (\<lambda>s_ljk.
            bindE (idx2 s_r j k) (\<lambda>s_rjk.
            bindE (idx2 Z i j) (\<lambda>Z_ij.
            Inr (posterior_z[i := (posterior_z ! i)[j := (posterior_z ! i ! j)
                   [k := rho_jk * AGD_pdf X_ik mu_jk s_ljk s_rjk * Z_ij]]]))))))))
            posterior_z) posterior_z) (replicate N (replicate M (replicate D 0))) =
     Inr (map (\<lambda>i. map (\<lambda>j. map (\<lambda>k.
            rho ! j ! k * AGD_pdf (X ! i ! k) (mu ! j ! k) (s_l ! j ! k) (s_r ! j ! k) * W i)
          [0..<D]) [0..<M]) [0..<N])"
  proof (rule for_loop_fill_i [where M = M and D = D])
    fix pz :: "real list list list" and i
    assume i: "i < N" and pz: "length pz = N" "length (pz ! i) = M"
      "\<forall>j<M. length (pz ! i ! j) = D"
    show "for_loop [0..<M] (\<lambda>posterior_z j.
          for_loop [0..<D] (\<lambda>posterior_z k.
            bindE (idx2 rho j k) (\<lambda>rho_jk.
            bindE (idx2 X i k) (\<lambda>X_ik.
            bindE (idx2 mu j k) (\<lambda>mu_jk.
            bindE (idx2 s_l j k) (\<lambda>s_ljk.
            bindE (idx2 s_r j k) (\<lambda>s_rjk.
            bindE (idx2 Z i j) (\<lambda>Z_ij.
            Inr (posterior_z[i := (posterior_z ! i)[j := (posterior_z ! i ! j)
                   [k := rho_jk * AGD_pdf X_ik mu_jk s_ljk s_rjk * Z_ij]]]))))))))
            posterior_z) pz =
      Inr (pz[i := map (\<lambda>j. map (\<lambda>k.
            rho ! j ! k * AGD_pdf (X ! i ! k) (mu ! j ! k) (s_l ! j ! k) (s_r ! j ! k) * W i)
          [0..<D]) [0..<M]])"
    proof (rule for_loop_fill_j [where D = D])
      fix pz' :: "real list list list" and j
      assume j: "j < M" and pz': "i < length pz'" "length (pz' ! i) = M"
        "length (pz' ! i ! j) = D"
      show "for_loop [0..<D] (\<lambda>posterior_z k.
            bindE (idx2 rho j k) (\<lambda>rho_jk.
            bindE (idx2 X i k) (\<lambda>X_ik.
            bindE (idx2 mu j k) (\<lambda>mu_jk.
            bindE (idx2 s_l j k) (\<lambda>s_ljk.
            bindE (idx2 s_r j k) (\<lambda>s_rjk.
            bindE (idx2 Z i j) (\<lambda>Z_ij.
            Inr (posterior_z[i := (posterior_z ! i)[j := (posterior_z ! i ! j)
                   [k := rho_jk * AGD_pdf X_ik mu_jk s_ljk s_rjk * Z_ij]]])))))))) pz' =
        Inr (pz'[i := (pz' ! i)[j := map (\<lambda>k.
            rho ! j ! k * AGD_pdf (X ! i ! k) (mu ! j ! k) (s_l ! j ! k) (s_r ! j ! k) * W i)
          [0..<D]]])"
        using j pz' i
        by (intro for_loop_fill_k)
          (simp_all add: in_range2D [OF rho] in_range2D [OF mu] in_range2D [OF s_l]
            in_range2D [OF s_r] X_entry Z_entry)
    qed (use i pz in simp_all)
  qed simp_all
  show ?thesis
    unfolding draw_posterior_z_def Let_def phase1 bindE_Inr phase2 W_def ..
qed

text \<open>
  Claim C1 fails on the code. With one observation, two components of weights \<open>pi = [1, 2]\<close>
  and one feature, the entry \<open>[0,0,0]\<close> of the tensor is
  \<open>rho[0,0] * AGD_pdf (...) * (pi[1] * AGD_pdf_feature_selction (X[0], 1, ...))\<close>: its
  cluster-weight factor is the one of component \<open>1\<close>, the last component, not the one of
  component \<open>0\<close>, because the first pair of loops overwrites the whole row
  \<open>Z_ij_posteriors[i]\<close> at every \<open>j\<close>. The lemma above shows the same for every input whose
  indices are in range.
\<close>

theorem draw_posterior_z_uses_last_component_weight:
  "draw_posterior_z [[0]] [1, 2] [[1], [1]] [[0], [0]] [[1], [1]] [[1], [1]] [[0], [0]]
     [[1], [1]] [[1], [1]] 1 2 1 =
     Inr [[[1 * AGD_pdf 0 0 1 1 * (2 * AGD_pdf 0 0 1 1)],
           [1 * AGD_pdf 0 0 1 1 * (2 * AGD_pdf 0 0 1 1)]]]
   \<and> AGD_pdf_feature_selction [0] 0 1 [[1], [1]] [[0], [0]] [[1], [1]] [[1], [1]] [[0], [0]]
       [[1], [1]] [[1], [1]] = Inr (AGD_pdf 0 0 1 1)
   \<and> 1 * AGD_pdf 0 0 1 1 * (2 * AGD_pdf 0 0 1 1) \<noteq> 1 * AGD_pdf 0 0 1 1 * (1 * AGD_pdf 0 0 1 1)"
proof (intro conjI)
  show "draw_posterior_z [[0]] [1, 2] [[1], [1]] [[0], [0]] [[1], [1]] [[1], [1]] [[0], [0]]
     [[1], [1]] [[1], [1]] 1 2 1 =
     Inr [[[1 * AGD_pdf 0 0 1 1 * (2 * AGD_pdf 0 0 1 1)],
           [1 * AGD_pdf 0 0 1 1 * (2 * AGD_pdf 0 0 1 1)]]]"
    unfolding draw_posterior_z_def Let_def upt_0_1 upt_0_2
    by (simp add: feature_selction_example_Suc idx2_def idx_def numeral_2_eq_2)
  show "AGD_pdf_feature_selction [0] 0 1 [[1], [1]] [[0], [0]] [[1], [1]] [[1], [1]] [[0], [0]]
       [[1], [1]] [[1], [1]] = Inr (AGD_pdf 0 0 1 1)"
    by (rule feature_selction_example)
  show "1 * AGD_pdf 0 0 1 1 * (2 * AGD_pdf 0 0 1 1) \<noteq> 1 * AGD_pdf 0 0 1 1 * (1 * AGD_pdf 0 0 1 1)"
    using AGD_pdf_unit_nonzero by simp
qed
section \<open>The indicator draw\<close>

lemma hits_enumerate:
  "map fst (filter snd (enumerate n bs)) = filter (\<lambda>i. bs ! (i - n)) [n..<n + length bs]"
proof (induction bs arbitrary: n)
  case Nil
  show ?case by simp
next
  case (Cons b bs)
  have range: "[n..<n + length (b # bs)] = n # [Suc n..<Suc n + length bs]"
    by (subst upt_rec) simp
  have tail: "filter (\<lambda>i. (b' # bs) ! (i - n)) [Suc n..<Suc n + length bs]
        = filter (\<lambda>i. bs ! (i - Suc n)) [Suc n..<Suc n + length bs]" for b'
    by (intro filter_cong refl) (auto simp: nth_Cons' Suc_diff_le)
  have head: "(b' # bs) ! (n - n) = b'" for b'
    by simp
  show ?case
    unfolding range
    by (cases b)
      (simp_all only: enumerate_simps filter.simps snd_conv fst_conv list.map head if_True
        if_False Cons.IH [of "Suc n"] tail)
qed

lemma hits_first_index:
  "map fst (filter snd (enumerate 0 (map P c))) = filter (\<lambda>i. P (c ! i)) [0..<length c]"
  unfolding hits_enumerate by (intro filter_cong) simp_all

lemma case_filter_find:
  "(case filter P xs of [] \<Rightarrow> a | x # _ \<Rightarrow> f x) = (case List.find P xs of None \<Rightarrow> a | Some x \<Rightarrow> f x)"
  by (induction xs) simp_all

lemma length_np_cumsum: "length (np_cumsum xs) = length xs"
  by (simp add: np_cumsum_def)

lemma length_column: "length (column a k) = length (rows a)"
  by (simp add: column_def)

lemma draw_indicator_body:
  assumes "wf_array2d pvec" and "shape pvec = (M, N)" and "1 \<le> M"
  shows "(let c = np_cumsum (column pvec j) in
        bindE (last_item c) (\<lambda>c_last.
        let R = np_random_uniform 0 c_last (u_R (draws j));
            r = map (\<lambda>v. v - R > 0) c;
            y = map fst (filter snd (enumerate 0 r))
        in (case y of
              i # _ \<Rightarrow> Inr (res[j := real i])
            | [] \<Rightarrow>
                bindE (np_random_randint 0 (int (fst (shape pvec))) (raw_index (draws j))) (\<lambda>m.
                Inr (res[j := m])))))
       = Inr (res[j := indicator_entry pvec (draws j) j])"
proof -
  define c where "c = np_cumsum (column pvec j)"
  define R where "R = u_R (draws j) (Uniform_dist 0 (last c))"
  have "length c = M"
    using assms(1,2) by (simp add: c_def length_np_cumsum length_column wf_array2d_def)
  then have c: "last_item c = Inr (last c)"
    using assms(3) by (auto simp: last_item_def)
  have rnd: "np_random_randint 0 (int (fst (shape pvec))) g = Inr (g (Randint_dist 0 (int M)))"
    for g
    using assms(2,3) by (simp add: np_random_randint_def)
  have "(case map fst (filter snd (enumerate 0 (map (\<lambda>v. v - R > 0) c))) of
           i # _ \<Rightarrow> Inr (res[j := real i])
         | [] \<Rightarrow> Inr (res[j := raw_index (draws j) (Randint_dist 0 (int M))]))
        = Inr (res[j := indicator_entry pvec (draws j) j])"
    unfolding hits_first_index case_filter_find indicator_entry_def Let_def
      c_def [symmetric] R_def [symmetric]
    using assms(2) by (simp split: option.splits)
  then show ?thesis
    unfolding Let_def c_def [symmetric] c bindE_Inr np_random_uniform_def R_def [symmetric] rnd
      bindE_Inr .
qed

lemma sum_list_zero: "(\<forall>x \<in> set xs. x = 0) \<Longrightarrow> sum_list xs = 0" for xs :: "real list"
  by (induction xs) simp_all

lemma np_cumsum_zero:
  assumes "\<forall>x \<in> set xs. x = 0"
  shows "\<forall>v \<in> set (np_cumsum xs). v = 0"
proof -
  have "sum_list (take (Suc n) xs) = 0" for n
    using assms by (intro sum_list_zero) (auto dest: in_set_takeD)
  then show ?thesis
    by (simp add: np_cumsum_def)
qed

lemma indicator_entry_first:
  assumes "i < length (np_cumsum (column pvec j))"
    and "np_cumsum (column pvec j) ! i
           - u_R d (Uniform_dist 0 (last (np_cumsum (column pvec j)))) > 0"
    and "\<forall>i'<i. \<not> np_cumsum (column pvec j) ! i'
           - u_R d (Uniform_dist 0 (last (np_cumsum (column pvec j)))) > 0"
  shows "indicator_entry pvec d j = real i"
proof -
  define c where "c = np_cumsum (column pvec j)"
  define R where "R = u_R d (Uniform_dist 0 (last c))"
  have "List.find (\<lambda>i. c ! i - R > 0) [0..<length c] = Some i"
    unfolding find_Some_iff
    using assms unfolding c_def [symmetric] R_def [symmetric]
    by (intro exI [of _ i]) simp
  then show ?thesis
    unfolding indicator_entry_def Let_def c_def [symmetric] R_def [symmetric] by simp
qed

lemma indicator_entry_none:
  assumes "\<forall>i<length (np_cumsum (column pvec j)). \<not> np_cumsum (column pvec j) ! i
           - u_R d (Uniform_dist 0 (last (np_cumsum (column pvec j)))) > 0"
  shows "indicator_entry pvec d j = raw_index d (Randint_dist 0 (int (fst (shape pvec))))"
proof -
  define c where "c = np_cumsum (column pvec j)"
  define R where "R = u_R d (Uniform_dist 0 (last c))"
  have "List.find (\<lambda>i. c ! i - R > 0) [0..<length c] = None"
    using assms unfolding c_def [symmetric] R_def [symmetric] by (simp add: find_None_iff)
  then show ?thesis
    unfolding indicator_entry_def Let_def c_def [symmetric] R_def [symmetric] by simp
qed

text \<open>In a column of zeros the cumulative sum is zero, \<open>R\<close> is drawn from \<open>Uniform (0, 0)\<close>,
  and no entry of \<open>c - R\<close> is positive.\<close>

lemma zero_column_no_hit:
  assumes "\<forall>x \<in> set (column pvec j). x = 0"
    and "np_cumsum (column pvec j) \<noteq> []"
    and "in_support (Uniform_dist 0 0) (u_R d (Uniform_dist 0 0))"
  shows "last (np_cumsum (column pvec j)) = 0"
    and "\<forall>i<length (np_cumsum (column pvec j)). \<not> np_cumsum (column pvec j) ! i
           - u_R d (Uniform_dist 0 (last (np_cumsum (column pvec j)))) > 0"
proof -
  define c where "c = np_cumsum (column pvec j)"
  have zero: "\<forall>v \<in> set c. v = 0"
    unfolding c_def using assms(1) by (rule np_cumsum_zero)
  have "c \<noteq> []"
    using assms(2) by (simp add: c_def)
  then show last: "last (np_cumsum (column pvec j)) = 0"
    using zero last_in_set unfolding c_def by blast
  have R: "u_R d (Uniform_dist 0 0) = 0"
    using assms(3) by simp
  have "\<not> c ! i - u_R d (Uniform_dist 0 0) > 0" if "i < length c" for i
  proof -
    have "c ! i = 0"
      using zero that by simp
    then show ?thesis
      by (simp add: R)
  qed
  then show "\<forall>i<length (np_cumsum (column pvec j)). \<not> np_cumsum (column pvec j) ! i
           - u_R d (Uniform_dist 0 (last (np_cumsum (column pvec j)))) > 0"
    unfolding last unfolding c_def by blast
qed

lemma randint_index:
  assumes "in_support (Randint_dist 0 (int M)) v"
  shows "\<exists>m<M. v = real m"
proof -
  have v: "v = of_int \<lfloor>v\<rfloor>" and lo: "0 \<le> \<lfloor>v\<rfloor>" and hi: "\<lfloor>v\<rfloor> < int M"
    using assms by simp_all
  have "nat \<lfloor>v\<rfloor> < M"
    using lo hi by linarith
  moreover have "v = real (nat \<lfloor>v\<rfloor>)"
    using v lo by (metis of_nat_nat)
  ultimately show ?thesis
    by blast
qed

text \<open>
  Claim C7. For a well-formed weight matrix with \<open>M \<ge> 1\<close> rows and \<open>N\<close> columns,
  \<open>draw_indicator\<close> returns a vector of \<open>N\<close> entries and raises no error. With \<open>c\<close> the
  cumulative sum of column \<open>j\<close> and \<open>R\<close> the draw the generator returns for
  \<open>Uniform (0, c[last])\<close>, entry \<open>j\<close> is the first row index \<open>i\<close> with \<open>c[i] - R > 0\<close>. When
  there is no such index, the entry is the draw the generator returns for the uniform
  distribution on the integers \<open>0, ..., M - 1\<close>, which is one of these indices. A column of
  zeros is such a column: its cumulative sum is zero and \<open>R\<close>, drawn from \<open>Uniform (0, 0)\<close>, is
  zero.
\<close>

theorem draw_indicator_entries:
  assumes "wf_array2d pvec" and "shape pvec = (M, N)" and "1 \<le> M"
  shows "draw_indicator pvec draws = Inr (map (\<lambda>j. indicator_entry pvec (draws j) j) [0..<N])
    \<and> length (map (\<lambda>j. indicator_entry pvec (draws j) j) [0..<N]) = N
    \<and> (\<forall>j<N. \<forall>i<M.
          np_cumsum (column pvec j) ! i
            - u_R (draws j) (Uniform_dist 0 (last (np_cumsum (column pvec j)))) > 0
          \<and> (\<forall>i'<i. \<not> np_cumsum (column pvec j) ! i'
                - u_R (draws j) (Uniform_dist 0 (last (np_cumsum (column pvec j)))) > 0)
          \<longrightarrow> indicator_entry pvec (draws j) j = real i)
    \<and> (\<forall>j<N. (\<forall>i<M. \<not> np_cumsum (column pvec j) ! i
                - u_R (draws j) (Uniform_dist 0 (last (np_cumsum (column pvec j)))) > 0)
          \<longrightarrow> indicator_entry pvec (draws j) j = raw_index (draws j) (Randint_dist 0 (int M)))
    \<and> (\<forall>j<N. in_support (Randint_dist 0 (int M)) (raw_index (draws j) (Randint_dist 0 (int M)))
          \<longrightarrow> (\<exists>m<M. raw_index (draws j) (Randint_dist 0 (int M)) = real m))
    \<and> (\<forall>j<N. (\<forall>i<M. rows pvec ! i ! j = 0)
              \<and> in_support (Uniform_dist 0 0) (u_R (draws j) (Uniform_dist 0 0))
          \<longrightarrow> last (np_cumsum (column pvec j)) = 0
              \<and> indicator_entry pvec (draws j) j = raw_index (draws j) (Randint_dist 0 (int M)))"
proof -
  have M: "fst (shape pvec) = M" and N: "snd (shape pvec) = N" and rows: "length (rows pvec) = M"
    using assms(1,2) by (simp_all add: wf_array2d_def)
  have len: "length (np_cumsum (column pvec j)) = M" for j
    by (simp add: length_np_cumsum length_column rows)
  have main: "draw_indicator pvec draws = Inr (map (\<lambda>j. indicator_entry pvec (draws j) j) [0..<N])"
    unfolding draw_indicator_def N
    using draw_indicator_body [OF assms]
    by (subst Let_def, intro for_loop_fill) simp_all
  have l: "length (map (\<lambda>j. indicator_entry pvec (draws j) j) [0..<N]) = N"
    by simp
  have first: "indicator_entry pvec (draws j) j = real i"
    if "i < M" "np_cumsum (column pvec j) ! i
            - u_R (draws j) (Uniform_dist 0 (last (np_cumsum (column pvec j)))) > 0"
       "\<forall>i'<i. \<not> np_cumsum (column pvec j) ! i'
                - u_R (draws j) (Uniform_dist 0 (last (np_cumsum (column pvec j)))) > 0"
    for i j
    using that by (intro indicator_entry_first) (simp_all add: len)
  have none: "indicator_entry pvec (draws j) j = raw_index (draws j) (Randint_dist 0 (int M))"
    if "\<forall>i<M. \<not> np_cumsum (column pvec j) ! i
                - u_R (draws j) (Uniform_dist 0 (last (np_cumsum (column pvec j)))) > 0"
    for j
    using that indicator_entry_none [of pvec j "draws j"] by (simp add: len M)
  have index: "\<exists>m<M. raw_index (draws j) (Randint_dist 0 (int M)) = real m"
    if "in_support (Randint_dist 0 (int M)) (raw_index (draws j) (Randint_dist 0 (int M)))" for j
    using that by (rule randint_index)
  have zero: "last (np_cumsum (column pvec j)) = 0
      \<and> indicator_entry pvec (draws j) j = raw_index (draws j) (Randint_dist 0 (int M))"
    if z: "\<forall>i<M. rows pvec ! i ! j = 0"
      and u: "in_support (Uniform_dist 0 0) (u_R (draws j) (Uniform_dist 0 0))" for j
  proof -
    have col: "\<forall>x \<in> set (column pvec j). x = 0"
      using z rows by (auto simp: column_def in_set_conv_nth)
    have ne: "np_cumsum (column pvec j) \<noteq> []"
      using len [of j] assms(3) by auto
    show ?thesis
      using zero_column_no_hit [OF col ne u] none [of j] by (simp add: len)
  qed
  show ?thesis
    by (intro conjI allI impI main l; (elim conjE)?) (use first none index zero in blast)+
qed

theorem draw_indicator_entries_witness:
  "wf_array2d \<lparr>shape = (2, 2), rows = [[1, 0], [3, 0]]\<rparr> \<and> (1::nat) \<le> 2
   \<and> in_support (Randint_dist 0 2) (rvs_of_variate 4 (Randint_dist 0 2))
   \<and> in_support (Uniform_dist 0 0) (rvs_of_variate (1 / 2) (Uniform_dist 0 0))
   \<and> draw_indicator \<lparr>shape = (2, 2), rows = [[1, 0], [3, 0]]\<rparr>
        (\<lambda>j. \<lparr>u_R = rvs_of_variate (1 / 2), raw_index = rvs_of_variate 4\<rparr>) = Inr [1, 0]"
proof -
  define pvec where "pvec = \<lparr>shape = (2 :: nat, 2 :: nat), rows = [[1 :: real, 0], [3, 0]]\<rparr>"
  define draws :: "nat \<Rightarrow> indicator_draws" where
    "draws = (\<lambda>j. \<lparr>u_R = rvs_of_variate (1 / 2), raw_index = rvs_of_variate 4\<rparr>)"
  have wf: "wf_array2d pvec" and sh: "shape pvec = (2, 2)"
    by (simp_all add: pvec_def wf_array2d_def)
  have le: "(1::nat) \<le> 2"
    by simp
  have c0: "np_cumsum (column pvec 0) = [1, 4]" and c1: "np_cumsum (column pvec (Suc 0)) = [0, 0]"
    by (simp_all add: np_cumsum_def column_def pvec_def upt_0_2)
  have e0: "indicator_entry pvec (draws 0) 0 = 1"
    by (simp add: indicator_entry_def c0 draws_def upt_0_2)
  have e1: "indicator_entry pvec (draws (Suc 0)) (Suc 0) = 0"
    unfolding indicator_entry_def c1 Let_def
    by (simp add: draws_def upt_0_2 pvec_def)
  have "draw_indicator pvec draws = Inr [1, 0]"
    using draw_indicator_entries [OF wf sh le, of draws] by (simp add: upt_0_2 e0 e1)
  then show ?thesis
    using wf unfolding pvec_def draws_def by simp
qed

text \<open>
  A matrix without rows is outside the claim: the cumulative sum of a column is empty and
  reading its last entry raises \<^verbatim>\<open>IndexError\<close>.
\<close>

lemma draw_indicator_without_rows:
  "draw_indicator \<lparr>shape = (0, 1), rows = []\<rparr> draws = Inl IndexError"
  by (simp add: draw_indicator_def column_def np_cumsum_def last_item_def)

section \<open>The mean over the prior draws\<close>

lemma fold_update_add:
  fixes h :: "'a \<Rightarrow> real"
  shows "length (fold (\<lambda>(i, x) y. y[i := y ! i + h x]) (enumerate n xs) y) = length y
    \<and> (\<forall>j<length y. fold (\<lambda>(i, x) y. y[i := y ! i + h x]) (enumerate n xs) y ! j =
          (if n \<le> j \<and> j < n + length xs then y ! j + h (xs ! (j - n)) else y ! j))"
proof (induction xs arbitrary: n y)
  case Nil
  show ?case by simp
next
  case (Cons x xs)
  let ?f = "\<lambda>(i, x) y. y[i := y ! i + h x]"
  let ?y = "y[n := y ! n + h x]"
  have IH: "length (fold ?f (enumerate (Suc n) xs) ?y) = length y"
    "\<And>j. j < length y \<Longrightarrow> fold ?f (enumerate (Suc n) xs) ?y ! j =
        (if Suc n \<le> j \<and> j < Suc n + length xs then ?y ! j + h (xs ! (j - Suc n)) else ?y ! j)"
    using Cons.IH [of "Suc n" ?y] by simp_all
  have step: "fold ?f (enumerate n (x # xs)) y = fold ?f (enumerate (Suc n) xs) ?y"
    by simp
  show ?case
    unfolding step
  proof (intro conjI allI impI)
    show "length (fold ?f (enumerate (Suc n) xs) ?y) = length y"
      by (rule IH(1))
    fix j assume j: "j < length y"
    consider "j < n" | "j = n" | "Suc n \<le> j"
      by linarith
    then show "fold ?f (enumerate (Suc n) xs) ?y ! j =
        (if n \<le> j \<and> j < n + length (x # xs) then y ! j + h ((x # xs) ! (j - n)) else y ! j)"
    proof cases
      case 1
      then show ?thesis using j by (simp add: IH(2))
    next
      case 2
      then show ?thesis using j by (simp add: IH(2))
    next
      case 3
      then show ?thesis using j by (simp add: IH(2) Suc_diff_le)
    qed
  qed
qed

lemma Asymmetric_Gassian_Distribution_pdf_eq:
  "Asymmetric_Gassian_Distribution_pdf x_k mu s_l s_r mu_irr s_l_irr s_r_irr rho =
     map (\<lambda>x. rho * AGD_pdf x mu s_l s_r + (1 - rho) * AGD_pdf x mu_irr s_l_irr s_r_irr) x_k"
proof -
  define h where "h = (\<lambda>x. rho * AGD_pdf x mu s_l s_r + (1 - rho) * AGD_pdf x mu_irr s_l_irr s_r_irr)"
  have body: "(\<lambda>(i, xik) y_k.
       let y_k =
             (if xik < mu
              then y_k[i := y_k ! i + rho * sqrt (2 / pi) / (s_l powr (- 0.5) + s_r powr (- 0.5))
                                        * exp (- 0.5 * s_l * (xik - mu) ^ 2)]
              else y_k[i := y_k ! i + rho * sqrt (2 / pi) / (s_l powr (- 0.5) + s_r powr (- 0.5))
                                        * exp (- 0.5 * s_r * (xik - mu) ^ 2)])
       in (if xik < mu_irr
           then y_k[i := y_k ! i + (1 - rho) * sqrt (2 / pi)
                                     / (s_l_irr powr (- 0.5) + s_r_irr powr (- 0.5))
                                     * exp (- 0.5 * s_l_irr * (xik - mu_irr) ^ 2)]
           else y_k[i := y_k ! i + (1 - rho) * sqrt (2 / pi)
                                     / (s_l_irr powr (- 0.5) + s_r_irr powr (- 0.5))
                                     * exp (- 0.5 * s_r_irr * (xik - mu_irr) ^ 2)]))
     = (\<lambda>(i, x) y. y[i := y ! i + h x])"
  proof (intro ext, clarify)
    fix i :: nat and x :: real and y :: "real list"
    show "(let y_k =
             (if x < mu
              then y[i := y ! i + rho * sqrt (2 / pi) / (s_l powr (- 0.5) + s_r powr (- 0.5))
                                        * exp (- 0.5 * s_l * (x - mu) ^ 2)]
              else y[i := y ! i + rho * sqrt (2 / pi) / (s_l powr (- 0.5) + s_r powr (- 0.5))
                                        * exp (- 0.5 * s_r * (x - mu) ^ 2)])
       in (if x < mu_irr
           then y_k[i := y_k ! i + (1 - rho) * sqrt (2 / pi)
                                     / (s_l_irr powr (- 0.5) + s_r_irr powr (- 0.5))
                                     * exp (- 0.5 * s_l_irr * (x - mu_irr) ^ 2)]
           else y_k[i := y_k ! i + (1 - rho) * sqrt (2 / pi)
                                     / (s_l_irr powr (- 0.5) + s_r_irr powr (- 0.5))
                                     * exp (- 0.5 * s_r_irr * (x - mu_irr) ^ 2)]))
        = y[i := y ! i + h x]"
      by (cases "i < length y") (simp_all add: h_def AGD_pdf_def Let_def add.assoc mult.assoc list_update_beyond)
  qed
  have "Asymmetric_Gassian_Distribution_pdf x_k mu s_l s_r mu_irr s_l_irr s_r_irr rho =
          fold (\<lambda>(i, x) y. y[i := y ! i + h x]) (enumerate 0 x_k) (replicate (length x_k) 0)"
    unfolding Asymmetric_Gassian_Distribution_pdf_def body ..
  also have "\<dots> = map h x_k"
    using fold_update_add [of h 0 x_k "replicate (length x_k) 0"]
    by (intro nth_equalityI) simp_all
  finally show ?thesis
    unfolding h_def .
qed

lemma for_loop_collect:
  assumes "\<And>acc k. k \<in> set ks \<Longrightarrow> body acc k = Inr (acc @ [v k])"
  shows "for_loop ks body acc = Inr (acc @ map v ks)"
  using assms by (induction ks arbitrary: acc) simp_all

lemma draw_gamma_list_eq:
  assumes "D \<le> length beta" and "D \<le> length w"
    and "\<forall>k<D. 0 < beta ! k \<and> 0 < w ! k"
  shows "draw_gamma_list beta w D g = Inr (map (\<lambda>k. g k (precision_prior beta w k)) [0..<D])"
proof -
  have pos: "0 \<le> beta ! k * w ! k" if "k < D" for k
    using assms(3) that by (simp add: less_imp_le)
  have "for_loop [0..<D] (\<lambda>acc k.
       bindE (idx beta k) (\<lambda>beta_k.
       bindE (idx w k) (\<lambda>w_k.
       bindE (draw_gamma (beta_k / 2) (2 / (beta_k * w_k)) (g k)) (\<lambda>v.
         Inr (acc @ [v]))))) [] = Inr ([] @ map (\<lambda>k. g k (precision_prior beta w k)) [0..<D])"
    using assms pos
    by (intro for_loop_collect) (simp add: idx_in_range draw_gamma_def precision_prior_def)
  then show ?thesis
    by (simp add: draw_gamma_list_def)
qed

lemma map2_add_map: "map2 (+) (map F xs) (map G xs) = map (\<lambda>x. F x + G x) xs"
  for F G :: "'a \<Rightarrow> real"
  by (induction xs) simp_all

lemma map2_mult_map: "map2 (*) (map F xs) (map G xs) = map (\<lambda>x. F x * G x) xs"
  for F G :: "'a \<Rightarrow> real"
  by (induction xs) simp_all

lemma for_loop_product:
  fixes h :: "nat \<Rightarrow> 'a \<Rightarrow> real"
  assumes "\<And>ini k. k < D \<Longrightarrow> body ini k = Inr (map2 (*) ini (map (h k) rs))"
  shows "for_loop [0..<D] body (replicate (length rs) 1) =
           Inr (map (\<lambda>x. prod_list (map (\<lambda>k. h k x) [0..<D])) rs)"
  using assms
proof (induction D)
  case 0
  show ?case
    by (simp add: map_replicate_const)
next
  case (Suc D)
  have "for_loop [0..<D] body (replicate (length rs) 1) =
           Inr (map (\<lambda>x. prod_list (map (\<lambda>k. h k x) [0..<D])) rs)"
    using Suc.prems by (intro Suc.IH) simp
  then show ?case
    using Suc.prems [of D] by (simp add: for_loop_snoc map2_mult_map)
qed

lemma integral_approx_iteration_eq:
  assumes prior: "D \<le> length beta_l" "D \<le> length w_l" "D \<le> length beta_r" "D \<le> length w_r"
      "\<forall>k<D. 0 < beta_l ! k \<and> 0 < w_l ! k" "\<forall>k<D. 0 < beta_r ! k \<and> 0 < w_r ! k"
    and drawn: "length lam = D" "2 \<le> D" "D \<le> length (beta_rho d delta_a delta_b)"
    and var: "length r = D" "\<forall>k<D. 0 < r ! k"
  shows "integral_approx_iteration X lam r beta_l beta_r w_l w_r delta_a delta_b D d
           (map T (rows X)) =
         Inr (map (\<lambda>x. T x
                + prior_sample_density lam r beta_l beta_r w_l w_r delta_a delta_b d D x) (rows X))"
proof -
  define cov where "cov = map (\<lambda>r_k. Finite (1 / r_k)) r"
  define rho where "rho = beta_rho d delta_a delta_b"
  define s_l where "s_l = map (\<lambda>k. g_s_l d k (precision_prior beta_l w_l k)) [0..<D]"
  define s_r where "s_r = map (\<lambda>k. g_s_r d k (precision_prior beta_r w_r k)) [0..<D]"
  define s_l_irr where "s_l_irr = map (\<lambda>k. g_s_l_irr d k (precision_prior beta_l w_l k)) [0..<D]"
  define s_r_irr where "s_r_irr = map (\<lambda>k. g_s_r_irr d k (precision_prior beta_r w_r k)) [0..<D]"
  define h where "h = (\<lambda>k row. rho ! k * AGD_pdf (row ! k) (mv_mu d lam cov k) (s_l ! k) (s_r ! k)
      + (1 - rho ! k) * AGD_pdf (row ! k) (mv_mu_irr d lam cov k) (s_l_irr ! k) (s_r_irr ! k))"
  have gl: "draw_gamma_list beta_l w_l D (g_s_l d) = Inr s_l"
    "draw_gamma_list beta_r w_r D (g_s_r d) = Inr s_r"
    "draw_gamma_list beta_l w_l D (g_s_l_irr d) = Inr s_l_irr"
    "draw_gamma_list beta_r w_r D (g_s_r_irr d) = Inr s_r_irr"
    unfolding s_l_def s_r_def s_l_irr_def s_r_irr_def
    using prior by (intro draw_gamma_list_eq; simp)+
  have len: "length s_l = D" "length s_r = D" "length s_l_irr = D" "length s_r_irr = D"
    by (simp_all add: s_l_def s_r_def s_l_irr_def s_r_irr_def)
  have body: "bindE (idx_squeezed (Vector (map (mv_mu d lam cov) [0..<D])) k) (\<lambda>mu_k.
               bindE (idx s_l k) (\<lambda>s_l_k.
               bindE (idx s_r k) (\<lambda>s_r_k.
               bindE (idx_squeezed (Vector (map (mv_mu_irr d lam cov) [0..<D])) k) (\<lambda>mu_irr_k.
               bindE (idx s_l_irr k) (\<lambda>s_l_irr_k.
               bindE (idx s_r_irr k) (\<lambda>s_r_irr_k.
               bindE (idx rho k) (\<lambda>rho_k.
               let temp_para =
                     Asymmetric_Gassian_Distribution_pdf (column X k) mu_k s_l_k s_r_k
                       mu_irr_k s_l_irr_k s_r_irr_k rho_k
               in Inr (map2 (*) ini temp_para))))))))
             = Inr (map2 (*) ini (map (h k) (rows X)))" if "k < D" for k ini
    using that drawn len
    by (simp add: idx_in_range idx_squeezed_def Asymmetric_Gassian_Distribution_pdf_eq column_def
        h_def comp_def rho_def)
  have loop: "for_loop [0..<D] (\<lambda>ini k.
               bindE (idx_squeezed (Vector (map (mv_mu d lam cov) [0..<D])) k) (\<lambda>mu_k.
               bindE (idx s_l k) (\<lambda>s_l_k.
               bindE (idx s_r k) (\<lambda>s_r_k.
               bindE (idx_squeezed (Vector (map (mv_mu_irr d lam cov) [0..<D])) k) (\<lambda>mu_irr_k.
               bindE (idx s_l_irr k) (\<lambda>s_l_irr_k.
               bindE (idx s_r_irr k) (\<lambda>s_r_irr_k.
               bindE (idx rho k) (\<lambda>rho_k.
               let temp_para =
                     Asymmetric_Gassian_Distribution_pdf (column X k) mu_k s_l_k s_r_k
                       mu_irr_k s_l_irr_k s_r_irr_k rho_k
               in Inr (map2 (*) ini temp_para))))))))) (replicate (length (rows X)) 1)
          = Inr (map (\<lambda>x. prod_list (map (\<lambda>k. h k x) [0..<D])) (rows X))"
    by (rule for_loop_product) (rule body)
  have dens: "prod_list (map (\<lambda>k. h k x) [0..<D]) =
      prior_sample_density lam r beta_l beta_r w_l w_r delta_a delta_b d D x" for x
    unfolding prior_sample_density_def h_def s_l_def s_r_def s_l_irr_def s_r_irr_def cov_def
      rho_def
    by (intro arg_cong [where f = prod_list] map_cong refl) simp
  have nonzero: "\<forall>r_k \<in> set r. 0 < r_k"
    using var by (auto simp: in_set_conv_nth)
  then have div: "map (\<lambda>r_k. np_true_divide 1 r_k) r = cov"
    unfolding cov_def by (intro map_cong refl) (auto simp: np_true_divide_def)
  have ok: "list_all variance_ok cov"
    using nonzero by (auto simp: cov_def list_all_iff less_imp_le)
  have mv: "draw_MVNormal lam cov g = Inr (Vector (map (g lam cov) [0..<D]))" for g
    using drawn(1,2) var(1) ok by (auto simp: draw_MVNormal_def squeeze_output_def cov_def)
  show ?thesis
    unfolding integral_approx_iteration_def div mv draw_Beta_dist_def Let_def gl
      bindE_Inr rho_def [symmetric] loop [unfolded Let_def]
    by (simp add: map2_add_map dens)
qed

lemma integral_approx_while_eq:
  assumes prior: "D \<le> length beta_l" "D \<le> length w_l" "D \<le> length beta_r" "D \<le> length w_r"
      "\<forall>k<D. 0 < beta_l ! k \<and> 0 < w_l ! k" "\<forall>k<D. 0 < beta_r ! k \<and> 0 < w_r ! k"
    and lam: "length lam = D" "2 \<le> D"
    and var: "length r = D" "\<forall>k<D. 0 < r ! k"
    and drawn: "\<forall>t<nat size'. D \<le> length (beta_rho (draws t) delta_a delta_b)"
    and i: "0 \<le> i" "i \<le> size'"
  shows "integral_approx_while X lam r beta_l beta_r w_l w_r delta_a delta_b size' draws D i
           (map (\<lambda>x. \<Sum>t\<leftarrow>[0..<nat i]. prior_sample_density lam r beta_l beta_r w_l w_r
                   delta_a delta_b (draws t) D x)
              (rows X)) =
         Inr (map (\<lambda>x. \<Sum>t\<leftarrow>[0..<nat size']. prior_sample_density lam r beta_l beta_r w_l w_r
                   delta_a delta_b (draws t) D x)
                (rows X))"
  using i
proof (induction "nat (size' - i)" arbitrary: i)
  case 0
  then have "i = size'"
    by simp
  then show ?case
    by (simp add: integral_approx_while_done)
next
  case (Suc n)
  then have less: "i < size'" and next_i: "n = nat (size' - (i + 1))" "0 \<le> i + 1" "i + 1 \<le> size'"
    by simp_all
  have t: "nat i < nat size'"
    using less Suc.prems by simp
  have step: "integral_approx_iteration X lam r beta_l beta_r w_l w_r delta_a delta_b D
                (draws (nat i))
                (map (\<lambda>x. \<Sum>t\<leftarrow>[0..<nat i]. prior_sample_density lam r beta_l beta_r w_l w_r
                   delta_a delta_b (draws t) D x)
                   (rows X)) =
              Inr (map (\<lambda>x. \<Sum>t\<leftarrow>[0..<nat (i + 1)].
                          prior_sample_density lam r beta_l beta_r w_l w_r
                   delta_a delta_b (draws t) D x) (rows X))"
  proof -
    have "nat (i + 1) = Suc (nat i)"
      using Suc.prems by simp
    then show ?thesis
      using drawn t by (simp add: integral_approx_iteration_eq [OF prior lam _ var])
  qed
  show ?case
    unfolding integral_approx_while_step [OF less] step bindE_Inr
    by (rule Suc.hyps(1) [OF next_i])
qed

text \<open>
  For a well-formed \<open>N \<times> D\<close> dataset with at least two features, hyperparameters with an
  entry for each feature (strictly positive for the Gamma priors and for the precisions \<open>r\<close>
  of the means, so that no generator call is refused), a drawn Beta vector with
  an entry for each feature, and \<open>size \<ge> 1\<close>, \<open>integral_approx\<close> returns a vector with one
  entry for each of the \<open>N\<close> observations: the arithmetic mean over the \<open>size\<close> iterations
  of the product over the features of the two-branch mixture density at the parameters
  drawn in that iteration. With \<open>size = 1\<close> the entry is the single sample.
\<close>

lemma integral_approx_mean_of_samples:
  assumes "wf_array2d X" and "shape X = (N, D)" and "1 \<le> size'"
    and "D \<le> length beta_l" and "D \<le> length w_l" and "D \<le> length beta_r" and "D \<le> length w_r"
    and "\<forall>k<D. 0 < beta_l ! k \<and> 0 < w_l ! k" and "\<forall>k<D. 0 < beta_r ! k \<and> 0 < w_r ! k"
    and "length lam = D" and "2 \<le> D"
    and "length r = D" and "\<forall>k<D. 0 < r ! k"
    and "\<forall>t<nat size'. D \<le> length (beta_rho (draws t) delta_a delta_b)"
  shows "integral_approx X lam r beta_l beta_r w_l w_r delta_a delta_b size' draws =
           Inr (map (\<lambda>x. Finite ((\<Sum>t\<leftarrow>[0..<nat size'].
                   prior_sample_density lam r beta_l beta_r w_l w_r
                   delta_a delta_b (draws t) D x) / real_of_int size'))
                  (rows X))
         \<and> length (rows X) = N
         \<and> (size' = 1 \<longrightarrow>
              integral_approx X lam r beta_l beta_r w_l w_r delta_a delta_b size' draws =
                Inr (map (\<lambda>x. Finite (prior_sample_density lam r beta_l beta_r w_l w_r
                   delta_a delta_b (draws 0) D x))
                       (rows X)))"
proof -
  have D: "snd (shape X) = D" and N: "length (rows X) = N"
    using assms(1,2) by (simp_all add: wf_array2d_def)
  have start: "replicate (length (rows X)) 0 =
      map (\<lambda>x. \<Sum>t\<leftarrow>[0..<nat 0]. prior_sample_density lam r beta_l beta_r w_l w_r
                   delta_a delta_b (draws t) D x) (rows X)"
    by (simp add: map_replicate_const)
  have loop: "integral_approx_while X lam r beta_l beta_r w_l w_r delta_a delta_b size' draws D 0
           (replicate (length (rows X)) 0) =
         Inr (map (\<lambda>x. \<Sum>t\<leftarrow>[0..<nat size']. prior_sample_density lam r beta_l beta_r w_l w_r
                   delta_a delta_b (draws t) D x)
                (rows X))"
    unfolding start using assms(3) by (intro integral_approx_while_eq assms) simp_all
  have nonzero: "real_of_int size' \<noteq> 0"
    using assms(3) by simp
  have main: "integral_approx X lam r beta_l beta_r w_l w_r delta_a delta_b size' draws =
           Inr (map (\<lambda>x. Finite ((\<Sum>t\<leftarrow>[0..<nat size'].
                   prior_sample_density lam r beta_l beta_r w_l w_r
                   delta_a delta_b (draws t) D x) / real_of_int size'))
                  (rows X))"
    unfolding integral_approx_unfold D loop bindE_Inr
    using nonzero by (simp add: np_true_divide_def comp_def)
  have single: "integral_approx X lam r beta_l beta_r w_l w_r delta_a delta_b size' draws =
                Inr (map (\<lambda>x. Finite (prior_sample_density lam r beta_l beta_r w_l w_r
                   delta_a delta_b (draws 0) D x))
                       (rows X))" if "size' = 1"
    unfolding main using that by simp
  show ?thesis
    using main N single by blast
qed

text \<open>An instance with two observations, two features and one iteration.\<close>

lemma integral_approx_mean_of_samples_example:
  "integral_approx \<lparr>shape = (2, 2), rows = [[0, 1], [1, 0]]\<rparr> [0, 0] [1, 1] [1, 1] [1, 1]
        [1, 1] [1, 1] [1, 1] [1, 1] 1
        (\<lambda>t. \<lparr>mv_mu = (\<lambda>mean cov k. 0), g_s_l = (\<lambda>k. rvs_of_variate (1 / 2)),
               g_s_r = (\<lambda>k. rvs_of_variate (1 / 2)), mv_mu_irr = (\<lambda>mean cov k. 1),
               g_s_l_irr = (\<lambda>k. rvs_of_variate (1 / 2)),
               g_s_r_irr = (\<lambda>k. rvs_of_variate (1 / 2)),
               beta_rho = (\<lambda>a b. [1 / 2, 1 / 2])\<rparr>)
      = Inr [Finite ((1 / 2 * AGD_pdf 0 0 1 1 + (1 - 1 / 2) * AGD_pdf 0 1 1 1)
                      * (1 / 2 * AGD_pdf 1 0 1 1 + (1 - 1 / 2) * AGD_pdf 1 1 1 1)),
             Finite ((1 / 2 * AGD_pdf 1 0 1 1 + (1 - 1 / 2) * AGD_pdf 1 1 1 1)
                      * (1 / 2 * AGD_pdf 0 0 1 1 + (1 - 1 / 2) * AGD_pdf 0 1 1 1))]"
proof -
  define X where "X = \<lparr>shape = (2 :: nat, 2 :: nat), rows = [[0 :: real, 1], [1, 0]]\<rparr>"
  define draws :: "nat \<Rightarrow> prior_draws" where
    "draws = (\<lambda>t. \<lparr>mv_mu = (\<lambda>mean cov k. 0), g_s_l = (\<lambda>k. rvs_of_variate (1 / 2)),
               g_s_r = (\<lambda>k. rvs_of_variate (1 / 2)), mv_mu_irr = (\<lambda>mean cov k. 1),
               g_s_l_irr = (\<lambda>k. rvs_of_variate (1 / 2)),
               g_s_r_irr = (\<lambda>k. rvs_of_variate (1 / 2)),
               beta_rho = (\<lambda>a b. [1 / 2, 1 / 2])\<rparr>)"
  have wf: "wf_array2d X" and sh: "shape X = (2, 2)"
    by (simp_all add: X_def wf_array2d_def)
  have len: "(2::nat) \<le> length [1::real, 1]" and lam: "length [0::real, 0] = 2"
    by simp_all
  have pos: "\<forall>k<2::nat. 0 < [1::real, 1] ! k \<and> 0 < [1::real, 1] ! k"
    by (simp add: less_Suc_eq numeral_2_eq_2)
  have drawn: "\<forall>t<nat 1. 2 \<le> length (beta_rho (draws t) [1, 1] [1, 1])"
    by (simp add: draws_def)
  have var: "length [1::real, 1] = 2" "\<forall>k<2::nat. 0 < [1::real, 1] ! k"
    by (simp_all add: less_Suc_eq numeral_2_eq_2)
  have "integral_approx X [0, 0] [1, 1] [1, 1] [1, 1] [1, 1] [1, 1] [1, 1] [1, 1] 1 draws =
          Inr (map (\<lambda>x. Finite (prior_sample_density [0, 0] [1, 1] [1, 1] [1, 1] [1, 1] [1, 1]
                   [1, 1] [1, 1] (draws 0) 2 x)) (rows X))"
    using integral_approx_mean_of_samples [OF wf sh order_refl len len len len pos pos lam
        order_refl var drawn]
    by simp
  then show ?thesis
    unfolding X_def draws_def
    by (simp add: prior_sample_density_def precision_prior_def upt_0_2)
qed

text \<open>
  Claim C8 fails on the code for a dataset with a single feature. The multivariate normal
  draw is then a scalar, and the read \<^verbatim>\<open>mu[k]\<close> in the first iteration raises
  \<^verbatim>\<open>IndexError\<close>, whatever the random source returns.
\<close>

theorem integral_approx_single_feature_raises:
  "integral_approx \<lparr>shape = (2, 1), rows = [[0], [1]]\<rparr> [0] [1] [1] [1] [1] [1] [1] [1] 1 draws
     = Inl IndexError"
proof -
  have gl: "draw_gamma_list [1] [1] 1 g = Inr (map (\<lambda>k. g k (precision_prior [1] [1] k)) [0..<1])"
    for g
    by (intro draw_gamma_list_eq) simp_all
  have mv: "draw_MVNormal [0] (map (\<lambda>r_k. np_true_divide 1 r_k) [1]) g
              = Inr (Scalar (g [0] [Finite 1] 0))" for g
    by (simp add: draw_MVNormal_def squeeze_output_def np_true_divide_def)
  have "integral_approx_iteration \<lparr>shape = (2, 1), rows = [[0], [1]]\<rparr> [0] [1] [1] [1] [1] [1]
          [1] [1] 1 d temp = Inl IndexError" for d temp
    unfolding integral_approx_iteration_def gl mv Let_def bindE_Inr
    by (simp add: idx_squeezed_def)
  then show ?thesis
    unfolding integral_approx_unfold
    by (simp add: integral_approx_while_step)
qed

end
